theory Spec2Isabelle
  imports Main "HOL-Library.Word"
begin

section \<open>Common types of the message processing stack\<close>

text \<open>
  The size types \<^verbatim>\<open>mbedtls_mps_size_t\<close> and \<^verbatim>\<open>mbedtls_mps_stored_size_t\<close> are declared in
  \<^verbatim>\<open>common.h\<close>, which is not among the sources. Both are taken to be one unsigned
  machine integer type whose width is the type parameter \<open>'a\<close>: sizes are \<open>'a word\<close>,
  addition and subtraction wrap around, comparisons are unsigned.
\<close>

type_synonym byte = "8 word"

text \<open>
  The error codes of \<^verbatim>\<open>writer.h\<close> and those \<^verbatim>\<open>layer3.c\<close> uses. The numeric values
  come from macros outside the sources; only their being different from each
  other and from \<open>0\<close> matters, so they are the constructors of a datatype.
  A code that a collaborator outside the sources returns and that has no name
  here is \<open>MBEDTLS_ERR_OTHER\<close>.
\<close>

datatype mps_err =
    MBEDTLS_ERR_WRITER_DATA_LEFT
  | MBEDTLS_ERR_WRITER_INVALID_ARG
  | MBEDTLS_ERR_WRITER_NEED_MORE
  | MBEDTLS_ERR_MPS_OPERATION_UNEXPECTED
  | MBEDTLS_ERR_WRITER_OUT_OF_DATA
  | MBEDTLS_ERR_WRITER_BOUNDS_VIOLATION
  | MBEDTLS_ERR_WRITER_TOO_MANY_GROUPS
  | MBEDTLS_ERR_READER_OUT_OF_DATA
  | MBEDTLS_ERR_MPS_INVALID_CONTENT
  | MBEDTLS_ERR_MPS_UNFINISHED_HS_MSG
  | MBEDTLS_ERR_MPS_INTERNAL_ERROR
  | MBEDTLS_ERR_MPS_INVALID_ARGS
  | MBEDTLS_ERR_MPS_NO_INTERLEAVING
  | MBEDTLS_ERR_MPS_RETRY
  | MBEDTLS_ERR_OTHER int

text \<open>The \<^verbatim>\<open>int\<close> a function returns: \<open>0\<close> is \<open>SUCCESS\<close>, anything else an error.\<close>

datatype ret = SUCCESS | FAILURE mps_err

text \<open>
  \<^verbatim>\<open>memcpy( dst + d, src + s, n )\<close> on buffers held as byte lists. Within the bounds
  of both buffers it replaces the \<open>n\<close> bytes of \<open>dst\<close> from offset \<open>d\<close> by the \<open>n\<close>
  bytes of \<open>src\<close> from offset \<open>s\<close>. Outside the bounds the C is undefined; the
  theorems about buffer contents state the bounds they need.
\<close>

definition memcpy :: "byte list \<Rightarrow> nat \<Rightarrow> byte list \<Rightarrow> nat \<Rightarrow> nat \<Rightarrow> byte list" where
  "memcpy dst d src s n = take d dst @ take n (drop s src) @ drop (d + n) dst"

text \<open>The same through pointers that may be \<^verbatim>\<open>NULL\<close> (\<open>None\<close>): nothing is copied then.\<close>

definition memcpy_ptr ::
  "byte list option \<Rightarrow> nat \<Rightarrow> byte list option \<Rightarrow> nat \<Rightarrow> nat \<Rightarrow> byte list option" where
  "memcpy_ptr dst d src s n =
     (case dst of
        None \<Rightarrow> None
      | Some db \<Rightarrow> (case src of None \<Rightarrow> Some db | Some sb \<Rightarrow> Some (memcpy db d sb s n)))"

text \<open>
  An output parameter \<^verbatim>\<open>T *p\<close> that may be \<^verbatim>\<open>NULL\<close>: \<open>None\<close> is the null pointer,
  \<open>Some v\<close> a cell holding \<open>v\<close>. \<^verbatim>\<open>if( p != NULL ) *p = v;\<close> is \<open>assign_out p v\<close>.
\<close>

definition assign_out :: "'b option \<Rightarrow> 'b \<Rightarrow> 'b option" where
  "assign_out p v = (case p of None \<Rightarrow> None | Some _ \<Rightarrow> Some v)"

section \<open>The writer (writer.h, writer.c)\<close>

datatype mbedtls_writer_state_t = MBEDTLS_WRITER_PROVIDING | MBEDTLS_WRITER_CONSUMING

text \<open>
  \<^verbatim>\<open>struct mbedtls_writer\<close>. The buffers \<open>out\<close> and \<open>queue\<close> are held by their contents;
  \<open>None\<close> is \<^verbatim>\<open>NULL\<close>. The field \<^verbatim>\<open>end\<close> is \<open>end_ofs\<close>.
\<close>

record (overloaded) ('a::len) mbedtls_writer =
  out :: "byte list option"
  queue :: "byte list option"
  out_len :: "'a word"
  queue_len :: "'a word"
  committed :: "'a word"
  end_ofs :: "'a word"
  queue_next :: "'a word"
  queue_remaining :: "'a word"
  state :: mbedtls_writer_state_t

text \<open>
  The pointer \<^verbatim>\<open>mbedtls_writer_get\<close> hands out: into the outgoing data buffer
  (\<^verbatim>\<open>out + ofs\<close>) or into the queue (\<^verbatim>\<open>queue + ofs\<close>); the offset type \<open>'o\<close> is
  the size type.
\<close>

datatype 'o bufptr = PTR_OUT 'o | PTR_QUEUE 'o

definition mbedtls_writer_init :: "byte list option \<Rightarrow> 'a::len word \<Rightarrow> 'a mbedtls_writer" where
  "mbedtls_writer_init q qlen =
     \<lparr> out = None, queue = q, out_len = 0, queue_len = qlen, committed = 0,
       end_ofs = 0, queue_next = 0, queue_remaining = 0,
       state = MBEDTLS_WRITER_PROVIDING \<rparr>"

definition mbedtls_writer_free :: "'a::len mbedtls_writer" where
  "mbedtls_writer_free = mbedtls_writer_init None 0"

text \<open>
  \<^verbatim>\<open>MBEDTLS_MPS_STATE_VALIDATE_RAW\<close> is a macro of \<^verbatim>\<open>common.h\<close>. Following the
  documentation in \<^verbatim>\<open>writer.h\<close> (a call in the wrong state returns
  \<^verbatim>\<open>MBEDTLS_ERR_WRITER_OPERATION_UNEXPECTED\<close> and leaves the writer unmodified) it is
  modelled with state validation enabled.

  \<^verbatim>\<open>mbedtls_writer_feed( wr, buf, buf_len )\<close>: the result is the return code, the
  writer, and the contents of \<open>buf\<close> after the call.
\<close>

definition mbedtls_writer_feed ::
  "'a::len mbedtls_writer \<Rightarrow> byte list \<Rightarrow> 'a word \<Rightarrow> ret \<times> 'a mbedtls_writer \<times> byte list" where
  "mbedtls_writer_feed wr buf buf_len =
     (if state wr \<noteq> MBEDTLS_WRITER_PROVIDING
      then (FAILURE MBEDTLS_ERR_MPS_OPERATION_UNEXPECTED, wr, buf)
      else
        (case queue wr of
           None \<Rightarrow>
             (SUCCESS,
              wr\<lparr> out := Some buf, out_len := buf_len, committed := 0, end_ofs := 0,
                  state := MBEDTLS_WRITER_CONSUMING \<rparr>,
              buf)
         | Some q \<Rightarrow>
             (let qr = queue_remaining wr;
                  qa = queue_next wr;
                  copy_from_queue = (if qr > buf_len then buf_len else qr);
                  buf' = (if copy_from_queue \<noteq> 0
                          then memcpy buf 0 q (unat qa) (unat copy_from_queue) else buf);
                  qr' = qr - copy_from_queue
              in if qr' > 0
                 then (FAILURE MBEDTLS_ERR_WRITER_NEED_MORE,
                       wr\<lparr> queue_remaining := qr', queue_next := qa + copy_from_queue \<rparr>,
                       buf')
                 else (SUCCESS,
                       wr\<lparr> queue_next := 0, queue_remaining := 0,
                           out := Some buf', out_len := buf_len,
                           committed := copy_from_queue, end_ofs := copy_from_queue,
                           state := MBEDTLS_WRITER_CONSUMING \<rparr>,
                       buf'))))"

text \<open>
  The common tail of \<^verbatim>\<open>mbedtls_writer_reclaim\<close> (from \<^verbatim>\<open>if( queued != NULL )\<close> to the
  end): report the queued amount and return to providing state.
\<close>

definition reclaim_finish ::
  "'a::len mbedtls_writer \<Rightarrow> 'a word option \<Rightarrow> 'a word option \<Rightarrow>
   ret \<times> 'a mbedtls_writer \<times> 'a word option \<times> 'a word option" where
  "reclaim_finish wr olen queued =
     (SUCCESS,
      wr\<lparr> end_ofs := 0, committed := 0, out := None, out_len := 0,
          state := MBEDTLS_WRITER_PROVIDING \<rparr>,
      olen, assign_out queued (queue_remaining wr))"

text \<open>
  \<^verbatim>\<open>mbedtls_writer_reclaim( wr, olen, queued, force )\<close>: the result is the return
  code, the writer, and the cells \<open>olen\<close> and \<open>queued\<close> after the call.
\<close>

definition mbedtls_writer_reclaim ::
  "'a::len mbedtls_writer \<Rightarrow> 'a word option \<Rightarrow> 'a word option \<Rightarrow> int \<Rightarrow>
   ret \<times> 'a mbedtls_writer \<times> 'a word option \<times> 'a word option" where
  "mbedtls_writer_reclaim wr olen queued force =
     (if state wr \<noteq> MBEDTLS_WRITER_CONSUMING
      then (FAILURE MBEDTLS_ERR_MPS_OPERATION_UNEXPECTED, wr, olen, queued)
      else
        (let commit = committed wr; ol = out_len wr in
         if commit \<le> ol
         then
           (let olen1 = assign_out olen commit;
                queued1 = assign_out queued 0;
                wr1 = wr\<lparr> queue_next := 0 \<rparr>
            in if commit < ol \<and> force = 0
               then (FAILURE MBEDTLS_ERR_WRITER_DATA_LEFT, wr1\<lparr> end_ofs := commit \<rparr>,
                     olen1, queued1)
               else reclaim_finish wr1 olen1 queued1)
         else
           reclaim_finish (wr\<lparr> queue_remaining := commit - ol \<rparr>) (assign_out olen ol) queued))"

definition mbedtls_writer_bytes_written ::
  "'a::len mbedtls_writer \<Rightarrow> 'a word \<Rightarrow> ret \<times> 'a word" where
  "mbedtls_writer_bytes_written wr written =
     (if state wr \<noteq> MBEDTLS_WRITER_PROVIDING
      then (FAILURE MBEDTLS_ERR_MPS_OPERATION_UNEXPECTED, written)
      else (SUCCESS, committed wr))"

text \<open>
  \<^verbatim>\<open>mbedtls_writer_get( wr, desired, buffer, buflen )\<close>: the result is the return code,
  the writer, and the cells \<open>buffer\<close> and \<open>buflen\<close> after the call. \<open>buffer\<close> is the
  contents of \<^verbatim>\<open>*buffer\<close> (the pointer must not be \<^verbatim>\<open>NULL\<close>); \<open>buflen\<close> may be \<^verbatim>\<open>NULL\<close>.
\<close>

definition mbedtls_writer_get ::
  "'a::len mbedtls_writer \<Rightarrow> 'a word \<Rightarrow> 'a word bufptr option \<Rightarrow> 'a word option \<Rightarrow>
   ret \<times> 'a mbedtls_writer \<times> 'a word bufptr option \<times> 'a word option" where
  "mbedtls_writer_get wr desired buffer buflen =
     (if state wr \<noteq> MBEDTLS_WRITER_CONSUMING
      then (FAILURE MBEDTLS_ERR_MPS_OPERATION_UNEXPECTED, wr, buffer, buflen)
      else
        (let e = end_ofs wr; ol = out_len wr in
         if e > ol
         then
           (let ql = queue_len wr;
                qn = queue_next wr;
                qo = qn + (e - ol)
            in if ql - qo < desired \<and> buflen = None
               then (FAILURE MBEDTLS_ERR_WRITER_OUT_OF_DATA, wr, buffer, buflen)
               else
                 (let desired1 = (if ql - qo < desired then ql - qo else desired)
                  in (SUCCESS, wr\<lparr> end_ofs := e + desired1 \<rparr>,
                      Some (PTR_QUEUE qo), assign_out buflen desired1)))
         else
           (let orem = ol - e in
            if orem < desired
            then
              (let ql = queue_len wr in
               if queue wr \<noteq> None \<and> ql > orem
               then
                 (let desired1 = (if buflen \<noteq> None \<and> desired > ql then ql else desired);
                      overflow = (e + desired1 < e)
                  in if overflow \<or> desired1 > ql
                     then (FAILURE MBEDTLS_ERR_WRITER_OUT_OF_DATA, wr, buffer, buflen)
                     else (SUCCESS, wr\<lparr> end_ofs := e + desired1, queue_next := orem \<rparr>,
                           Some (PTR_QUEUE 0), assign_out buflen desired1))
               else if buflen = None
               then (FAILURE MBEDTLS_ERR_WRITER_OUT_OF_DATA, wr, buffer, buflen)
               else (SUCCESS, wr\<lparr> end_ofs := e + orem \<rparr>,
                     Some (PTR_OUT e), assign_out buflen orem))
            else (SUCCESS, wr\<lparr> end_ofs := e + desired \<rparr>,
                  Some (PTR_OUT e), assign_out buflen desired))))"

text \<open>
  \<^verbatim>\<open>mbedtls_writer_commit_partial( wr, omit )\<close>. The number of bytes the crossing commit
  copies from the queue is \<open>commit_copy_len\<close>, the value of \<^verbatim>\<open>copy_from_queue\<close> at the
  \<^verbatim>\<open>memcpy\<close>.
\<close>

definition commit_copy_len :: "'a::len word \<Rightarrow> 'a word \<Rightarrow> 'a word \<Rightarrow> 'a word" where
  "commit_copy_len to_be_committed ol queue_overlap =
     (let copy_from_queue = to_be_committed - (ol - queue_overlap)
      in if copy_from_queue > queue_overlap then queue_overlap else copy_from_queue)"

definition mbedtls_writer_commit_partial ::
  "'a::len mbedtls_writer \<Rightarrow> 'a word \<Rightarrow> ret \<times> 'a mbedtls_writer" where
  "mbedtls_writer_commit_partial wr omit =
     (if state wr \<noteq> MBEDTLS_WRITER_CONSUMING
      then (FAILURE MBEDTLS_ERR_MPS_OPERATION_UNEXPECTED, wr)
      else
        (let queue_overlap = queue_next wr;
             commit = committed wr;
             e = end_ofs wr;
             ol = out_len wr
         in if omit > e - commit
            then (FAILURE MBEDTLS_ERR_WRITER_INVALID_ARG, wr)
            else
              (let to_be_committed = e - omit;
                   wr1 = (if e > ol \<and> commit < ol \<and> to_be_committed > ol - queue_overlap
                          then wr\<lparr> out := memcpy_ptr (out wr) (unat (ol - queue_overlap))
                                              (queue wr) 0
                                              (unat (commit_copy_len to_be_committed ol
                                                       queue_overlap)) \<rparr>
                          else wr);
                   wr2 = (if to_be_committed < ol then wr1\<lparr> queue_next := 0 \<rparr> else wr1)
               in (SUCCESS, wr2\<lparr> end_ofs := to_be_committed, committed := to_be_committed \<rparr>))))"

definition mbedtls_writer_commit :: "'a::len mbedtls_writer \<Rightarrow> ret \<times> 'a mbedtls_writer" where
  "mbedtls_writer_commit wr = mbedtls_writer_commit_partial wr 0"

text \<open>
  What the consumer does with a pointer obtained from \<^verbatim>\<open>mbedtls_writer_get\<close>: it
  stores bytes through it. This is not a function of the writer; it is the
  memory write of the writer's user, needed to follow data through a cycle.
\<close>

definition consumer_write ::
  "'a::len mbedtls_writer \<Rightarrow> 'a word bufptr \<Rightarrow> byte list \<Rightarrow> 'a mbedtls_writer" where
  "consumer_write wr p bs =
     (case p of
        PTR_OUT ofs \<Rightarrow> wr\<lparr> out := memcpy_ptr (out wr) (unat ofs) (Some bs) 0 (length bs) \<rparr>
      | PTR_QUEUE ofs \<Rightarrow> wr\<lparr> queue := memcpy_ptr (queue wr) (unat ofs) (Some bs) 0 (length bs) \<rparr>)"

subsection \<open>Invariants of the writer\<close>

text \<open>
  The arithmetic invariant of a writer that was initialised by \<^verbatim>\<open>mbedtls_writer_init\<close>
  and then only used through the functions above. In consuming state it says
  that the offsets are ordered, that \<open>queue_next\<close> is the overlap of the queue
  with the tail of the outgoing data buffer (and \<open>0\<close> while \<open>end < out_len\<close>, as
  the documentation of the field in \<^verbatim>\<open>writer.h\<close> says), and that the part of the
  queue in use, \<open>queue_next + (end - out_len)\<close>, fits the queue. In providing
  state it says that the pending part of the queue fits the queue.
\<close>

definition writer_inv :: "'a::len mbedtls_writer \<Rightarrow> bool" where
  "writer_inv wr \<longleftrightarrow>
     (queue wr = None \<longrightarrow> queue_next wr = 0 \<and> queue_remaining wr = 0) \<and>
     (case state wr of
        MBEDTLS_WRITER_PROVIDING \<Rightarrow>
          unat (queue_next wr) + unat (queue_remaining wr) \<le> unat (queue_len wr)
      | MBEDTLS_WRITER_CONSUMING \<Rightarrow>
          unat (out_len wr) + unat (queue_len wr) < 2 ^ LENGTH('a) \<and>
          committed wr \<le> end_ofs wr \<and>
          queue_remaining wr = 0 \<and>
          queue_next wr \<le> out_len wr \<and>
          (end_ofs wr < out_len wr \<longrightarrow> queue_next wr = 0) \<and>
          (out_len wr < end_ofs wr \<longrightarrow>
             queue wr \<noteq> None \<and>
             unat (queue_next wr) + (unat (end_ofs wr) - unat (out_len wr))
               \<le> unat (queue_len wr)))"

text \<open>The buffers are at least as long as the lengths recorded for them.\<close>

definition writer_bufs :: "'a::len mbedtls_writer \<Rightarrow> bool" where
  "writer_bufs wr \<longleftrightarrow>
     (case queue wr of None \<Rightarrow> True | Some q \<Rightarrow> unat (queue_len wr) \<le> length q) \<and>
     (state wr = MBEDTLS_WRITER_CONSUMING \<longrightarrow>
        (case out wr of None \<Rightarrow> False | Some ob \<Rightarrow> unat (out_len wr) \<le> length ob))"

text \<open>
  The invariant of the consuming state in the words of the specification:
  \<open>committed \<le> end \<le> out_len + queue_len\<close> (the sum taken exactly); if
  \<open>end \<le> out_len\<close> then \<open>queue_next = 0\<close>; if the queue is \<^verbatim>\<open>NULL\<close> then
  \<open>end \<le> out_len\<close>.
\<close>

definition spec_consuming_invariant :: "'a::len mbedtls_writer \<Rightarrow> bool" where
  "spec_consuming_invariant wr \<longleftrightarrow>
     committed wr \<le> end_ofs wr \<and>
     unat (end_ofs wr) \<le> unat (out_len wr) + unat (queue_len wr) \<and>
     (end_ofs wr \<le> out_len wr \<longrightarrow> queue_next wr = 0) \<and>
     (queue wr = None \<longrightarrow> end_ofs wr \<le> out_len wr)"

text \<open>The same with \<open>end < out_len\<close> in the second part, as \<^verbatim>\<open>writer.h\<close> has it.\<close>

definition consuming_invariant :: "'a::len mbedtls_writer \<Rightarrow> bool" where
  "consuming_invariant wr \<longleftrightarrow>
     committed wr \<le> end_ofs wr \<and>
     unat (end_ofs wr) \<le> unat (out_len wr) + unat (queue_len wr) \<and>
     (end_ofs wr < out_len wr \<longrightarrow> queue_next wr = 0) \<and>
     (queue wr = None \<longrightarrow> end_ofs wr \<le> out_len wr)"

subsection \<open>Sequences of calls\<close>

text \<open>
  A call of one of the four operations with its arguments (\<open>'s\<close> is the size
  type): \<open>Get desired b\<close> passes a \<open>buflen\<close> pointer that is \<^verbatim>\<open>NULL\<close> iff \<open>b\<close> is
  false. \<open>writer_step\<close> is the writer after the call, whatever it returned.
\<close>

datatype 's writer_op =
    Feed "byte list" 's
  | Get 's bool
  | Commit_partial 's
  | Reclaim int

fun writer_step :: "'a::len mbedtls_writer \<Rightarrow> 'a word writer_op \<Rightarrow> 'a mbedtls_writer" where
  "writer_step wr (Feed buf buf_len) = fst (snd (mbedtls_writer_feed wr buf buf_len))"
| "writer_step wr (Get desired with_buflen) =
     fst (snd (mbedtls_writer_get wr desired None (if with_buflen then Some 0 else None)))"
| "writer_step wr (Commit_partial omit) = snd (mbedtls_writer_commit_partial wr omit)"
| "writer_step wr (Reclaim force) = fst (snd (mbedtls_writer_reclaim wr (Some 0) (Some 0) force))"

definition writer_run ::
  "'a::len mbedtls_writer \<Rightarrow> 'a word writer_op list \<Rightarrow> 'a mbedtls_writer" where
  "writer_run wr ops = foldl writer_step wr ops"

text \<open>
  A fed buffer fits when its length and the length of the queue together can be
  represented in the size type.
\<close>

fun feed_fits :: "'a::len word \<Rightarrow> 'a word writer_op \<Rightarrow> bool" where
  "feed_fits qlen (Feed buf buf_len) \<longleftrightarrow> unat buf_len + unat qlen < 2 ^ LENGTH('a)"
| "feed_fits qlen (Get desired with_buflen) \<longleftrightarrow> True"
| "feed_fits qlen (Commit_partial omit) \<longleftrightarrow> True"
| "feed_fits qlen (Reclaim force) \<longleftrightarrow> True"

section \<open>The extended writer (writer.h, writer.c)\<close>

datatype mbedtls_writer_ext_passthrough_t =
    MBEDTLS_WRITER_EXT_PASS
  | MBEDTLS_WRITER_EXT_HOLD
  | MBEDTLS_WRITER_EXT_BLOCK

definition MBEDTLS_WRITER_MAX_GROUPS :: "8 word" where
  "MBEDTLS_WRITER_MAX_GROUPS = 5"

text \<open>
  Modelled from the spec: \<^verbatim>\<open>MBEDTLS_MPS_SIZE_MAX\<close> and \<^verbatim>\<open>MBEDTLS_MPS_SIZE_UNKNOWN\<close> are
  macros of \<^verbatim>\<open>common.h\<close>, which is not among the sources; the specification says
  that the latter is a reserved bit pattern, the maximal value, and that
  \<^verbatim>\<open>mbedtls_writer_check_done\<close> accepts a total size equal to the former as
  "unknown". Both are the maximal value of the size type.
\<close>

definition MBEDTLS_MPS_SIZE_MAX :: "'a::len word" where
  "MBEDTLS_MPS_SIZE_MAX = - 1"

definition MBEDTLS_MPS_SIZE_UNKNOWN :: "'a::len word" where
  "MBEDTLS_MPS_SIZE_UNKNOWN = - 1"

text \<open>
  The extended writer refers to its writer by a pointer, and Layer 3 holds a
  second pointer to the same writer. Writers therefore live in a store, a map
  from addresses to writers; the address \<open>0\<close> is \<^verbatim>\<open>NULL\<close>.
\<close>

type_synonym 'a writer_heap = "nat \<Rightarrow> 'a mbedtls_writer"

definition NULL :: nat where
  "NULL = 0"

text \<open>\<^verbatim>\<open>struct mbedtls_writer_ext\<close>; the field \<^verbatim>\<open>wr\<close> is \<open>ext_wr\<close>.\<close>

record (overloaded) ('a::len) mbedtls_writer_ext =
  ext_wr :: nat
  grp_end :: "'a word list"
  ofs_fetch :: "'a word"
  ofs_commit :: "'a word"
  cur_grp :: "8 word"
  passthrough :: mbedtls_writer_ext_passthrough_t

definition mbedtls_writer_init_ext :: "'a::len word \<Rightarrow> 'a mbedtls_writer_ext" where
  "mbedtls_writer_init_ext sz =
     \<lparr> ext_wr = NULL, grp_end = [sz, 0, 0, 0, 0], ofs_fetch = 0, ofs_commit = 0,
       cur_grp = 0, passthrough = MBEDTLS_WRITER_EXT_PASS \<rparr>"

definition mbedtls_writer_free_ext :: "'a::len mbedtls_writer_ext" where
  "mbedtls_writer_free_ext = mbedtls_writer_init_ext 0"

text \<open>
  \<^verbatim>\<open>mbedtls_writer_get_ext\<close>: the result is the return code, the extended writer,
  the store of writers, and the cells \<open>buffer\<close> and \<open>buflen\<close> after the call.
\<close>

definition mbedtls_writer_get_ext ::
  "'a::len mbedtls_writer_ext \<Rightarrow> 'a writer_heap \<Rightarrow> 'a word \<Rightarrow> 'a word bufptr option \<Rightarrow>
   'a word option \<Rightarrow>
   ret \<times> 'a mbedtls_writer_ext \<times> 'a writer_heap \<times> 'a word bufptr option \<times> 'a word option" where
  "mbedtls_writer_get_ext wr_ext h desired buffer buflen =
     (if ext_wr wr_ext = NULL
      then (FAILURE MBEDTLS_ERR_MPS_OPERATION_UNEXPECTED, wr_ext, h, buffer, buflen)
      else if passthrough wr_ext = MBEDTLS_WRITER_EXT_BLOCK
      then (FAILURE MBEDTLS_ERR_MPS_OPERATION_UNEXPECTED, wr_ext, h, buffer, buflen)
      else
        (let logic_avail = grp_end wr_ext ! unat (cur_grp wr_ext) - ofs_fetch wr_ext in
         if desired > logic_avail
         then (FAILURE MBEDTLS_ERR_WRITER_BOUNDS_VIOLATION, wr_ext, h, buffer, buflen)
         else
           (case mbedtls_writer_get (h (ext_wr wr_ext)) desired buffer buflen of
              (r, w', buffer', buflen') \<Rightarrow>
                (let h' = h(ext_wr wr_ext := w') in
                 if r \<noteq> SUCCESS then (r, wr_ext, h', buffer', buflen')
                 else
                   (let desired1 = (case buflen' of None \<Rightarrow> desired | Some v \<Rightarrow> v)
                    in (SUCCESS, wr_ext\<lparr> ofs_fetch := ofs_fetch wr_ext + desired1 \<rparr>,
                        h', buffer', buflen'))))))"

definition mbedtls_writer_commit_partial_ext ::
  "'a::len mbedtls_writer_ext \<Rightarrow> 'a writer_heap \<Rightarrow> 'a word \<Rightarrow>
   ret \<times> 'a mbedtls_writer_ext \<times> 'a writer_heap" where
  "mbedtls_writer_commit_partial_ext wr_ext h omit =
     (if ext_wr wr_ext = NULL
      then (FAILURE MBEDTLS_ERR_MPS_OPERATION_UNEXPECTED, wr_ext, h)
      else if passthrough wr_ext = MBEDTLS_WRITER_EXT_BLOCK
      then (FAILURE MBEDTLS_ERR_MPS_OPERATION_UNEXPECTED, wr_ext, h)
      else
        (let fetch0 = ofs_fetch wr_ext; commit0 = ofs_commit wr_ext in
         if omit > fetch0 - commit0
         then (FAILURE MBEDTLS_ERR_WRITER_BOUNDS_VIOLATION, wr_ext, h)
         else
           (let commit1 = fetch0 - omit;
                (r, w') = (if passthrough wr_ext = MBEDTLS_WRITER_EXT_PASS
                           then mbedtls_writer_commit_partial (h (ext_wr wr_ext)) omit
                           else (SUCCESS, h (ext_wr wr_ext)));
                h' = h(ext_wr wr_ext := w')
            in if r \<noteq> SUCCESS then (r, wr_ext, h')
               else
                 (let fetch1 = (if passthrough wr_ext = MBEDTLS_WRITER_EXT_PASS
                                then commit1 else fetch0);
                      pass1 = (if passthrough wr_ext = MBEDTLS_WRITER_EXT_HOLD \<and> omit > 0
                               then MBEDTLS_WRITER_EXT_BLOCK else passthrough wr_ext)
                  in (SUCCESS,
                      wr_ext\<lparr> passthrough := pass1, ofs_fetch := fetch1, ofs_commit := commit1 \<rparr>,
                      h')))))"

definition mbedtls_writer_commit_ext ::
  "'a::len mbedtls_writer_ext \<Rightarrow> 'a writer_heap \<Rightarrow>
   ret \<times> 'a mbedtls_writer_ext \<times> 'a writer_heap" where
  "mbedtls_writer_commit_ext wr_ext h = mbedtls_writer_commit_partial_ext wr_ext h 0"

definition mbedtls_writer_group_open ::
  "'a::len mbedtls_writer_ext \<Rightarrow> 'a word \<Rightarrow> ret \<times> 'a mbedtls_writer_ext" where
  "mbedtls_writer_group_open wr_ext group_size =
     (let logic_avail = grp_end wr_ext ! unat (cur_grp wr_ext) - ofs_fetch wr_ext in
      if cur_grp wr_ext \<ge> MBEDTLS_WRITER_MAX_GROUPS - 1
      then (FAILURE MBEDTLS_ERR_WRITER_TOO_MANY_GROUPS, wr_ext)
      else if logic_avail < group_size
      then (FAILURE MBEDTLS_ERR_WRITER_BOUNDS_VIOLATION, wr_ext)
      else
        (SUCCESS,
         wr_ext\<lparr> cur_grp := cur_grp wr_ext + 1,
                 grp_end := (grp_end wr_ext)
                   [unat (cur_grp wr_ext + 1) := ofs_fetch wr_ext + group_size] \<rparr>))"

definition mbedtls_writer_group_close ::
  "'a::len mbedtls_writer_ext \<Rightarrow> ret \<times> 'a mbedtls_writer_ext" where
  "mbedtls_writer_group_close wr_ext =
     (let logic_avail = grp_end wr_ext ! unat (cur_grp wr_ext) - ofs_fetch wr_ext in
      if logic_avail \<noteq> 0
      then (FAILURE MBEDTLS_ERR_WRITER_BOUNDS_VIOLATION, wr_ext)
      else (SUCCESS,
            if cur_grp wr_ext > 0 then wr_ext\<lparr> cur_grp := cur_grp wr_ext - 1 \<rparr> else wr_ext))"

definition mbedtls_writer_attach ::
  "'a::len mbedtls_writer_ext \<Rightarrow> nat \<Rightarrow> mbedtls_writer_ext_passthrough_t \<Rightarrow>
   ret \<times> 'a mbedtls_writer_ext" where
  "mbedtls_writer_attach wr_ext wr pass =
     (if ext_wr wr_ext \<noteq> NULL
      then (FAILURE MBEDTLS_ERR_MPS_OPERATION_UNEXPECTED, wr_ext)
      else (SUCCESS, wr_ext\<lparr> passthrough := pass, ext_wr := wr \<rparr>))"

text \<open>
  \<^verbatim>\<open>mbedtls_writer_detach\<close>: the result is the return code, the extended writer and
  the cells \<^verbatim>\<open>committed\<close> and \<^verbatim>\<open>uncommitted\<close> after the call.
\<close>

definition mbedtls_writer_detach ::
  "'a::len mbedtls_writer_ext \<Rightarrow> 'a word option \<Rightarrow> 'a word option \<Rightarrow>
   ret \<times> 'a mbedtls_writer_ext \<times> 'a word option \<times> 'a word option" where
  "mbedtls_writer_detach wr_ext committed_p uncommitted_p =
     (if ext_wr wr_ext = NULL
      then (FAILURE MBEDTLS_ERR_MPS_OPERATION_UNEXPECTED, wr_ext, committed_p, uncommitted_p)
      else
        (SUCCESS,
         wr_ext\<lparr> ofs_fetch := ofs_commit wr_ext, ext_wr := NULL \<rparr>,
         assign_out committed_p (ofs_commit wr_ext),
         assign_out uncommitted_p (ofs_fetch wr_ext - ofs_commit wr_ext)))"

definition mbedtls_writer_check_done :: "'a::len mbedtls_writer_ext \<Rightarrow> ret" where
  "mbedtls_writer_check_done wr_ext =
     (if cur_grp wr_ext > 0
      then FAILURE MBEDTLS_ERR_WRITER_BOUNDS_VIOLATION
      else if grp_end wr_ext ! 0 \<noteq> MBEDTLS_MPS_SIZE_MAX \<and> ofs_commit wr_ext \<noteq> grp_end wr_ext ! 0
      then FAILURE MBEDTLS_ERR_WRITER_BOUNDS_VIOLATION
      else SUCCESS)"

subsection \<open>Sequences of calls on an extended writer\<close>

text \<open>
  The calls a user of an attached extended writer can make; \<open>Get_ext desired b\<close>
  passes a \<open>buflen\<close> pointer that is \<^verbatim>\<open>NULL\<close> iff \<open>b\<close> is false. \<open>ext_step\<close> gives the
  return code and the state after the call, \<open>ext_trace\<close> the list of calls with
  their return codes and the states they left.
\<close>

datatype 's ext_op =
    Get_ext 's bool
  | Commit_partial_ext 's
  | Commit_ext
  | Group_open 's
  | Group_close

fun ext_step ::
  "'a::len mbedtls_writer_ext \<times> 'a writer_heap \<Rightarrow> 'a word ext_op \<Rightarrow>
   ret \<times> 'a mbedtls_writer_ext \<times> 'a writer_heap" where
  "ext_step (x, h) (Get_ext desired with_buflen) =
     (case mbedtls_writer_get_ext x h desired None (if with_buflen then Some 0 else None) of
        (r, x', h', _, _) \<Rightarrow> (r, x', h'))"
| "ext_step (x, h) (Commit_partial_ext omit) = mbedtls_writer_commit_partial_ext x h omit"
| "ext_step (x, h) Commit_ext = mbedtls_writer_commit_ext x h"
| "ext_step (x, h) (Group_open group_size) =
     (case mbedtls_writer_group_open x group_size of (r, x') \<Rightarrow> (r, x', h))"
| "ext_step (x, h) Group_close =
     (case mbedtls_writer_group_close x of (r, x') \<Rightarrow> (r, x', h))"

fun ext_trace ::
  "'a::len mbedtls_writer_ext \<times> 'a writer_heap \<Rightarrow> 'a word ext_op list \<Rightarrow>
   ('a word ext_op \<times> ret \<times> 'a mbedtls_writer_ext \<times> 'a writer_heap) list" where
  "ext_trace s [] = []"
| "ext_trace s (op # ops) =
     (let (r, s') = ext_step s op in (op, r, s') # ext_trace s' ops)"

text \<open>A call in a trace that is a successful partial commit with \<open>omit > 0\<close>.\<close>

fun partial_commit_ok ::
  "'a::len word ext_op \<times> ret \<times> 'a mbedtls_writer_ext \<times> 'a writer_heap \<Rightarrow> bool" where
  "partial_commit_ok (Commit_partial_ext omit, r, s) \<longleftrightarrow> omit > 0 \<and> r = SUCCESS"
| "partial_commit_ok (Get_ext desired with_buflen, r, s) \<longleftrightarrow> False"
| "partial_commit_ok (Commit_ext, r, s) \<longleftrightarrow> False"
| "partial_commit_ok (Group_open group_size, r, s) \<longleftrightarrow> False"
| "partial_commit_ok (Group_close, r, s) \<longleftrightarrow> False"

text \<open>A call in a trace that fetches or commits.\<close>

fun get_or_commit :: "'s ext_op \<Rightarrow> bool" where
  "get_or_commit (Get_ext desired with_buflen) \<longleftrightarrow> True"
| "get_or_commit (Commit_partial_ext omit) \<longleftrightarrow> True"
| "get_or_commit Commit_ext \<longleftrightarrow> True"
| "get_or_commit (Group_open group_size) \<longleftrightarrow> False"
| "get_or_commit Group_close \<longleftrightarrow> False"

text \<open>The extended writer and the store after a sequence of calls.\<close>

definition ext_run ::
  "'a::len mbedtls_writer_ext \<times> 'a writer_heap \<Rightarrow> 'a word ext_op list \<Rightarrow>
   'a mbedtls_writer_ext \<times> 'a writer_heap" where
  "ext_run s ops = foldl (\<lambda>s op. snd (ext_step s op)) s ops"

text \<open>
  The invariant of an extended writer that holds back or blocks commits, attached
  to the writer at address \<open>p\<close>: the writer satisfies its own invariant and is in
  consuming state, the offsets of the extended writer are ordered, and what was
  fetched through the extended writer lies, together with at least one byte
  fetched before it was attached, between \<open>committed\<close> and \<open>end\<close> of the writer.
\<close>

definition hold_inv :: "nat \<Rightarrow> 'a::len mbedtls_writer_ext \<Rightarrow> 'a writer_heap \<Rightarrow> bool" where
  "hold_inv p x h \<longleftrightarrow>
     ext_wr x = p \<and> p \<noteq> NULL \<and> passthrough x \<noteq> MBEDTLS_WRITER_EXT_PASS \<and>
     writer_inv (h p) \<and> state (h p) = MBEDTLS_WRITER_CONSUMING \<and>
     unat (ofs_commit x) \<le> unat (ofs_fetch x) \<and>
     unat (ofs_fetch x) + unat (committed (h p)) + 1 \<le> unat (end_ofs (h p))"

section \<open>Layer 3 (layer3.c)\<close>

text \<open>
  Modelled from the spec: the types of \<^verbatim>\<open>layer3.h\<close> and \<^verbatim>\<open>common.h\<close> are not among
  the sources. The message types, the states of a handshake message and the two
  transport modes are the ones the specification and \<^verbatim>\<open>layer3.c\<close> name; the
  structures have the fields \<^verbatim>\<open>layer3.c\<close> uses, with the name of the structure in
  front where two structures share a field name. The file is modelled with both
  protocols compiled in and with state validation and assertions enabled.
\<close>

datatype mbedtls_mps_msg_type_t =
    MBEDTLS_MPS_MSG_NONE
  | MBEDTLS_MPS_MSG_APP
  | MBEDTLS_MPS_MSG_HS
  | MBEDTLS_MPS_MSG_ALERT
  | MBEDTLS_MPS_MSG_CCS
  | MBEDTLS_MPS_MSG_ACK

datatype mps_l3_hs_state = MPS_L3_HS_NONE | MPS_L3_HS_ACTIVE | MPS_L3_HS_PAUSED

datatype mbedtls_mps_transport_type = MBEDTLS_MPS_MODE_STREAM | MBEDTLS_MPS_MODE_DATAGRAM

definition MBEDTLS_MPS_IS_TLS :: "mbedtls_mps_transport_type \<Rightarrow> bool" where
  "MBEDTLS_MPS_IS_TLS mode \<longleftrightarrow> mode = MBEDTLS_MPS_MODE_STREAM"

definition MBEDTLS_MPS_IS_DTLS :: "mbedtls_mps_transport_type \<Rightarrow> bool" where
  "MBEDTLS_MPS_IS_DTLS mode \<longleftrightarrow> mode = MBEDTLS_MPS_MODE_DATAGRAM"

type_synonym mbedtls_mps_epoch_id = int

definition MPS_TLS_HS_HDR_SIZE :: "'a::len word" where
  "MPS_TLS_HS_HDR_SIZE = 4"

definition MPS_TLS_ALERT_SIZE :: "'a::len word" where
  "MPS_TLS_ALERT_SIZE = 2"

definition MPS_TLS_ALERT_LEVEL_FATAL :: byte where
  "MPS_TLS_ALERT_LEVEL_FATAL = 1"

definition MPS_TLS_ALERT_LEVEL_WARNING :: byte where
  "MPS_TLS_ALERT_LEVEL_WARNING = 2"

definition MPS_TLS_CCS_SIZE :: "'a::len word" where
  "MPS_TLS_CCS_SIZE = 1"

definition MPS_TLS_CCS_VALUE :: byte where
  "MPS_TLS_CCS_VALUE = 1"

definition MPS_DTLS_HS_HDR_SIZE :: "'a::len word" where
  "MPS_DTLS_HS_HDR_SIZE = 13"

subsection \<open>The collaborators outside the sources\<close>

text \<open>
  Layer 2, the reader and the extended reader are not among the sources; Layer 3
  is modelled over any implementation of them. \<open>'l2\<close> is the state of Layer 2
  together with the readers it owns, \<open>'rd\<close> a pointer to a reader, \<open>'rx\<close> an
  extended reader. Each function takes the state and returns its return code
  and the state (and what it stores through its output parameters); the
  functions of Layer 2 that hand out and take back writers also take and return
  the store of writers. \<^verbatim>\<open>mbedtls_reader_get\<close> is only called with
  \<^verbatim>\<open>buflen == NULL\<close>; it returns the bytes at the pointer it hands out.
\<close>

record 'rd mps_l2_in =
  l2_in_type :: mbedtls_mps_msg_type_t
  l2_in_epoch :: mbedtls_mps_epoch_id
  l2_in_rd :: 'rd

record (overloaded) ('l2, 'rd, 'rx, 'a::len) mps_l3_deps =
  mps_l2_read_start :: "'l2 \<Rightarrow> ret \<times> 'rd mps_l2_in \<times> 'l2"
  mps_l2_read_done :: "'l2 \<Rightarrow> ret \<times> 'l2"
  mbedtls_reader_get :: "'rd \<Rightarrow> 'a word \<Rightarrow> 'l2 \<Rightarrow> ret \<times> byte list \<times> 'l2"
  mbedtls_reader_commit :: "'rd \<Rightarrow> 'l2 \<Rightarrow> ret \<times> 'l2"
  mbedtls_reader_init_ext :: "32 word \<Rightarrow> 'rx"
  mbedtls_reader_attach :: "'rx \<Rightarrow> 'rd \<Rightarrow> ret \<times> 'rx"
  mps_l2_write_start ::
    "mbedtls_mps_msg_type_t \<Rightarrow> mbedtls_mps_epoch_id \<Rightarrow> 'l2 \<Rightarrow> 'a writer_heap \<Rightarrow>
     ret \<times> nat \<times> 'l2 \<times> 'a writer_heap"
  mps_l2_write_done :: "'l2 \<Rightarrow> 'a writer_heap \<Rightarrow> ret \<times> 'l2 \<times> 'a writer_heap"
  mps_l2_write_flush :: "'l2 \<Rightarrow> 'a writer_heap \<Rightarrow> ret \<times> 'l2 \<times> 'a writer_heap"

subsection \<open>The state of Layer 3\<close>

record mps_l3_alert_in_internal =
  alert_level :: byte
  alert_type :: byte

text \<open>
  The lengths parsed from an incoming handshake header are 32-bit, as the comment
  at the check in \<^verbatim>\<open>l3_parse_hs_header_dtls\<close> says.
\<close>

record 'rx mps_l3_hs_in_internal =
  hs_in_state :: mps_l3_hs_state
  hs_in_epoch :: mbedtls_mps_epoch_id
  hs_in_type :: byte
  hs_in_len :: "32 word"
  hs_in_seq_nr :: "16 word"
  hs_in_frag_offset :: "32 word"
  hs_in_frag_len :: "32 word"
  hs_in_rd_ext :: 'rx

record ('rd, 'rx) mps_l3_in =
  in_state :: mbedtls_mps_msg_type_t
  in_raw_in :: "'rd option"
  in_epoch :: mbedtls_mps_epoch_id
  in_hs :: "'rx mps_l3_hs_in_internal"
  in_alert :: mps_l3_alert_in_internal

text \<open>
  The lengths of an outgoing handshake message are of the size type; \<open>hdr\<close> is
  the pointer to the reserved header bytes, into the buffers of the writer
  \<open>raw_out\<close> points to.
\<close>

record (overloaded) ('a::len) mps_l3_hs_out_internal =
  hs_out_state :: mps_l3_hs_state
  hs_out_epoch :: mbedtls_mps_epoch_id
  hs_out_type :: byte
  hs_out_len :: "'a word"
  hs_out_seq_nr :: "16 word"
  hs_out_frag_offset :: "'a word"
  hs_out_frag_len :: "'a word"
  hs_out_hdr :: "'a word bufptr option"
  hs_out_hdr_len :: "'a word"
  hs_out_wr_ext :: "'a mbedtls_writer_ext"

record (overloaded) ('a::len) mps_l3_out =
  out_state :: mbedtls_mps_msg_type_t
  out_raw_out :: nat
  out_clearing :: "8 word"
  out_hs :: "'a mps_l3_hs_out_internal"

record (overloaded) ('rd, 'rx, 'a::len) mps_l3 =
  conf_mode :: mbedtls_mps_transport_type
  io_in :: "('rd, 'rx) mps_l3_in"
  io_out :: "'a mps_l3_out"

text \<open>The parameters of \<^verbatim>\<open>mps_l3_write_handshake\<close> (\<^verbatim>\<open>mps_l3_handshake_out\<close>).\<close>

record (overloaded) ('a::len) mps_l3_handshake_out =
  hso_epoch :: mbedtls_mps_epoch_id
  hso_type :: byte
  hso_len :: "'a word"
  hso_seq_nr :: "16 word"
  hso_frag_offset :: "'a word"
  hso_frag_len :: "'a word"

subsection \<open>Reading and writing integers in network byte order\<close>

text \<open>
  Modelled from the spec: the macros \<^verbatim>\<open>MPS_READ_UINT24_BE\<close>, \<^verbatim>\<open>MPS_READ_UINT16_BE\<close>,
  \<^verbatim>\<open>MPS_WRITE_UINT24_BE\<close> and \<^verbatim>\<open>MPS_WRITE_UINT16_BE\<close> are not among the sources; the
  wire formats of the specification are big-endian.
\<close>

definition MPS_READ_UINT24_BE :: "byte list \<Rightarrow> nat \<Rightarrow> 32 word" where
  "MPS_READ_UINT24_BE src i =
     push_bit 16 (ucast (src ! i)) + push_bit 8 (ucast (src ! (i + 1))) + ucast (src ! (i + 2))"

definition MPS_READ_UINT16_BE :: "byte list \<Rightarrow> nat \<Rightarrow> 16 word" where
  "MPS_READ_UINT16_BE src i = push_bit 8 (ucast (src ! i)) + ucast (src ! (i + 1))"

definition MPS_WRITE_UINT24_BE :: "'a::len word \<Rightarrow> byte list" where
  "MPS_WRITE_UINT24_BE v = [ucast (drop_bit 16 v), ucast (drop_bit 8 v), ucast v]"

definition MPS_WRITE_UINT16_BE :: "16 word \<Rightarrow> byte list" where
  "MPS_WRITE_UINT16_BE v = [ucast (drop_bit 8 v), ucast v]"

text \<open>\<^verbatim>\<open>p + k\<close> for a pointer into a buffer of a writer.\<close>

definition ptr_add :: "'a::len word bufptr \<Rightarrow> 'a word \<Rightarrow> 'a word bufptr" where
  "ptr_add p k = (case p of PTR_OUT ofs \<Rightarrow> PTR_OUT (ofs + k) | PTR_QUEUE ofs \<Rightarrow> PTR_QUEUE (ofs + k))"

subsection \<open>Parsing incoming messages\<close>

definition l3_parse_alert ::
  "('l2, 'rd, 'rx, 'a::len) mps_l3_deps \<Rightarrow> 'rd \<Rightarrow> mps_l3_alert_in_internal \<Rightarrow> 'l2 \<Rightarrow>
   ret \<times> mps_l3_alert_in_internal \<times> 'l2" where
  "l3_parse_alert deps rd alert l2 =
     (case mbedtls_reader_get deps rd MPS_TLS_ALERT_SIZE l2 of
        (res, tmp, l2a) \<Rightarrow>
          if res \<noteq> SUCCESS then (res, alert, l2a)
          else
            (let alert1 = alert\<lparr> alert_level := tmp ! 0, alert_type := tmp ! 1 \<rparr> in
             case mbedtls_reader_commit deps rd l2a of
               (res2, l2b) \<Rightarrow>
                 if res2 \<noteq> SUCCESS then (res2, alert1, l2b)
                 else if alert_level alert1 \<noteq> MPS_TLS_ALERT_LEVEL_FATAL \<and>
                         alert_level alert1 \<noteq> MPS_TLS_ALERT_LEVEL_WARNING
                 then (FAILURE MBEDTLS_ERR_MPS_INVALID_CONTENT, alert1, l2b)
                 else (SUCCESS, alert1, l2b)))"

definition l3_parse_ccs ::
  "('l2, 'rd, 'rx, 'a::len) mps_l3_deps \<Rightarrow> 'rd \<Rightarrow> 'l2 \<Rightarrow> ret \<times> 'l2" where
  "l3_parse_ccs deps rd l2 =
     (case mbedtls_reader_get deps rd MPS_TLS_CCS_SIZE l2 of
        (res, tmp, l2a) \<Rightarrow>
          if res \<noteq> SUCCESS then (res, l2a)
          else
            (let val = tmp ! 0 in
             case mbedtls_reader_commit deps rd l2a of
               (res2, l2b) \<Rightarrow>
                 if res2 \<noteq> SUCCESS then (res2, l2b)
                 else if val \<noteq> MPS_TLS_CCS_VALUE
                 then (FAILURE MBEDTLS_ERR_MPS_INVALID_CONTENT, l2b)
                 else (SUCCESS, l2b)))"

definition l3_parse_hs_header_tls ::
  "('l2, 'rd, 'rx, 'a::len) mps_l3_deps \<Rightarrow> 'rd \<Rightarrow> 'rx mps_l3_hs_in_internal \<Rightarrow> 'l2 \<Rightarrow>
   ret \<times> 'rx mps_l3_hs_in_internal \<times> 'l2" where
  "l3_parse_hs_header_tls deps rd hs l2 =
     (case mbedtls_reader_get deps rd 4 l2 of
        (res, tmp, l2a) \<Rightarrow>
          if res \<noteq> SUCCESS then (res, hs, l2a)
          else
            (let hs1 = hs\<lparr> hs_in_type := tmp ! 0, hs_in_len := MPS_READ_UINT24_BE tmp 1 \<rparr> in
             case mbedtls_reader_commit deps rd l2a of
               (res2, l2b) \<Rightarrow>
                 if res2 \<noteq> SUCCESS then (res2, hs1, l2b) else (SUCCESS, hs1, l2b)))"

definition l3_parse_hs_header_dtls ::
  "('l2, 'rd, 'rx, 'a::len) mps_l3_deps \<Rightarrow> 'rd \<Rightarrow> 'rx mps_l3_hs_in_internal \<Rightarrow> 'l2 \<Rightarrow>
   ret \<times> 'rx mps_l3_hs_in_internal \<times> 'l2" where
  "l3_parse_hs_header_dtls deps rd hs l2 =
     (case mbedtls_reader_get deps rd 13 l2 of
        (res, tmp, l2a) \<Rightarrow>
          if res \<noteq> SUCCESS then (res, hs, l2a)
          else
            (let hs1 = hs\<lparr> hs_in_type := tmp ! 0,
                           hs_in_len := MPS_READ_UINT24_BE tmp 1,
                           hs_in_seq_nr := MPS_READ_UINT16_BE tmp 4,
                           hs_in_frag_offset := MPS_READ_UINT24_BE tmp 7,
                           hs_in_frag_len := MPS_READ_UINT24_BE tmp 10 \<rparr> in
             case mbedtls_reader_commit deps rd l2a of
               (res2, l2b) \<Rightarrow>
                 if res2 \<noteq> SUCCESS then (res2, hs1, l2b)
                 else if hs_in_frag_offset hs1 + hs_in_frag_len hs1 > hs_in_len hs1
                 then (FAILURE MBEDTLS_ERR_MPS_INVALID_CONTENT, hs1, l2b)
                 else (SUCCESS, hs1, l2b)))"

definition l3_parse_hs_header ::
  "('l2, 'rd, 'rx, 'a::len) mps_l3_deps \<Rightarrow> mbedtls_mps_transport_type \<Rightarrow> 'rd \<Rightarrow>
   'rx mps_l3_hs_in_internal \<Rightarrow> 'l2 \<Rightarrow> ret \<times> 'rx mps_l3_hs_in_internal \<times> 'l2" where
  "l3_parse_hs_header deps mode rd hs l2 =
     (if MBEDTLS_MPS_IS_TLS mode then l3_parse_hs_header_tls deps rd hs l2
      else if MBEDTLS_MPS_IS_DTLS mode then l3_parse_hs_header_dtls deps rd hs l2
      else (FAILURE MBEDTLS_ERR_MPS_INTERNAL_ERROR, hs, l2))"

subsection \<open>Reading\<close>

text \<open>
  The end of \<^verbatim>\<open>mps_l3_read\<close>, after the \<^verbatim>\<open>switch\<close>: the message is open, and its type
  is returned.
\<close>

definition mps_l3_read_finish ::
  "('rd, 'rx, 'a::len) mps_l3 \<Rightarrow> 'rd mps_l2_in \<Rightarrow> 'l2 \<Rightarrow>
   (mps_err + mbedtls_mps_msg_type_t) \<times> ('rd, 'rx, 'a) mps_l3 \<times> 'l2" where
  "mps_l3_read_finish l3 inp l2 =
     (Inr (l2_in_type inp),
      l3\<lparr> io_in := (io_in l3)\<lparr> in_raw_in := Some (l2_in_rd inp),
                               in_epoch := l2_in_epoch inp,
                               in_state := l2_in_type inp \<rparr> \<rparr>,
      l2)"

text \<open>
  What \<^verbatim>\<open>mps_l3_read\<close> does when the reader ran out of data while an alert or a
  handshake header was fetched: fatal for DTLS; for TLS the record is given
  back to Layer 2 and the caller is asked to retry. \<open>continue\<close> is the rest of
  the function, reached when the mode is neither.
\<close>

definition mps_l3_read_out_of_data ::
  "('l2, 'rd, 'rx, 'a::len) mps_l3_deps \<Rightarrow> ('rd, 'rx, 'a) mps_l3 \<Rightarrow> 'l2 \<Rightarrow>
   ((mps_err + mbedtls_mps_msg_type_t) \<times> ('rd, 'rx, 'a) mps_l3 \<times> 'l2) \<Rightarrow>
   (mps_err + mbedtls_mps_msg_type_t) \<times> ('rd, 'rx, 'a) mps_l3 \<times> 'l2" where
  "mps_l3_read_out_of_data deps l3 l2 continue =
     (if MBEDTLS_MPS_IS_DTLS (conf_mode l3)
      then (Inl MBEDTLS_ERR_MPS_INVALID_CONTENT, l3, l2)
      else if MBEDTLS_MPS_IS_TLS (conf_mode l3)
      then
        (case mps_l2_read_done deps l2 of
           (res, l2a) \<Rightarrow>
             (case res of
                FAILURE e \<Rightarrow> (Inl e, l3, l2a)
              | SUCCESS \<Rightarrow> (Inl MBEDTLS_ERR_MPS_RETRY, l3, l2a)))
      else continue)"

text \<open>The arm \<^verbatim>\<open>case MBEDTLS_MPS_MSG_HS\<close> of \<^verbatim>\<open>mps_l3_read\<close>, from the attach on.\<close>

definition mps_l3_read_hs_attach ::
  "('l2, 'rd, 'rx, 'a::len) mps_l3_deps \<Rightarrow> ('rd, 'rx, 'a) mps_l3 \<Rightarrow> 'rd mps_l2_in \<Rightarrow> 'l2 \<Rightarrow>
   (mps_err + mbedtls_mps_msg_type_t) \<times> ('rd, 'rx, 'a) mps_l3 \<times> 'l2" where
  "mps_l3_read_hs_attach deps l3 inp l2 =
     (case mbedtls_reader_attach deps (hs_in_rd_ext (in_hs (io_in l3))) (l2_in_rd inp) of
        (res, rx) \<Rightarrow>
          (let l3a = l3\<lparr> io_in := (io_in l3)\<lparr> in_hs := (in_hs (io_in l3))\<lparr> hs_in_rd_ext := rx \<rparr> \<rparr> \<rparr>
           in case res of
                FAILURE e \<Rightarrow> (Inl e, l3a, l2)
              | SUCCESS \<Rightarrow>
                  mps_l3_read_finish
                    (l3a\<lparr> io_in := (io_in l3a)\<lparr> in_hs := (in_hs (io_in l3a))
                             \<lparr> hs_in_epoch := l2_in_epoch inp,
                               hs_in_state := MPS_L3_HS_ACTIVE \<rparr> \<rparr> \<rparr>)
                    inp l2))"

text \<open>The arm \<^verbatim>\<open>case MBEDTLS_MPS_MSG_HS\<close> of \<^verbatim>\<open>mps_l3_read\<close>.\<close>

definition mps_l3_read_hs ::
  "('l2, 'rd, 'rx, 'a::len) mps_l3_deps \<Rightarrow> ('rd, 'rx, 'a) mps_l3 \<Rightarrow> 'rd mps_l2_in \<Rightarrow> 'l2 \<Rightarrow>
   (mps_err + mbedtls_mps_msg_type_t) \<times> ('rd, 'rx, 'a) mps_l3 \<times> 'l2" where
  "mps_l3_read_hs deps l3 inp l2 =
     (case hs_in_state (in_hs (io_in l3)) of
        MPS_L3_HS_NONE \<Rightarrow>
          (case l3_parse_hs_header deps (conf_mode l3) (l2_in_rd inp) (in_hs (io_in l3)) l2 of
             (res, hs1, l2a) \<Rightarrow>
               (let l3a = l3\<lparr> io_in := (io_in l3)\<lparr> in_hs := hs1 \<rparr> \<rparr>;
                    hs2 = (if MBEDTLS_MPS_IS_TLS (conf_mode l3)
                           then hs1\<lparr> hs_in_rd_ext := mbedtls_reader_init_ext deps (hs_in_len hs1) \<rparr>
                           else hs1);
                    hs3 = (if MBEDTLS_MPS_IS_DTLS (conf_mode l3)
                           then hs2\<lparr> hs_in_rd_ext :=
                                        mbedtls_reader_init_ext deps (hs_in_frag_len hs2) \<rparr>
                           else hs2);
                    setup = mps_l3_read_hs_attach deps
                              (l3\<lparr> io_in := (io_in l3)\<lparr> in_hs := hs3 \<rparr> \<rparr>) inp l2a
                in case res of
                     FAILURE e \<Rightarrow>
                       if e = MBEDTLS_ERR_READER_OUT_OF_DATA
                       then mps_l3_read_out_of_data deps l3a l2a setup
                       else (Inl e, l3a, l2a)
                   | SUCCESS \<Rightarrow> setup))
      | MPS_L3_HS_PAUSED \<Rightarrow>
          if hs_in_epoch (in_hs (io_in l3)) \<noteq> l2_in_epoch inp
          then (Inl MBEDTLS_ERR_MPS_INTERNAL_ERROR, l3, l2)
          else mps_l3_read_hs_attach deps l3 inp l2
      | MPS_L3_HS_ACTIVE \<Rightarrow> (Inl MBEDTLS_ERR_MPS_INTERNAL_ERROR, l3, l2))"

text \<open>
  \<^verbatim>\<open>mps_l3_read\<close>: the result is the error or the type of the message that is now
  open, Layer 3 and Layer 2.
\<close>

definition mps_l3_read ::
  "('l2, 'rd, 'rx, 'a::len) mps_l3_deps \<Rightarrow> ('rd, 'rx, 'a) mps_l3 \<Rightarrow> 'l2 \<Rightarrow>
   (mps_err + mbedtls_mps_msg_type_t) \<times> ('rd, 'rx, 'a) mps_l3 \<times> 'l2" where
  "mps_l3_read deps l3 l2 =
     (if in_state (io_in l3) \<noteq> MBEDTLS_MPS_MSG_NONE
      then (Inl MBEDTLS_ERR_MPS_OPERATION_UNEXPECTED, l3, l2)
      else
        (case mps_l2_read_start deps l2 of
           (res, inp, l2a) \<Rightarrow>
             (case res of
                FAILURE e \<Rightarrow> (Inl e, l3, l2a)
              | SUCCESS \<Rightarrow>
                  (case l2_in_type inp of
                     MBEDTLS_MPS_MSG_APP \<Rightarrow> mps_l3_read_finish l3 inp l2a
                   | MBEDTLS_MPS_MSG_ALERT \<Rightarrow>
                       (case l3_parse_alert deps (l2_in_rd inp) (in_alert (io_in l3)) l2a of
                          (res1, alert1, l2b) \<Rightarrow>
                            (let l3a = l3\<lparr> io_in := (io_in l3)\<lparr> in_alert := alert1 \<rparr> \<rparr> in
                             case res1 of
                               FAILURE e \<Rightarrow>
                                 if e = MBEDTLS_ERR_READER_OUT_OF_DATA
                                 then mps_l3_read_out_of_data deps l3a l2b
                                        (mps_l3_read_finish l3a inp l2b)
                                 else (Inl e, l3a, l2b)
                             | SUCCESS \<Rightarrow> mps_l3_read_finish l3a inp l2b))
                   | MBEDTLS_MPS_MSG_CCS \<Rightarrow>
                       (case l3_parse_ccs deps (l2_in_rd inp) l2a of
                          (res1, l2b) \<Rightarrow>
                            (case res1 of
                               FAILURE e \<Rightarrow> (Inl e, l3, l2b)
                             | SUCCESS \<Rightarrow> mps_l3_read_finish l3 inp l2b))
                   | MBEDTLS_MPS_MSG_ACK \<Rightarrow> (Inl MBEDTLS_ERR_MPS_INVALID_CONTENT, l3, l2a)
                   | MBEDTLS_MPS_MSG_HS \<Rightarrow> mps_l3_read_hs deps l3 inp l2a
                   | MBEDTLS_MPS_MSG_NONE \<Rightarrow> (Inl MBEDTLS_ERR_MPS_INTERNAL_ERROR, l3, l2a)))))"

subsection \<open>Writing the handshake header\<close>

text \<open>
  \<^verbatim>\<open>l3_write_hs_header_tls\<close> and \<^verbatim>\<open>l3_write_hs_header_dtls\<close> store the header
  through the pointer \<open>hdr\<close>. The pointer was obtained from the writer \<open>raw_out\<close>
  points to, so the bytes are stored in the buffers of the writer at address \<open>p\<close>
  of the store, which the model passes along. Only the low 24 bits of a length
  are written.
\<close>

definition l3_write_hs_header_tls ::
  "'a::len mps_l3_hs_out_internal \<Rightarrow> 'a writer_heap \<Rightarrow> nat \<Rightarrow> ret \<times> 'a writer_heap" where
  "l3_write_hs_header_tls hs h p =
     (case hs_out_hdr hs of
        None \<Rightarrow> (FAILURE MBEDTLS_ERR_MPS_INTERNAL_ERROR, h)
      | Some buf \<Rightarrow>
          if hs_out_hdr_len hs \<noteq> 4 then (FAILURE MBEDTLS_ERR_MPS_INTERNAL_ERROR, h)
          else
            (let w1 = consumer_write (h p) (ptr_add buf 0) [hs_out_type hs];
                 w2 = consumer_write w1 (ptr_add buf 1) (MPS_WRITE_UINT24_BE (hs_out_len hs))
             in (SUCCESS, h(p := w2))))"

definition l3_write_hs_header_dtls ::
  "'a::len mps_l3_hs_out_internal \<Rightarrow> 'a writer_heap \<Rightarrow> nat \<Rightarrow> ret \<times> 'a writer_heap" where
  "l3_write_hs_header_dtls hs h p =
     (case hs_out_hdr hs of
        None \<Rightarrow> (FAILURE MBEDTLS_ERR_MPS_INTERNAL_ERROR, h)
      | Some buf \<Rightarrow>
          if hs_out_hdr_len hs \<noteq> 13 then (FAILURE MBEDTLS_ERR_MPS_INTERNAL_ERROR, h)
          else
            (let w1 = consumer_write (h p) (ptr_add buf 0) [hs_out_type hs];
                 w2 = consumer_write w1 (ptr_add buf 1) (MPS_WRITE_UINT24_BE (hs_out_len hs));
                 w3 = consumer_write w2 (ptr_add buf 4) (MPS_WRITE_UINT16_BE (hs_out_seq_nr hs));
                 w4 = consumer_write w3 (ptr_add buf 7)
                        (MPS_WRITE_UINT24_BE (hs_out_frag_offset hs));
                 w5 = consumer_write w4 (ptr_add buf 10)
                        (MPS_WRITE_UINT24_BE (hs_out_frag_len hs))
             in (SUCCESS, h(p := w5))))"

definition l3_check_write_hs_hdr_tls ::
  "('rd, 'rx, 'a::len) mps_l3 \<Rightarrow> 'a writer_heap \<Rightarrow> ret \<times> ('rd, 'rx, 'a) mps_l3 \<times> 'a writer_heap" where
  "l3_check_write_hs_hdr_tls l3 h =
     (let hs = out_hs (io_out l3) in
      if hs_out_hdr hs \<noteq> None \<and> hs_out_len hs \<noteq> MBEDTLS_MPS_SIZE_UNKNOWN
      then
        (case l3_write_hs_header_tls hs h (out_raw_out (io_out l3)) of
           (res, h1) \<Rightarrow>
             if res \<noteq> SUCCESS then (res, l3, h1)
             else (SUCCESS,
                   l3\<lparr> io_out := (io_out l3)\<lparr> out_hs := hs\<lparr> hs_out_hdr := None,
                                                             hs_out_hdr_len := 0 \<rparr> \<rparr> \<rparr>,
                   h1))
      else (SUCCESS, l3, h))"

definition l3_check_write_hs_hdr_dtls ::
  "('rd, 'rx, 'a::len) mps_l3 \<Rightarrow> 'a writer_heap \<Rightarrow> ret \<times> ('rd, 'rx, 'a) mps_l3 \<times> 'a writer_heap" where
  "l3_check_write_hs_hdr_dtls l3 h =
     (let hs = out_hs (io_out l3) in
      if hs_out_hdr hs \<noteq> None \<and> hs_out_len hs \<noteq> MBEDTLS_MPS_SIZE_UNKNOWN \<and>
         hs_out_frag_len hs \<noteq> MBEDTLS_MPS_SIZE_UNKNOWN
      then
        (case l3_write_hs_header_dtls hs h (out_raw_out (io_out l3)) of
           (res, h1) \<Rightarrow>
             if res \<noteq> SUCCESS then (res, l3, h1)
             else (SUCCESS,
                   l3\<lparr> io_out := (io_out l3)\<lparr> out_hs := hs\<lparr> hs_out_hdr := None,
                                                             hs_out_hdr_len := 0 \<rparr> \<rparr> \<rparr>,
                   h1))
      else (SUCCESS, l3, h))"

definition l3_check_write_hs_hdr ::
  "('rd, 'rx, 'a::len) mps_l3 \<Rightarrow> 'a writer_heap \<Rightarrow> ret \<times> ('rd, 'rx, 'a) mps_l3 \<times> 'a writer_heap" where
  "l3_check_write_hs_hdr l3 h =
     (if MBEDTLS_MPS_IS_TLS (conf_mode l3) then l3_check_write_hs_hdr_tls l3 h
      else if MBEDTLS_MPS_IS_DTLS (conf_mode l3) then l3_check_write_hs_hdr_dtls l3 h
      else (FAILURE MBEDTLS_ERR_MPS_INTERNAL_ERROR, l3, h))"

text \<open>
  The stores of \<^verbatim>\<open>l3_write_hs_header_tls\<close> (in TLS mode) and of
  \<^verbatim>\<open>l3_write_hs_header_dtls\<close> (otherwise) applied to a writer: what a successful
  call leaves in the buffers the pointer \<open>buf\<close> points into.
\<close>

definition hs_header_bytes ::
  "mbedtls_mps_transport_type \<Rightarrow> 'a::len mbedtls_writer \<Rightarrow> 'a word bufptr \<Rightarrow>
   'a mps_l3_hs_out_internal \<Rightarrow> 'a mbedtls_writer" where
  "hs_header_bytes mode w buf hs =
     (if MBEDTLS_MPS_IS_TLS mode
      then consumer_write (consumer_write w (ptr_add buf 0) [hs_out_type hs])
             (ptr_add buf 1) (MPS_WRITE_UINT24_BE (hs_out_len hs))
      else consumer_write (consumer_write (consumer_write (consumer_write
             (consumer_write w (ptr_add buf 0) [hs_out_type hs])
             (ptr_add buf 1) (MPS_WRITE_UINT24_BE (hs_out_len hs)))
             (ptr_add buf 4) (MPS_WRITE_UINT16_BE (hs_out_seq_nr hs)))
             (ptr_add buf 7) (MPS_WRITE_UINT24_BE (hs_out_frag_offset hs)))
             (ptr_add buf 10) (MPS_WRITE_UINT24_BE (hs_out_frag_len hs)))"

subsection \<open>Preparing a write\<close>

definition l3_check_clear ::
  "('l2, 'rd, 'rx, 'a::len) mps_l3_deps \<Rightarrow> ('rd, 'rx, 'a) mps_l3 \<Rightarrow> 'l2 \<Rightarrow> 'a writer_heap \<Rightarrow>
   ret \<times> ('rd, 'rx, 'a) mps_l3 \<times> 'l2 \<times> 'a writer_heap" where
  "l3_check_clear deps l3 l2 h =
     (if out_clearing (io_out l3) = 0 then (SUCCESS, l3, l2, h)
      else
        (case mps_l2_write_flush deps l2 h of
           (res, l2a, h1) \<Rightarrow>
             if res \<noteq> SUCCESS then (res, l3, l2a, h1)
             else (SUCCESS, l3\<lparr> io_out := (io_out l3)\<lparr> out_clearing := 0 \<rparr> \<rparr>, l2a, h1)))"

definition l3_prepare_write ::
  "('l2, 'rd, 'rx, 'a::len) mps_l3_deps \<Rightarrow> ('rd, 'rx, 'a) mps_l3 \<Rightarrow> mbedtls_mps_msg_type_t \<Rightarrow>
   mbedtls_mps_epoch_id \<Rightarrow> 'l2 \<Rightarrow> 'a writer_heap \<Rightarrow>
   ret \<times> ('rd, 'rx, 'a) mps_l3 \<times> 'l2 \<times> 'a writer_heap" where
  "l3_prepare_write deps l3 port epoch l2 h =
     (if out_state (io_out l3) \<noteq> MBEDTLS_MPS_MSG_NONE
      then (FAILURE MBEDTLS_ERR_MPS_OPERATION_UNEXPECTED, l3, l2, h)
      else if hs_out_state (out_hs (io_out l3)) = MPS_L3_HS_PAUSED \<and> port \<noteq> MBEDTLS_MPS_MSG_HS
      then (FAILURE MBEDTLS_ERR_MPS_NO_INTERLEAVING, l3, l2, h)
      else
        (case l3_check_clear deps l3 l2 h of
           (res, l3a, l2a, h1) \<Rightarrow>
             if res \<noteq> SUCCESS then (res, l3a, l2a, h1)
             else
               (case mps_l2_write_start deps port epoch l2a h1 of
                  (res1, wr, l2b, h2) \<Rightarrow>
                    if res1 \<noteq> SUCCESS then (res1, l3a, l2b, h2)
                    else (SUCCESS,
                          l3a\<lparr> io_out := (io_out l3a)\<lparr> out_raw_out := wr, out_state := port \<rparr> \<rparr>,
                          l2b, h2))))"

subsection \<open>Starting and dispatching a handshake message\<close>

text \<open>
  \<^verbatim>\<open>mps_l3_write_handshake\<close>, from the reservation of the header on (the body of
  \<^verbatim>\<open>if( l3->io.out.hs.state == MPS_L3_HS_NONE )\<close> after the fields were stored and
  checked) and the attach that follows it. The local \<^verbatim>\<open>int32_t len\<close> holds the low 32
  bits of the length; for the comparison with \<^verbatim>\<open>MBEDTLS_MPS_SIZE_UNKNOWN\<close> it is
  converted to the size type as a signed number.
\<close>

definition mps_l3_write_handshake_attach ::
  "('rd, 'rx, 'a::len) mps_l3 \<Rightarrow> 'a mps_l3_handshake_out \<Rightarrow> 'l2 \<Rightarrow> 'a writer_heap \<Rightarrow>
   ret \<times> ('rd, 'rx, 'a) mps_l3 \<times> 'l2 \<times> 'a writer_heap" where
  "mps_l3_write_handshake_attach l3 out_p l2 h =
     (let len = (ucast (if MBEDTLS_MPS_IS_TLS (conf_mode l3) then hso_len out_p
                        else hso_frag_len out_p) :: 32 word)
      in case mbedtls_writer_attach (hs_out_wr_ext (out_hs (io_out l3)))
                (out_raw_out (io_out l3))
                (if (scast len :: 'a word) \<noteq> MBEDTLS_MPS_SIZE_UNKNOWN
                 then MBEDTLS_WRITER_EXT_PASS
                 else MBEDTLS_WRITER_EXT_HOLD) of
           (res, x) \<Rightarrow>
             (let l3a = l3\<lparr> io_out := (io_out l3)\<lparr> out_hs := (out_hs (io_out l3))
                                \<lparr> hs_out_wr_ext := x \<rparr> \<rparr> \<rparr>
              in if res \<noteq> SUCCESS then (res, l3a, l2, h)
                 else (SUCCESS,
                       l3a\<lparr> io_out := (io_out l3a)\<lparr> out_hs := (out_hs (io_out l3a))
                                \<lparr> hs_out_state := MPS_L3_HS_ACTIVE \<rparr> \<rparr> \<rparr>,
                       l2, h)))"

definition mps_l3_write_handshake_reserve ::
  "('l2, 'rd, 'rx, 'a::len) mps_l3_deps \<Rightarrow> ('rd, 'rx, 'a) mps_l3 \<Rightarrow> 'a mps_l3_handshake_out \<Rightarrow>
   'l2 \<Rightarrow> 'a writer_heap \<Rightarrow> ret \<times> ('rd, 'rx, 'a) mps_l3 \<times> 'l2 \<times> 'a writer_heap" where
  "mps_l3_write_handshake_reserve deps l3 out_p l2 h =
     (let p = out_raw_out (io_out l3);
          hs = out_hs (io_out l3)
      in case mbedtls_writer_get (h p) (hs_out_hdr_len hs) (hs_out_hdr hs) None of
           (res, w, hdr, _) \<Rightarrow>
             (let h1 = h(p := w);
                  l3a = l3\<lparr> io_out := (io_out l3)\<lparr> out_hs := hs\<lparr> hs_out_hdr := hdr \<rparr> \<rparr> \<rparr>
              in if res = FAILURE MBEDTLS_ERR_WRITER_OUT_OF_DATA
                 then
                   (let l3b = l3a\<lparr> io_out := (io_out l3a)
                                \<lparr> out_clearing := 1, out_state := MBEDTLS_MPS_MSG_NONE \<rparr> \<rparr>
                    in case mps_l2_write_done deps l2 h1 of
                         (res1, l2a, h2) \<Rightarrow>
                           if res1 \<noteq> SUCCESS then (res1, l3b, l2a, h2)
                           else (FAILURE MBEDTLS_ERR_MPS_RETRY, l3b, l2a, h2))
                 else if res \<noteq> SUCCESS then (res, l3a, l2, h1)
                 else
                   (case l3_check_write_hs_hdr l3a h1 of
                      (res2, l3c, h3) \<Rightarrow>
                        if res2 \<noteq> SUCCESS then (res2, l3c, l2, h3)
                        else
                          (let x1 = (if MBEDTLS_MPS_IS_TLS (conf_mode l3c)
                                     then mbedtls_writer_init_ext (hso_len out_p)
                                     else hs_out_wr_ext (out_hs (io_out l3c)));
                               x2 = (if MBEDTLS_MPS_IS_DTLS (conf_mode l3c)
                                     then mbedtls_writer_init_ext (hso_frag_len out_p)
                                     else x1)
                           in mps_l3_write_handshake_attach
                                (l3c\<lparr> io_out := (io_out l3c)\<lparr> out_hs := (out_hs (io_out l3c))
                                         \<lparr> hs_out_wr_ext := x2 \<rparr> \<rparr> \<rparr>)
                                out_p l2 h3))))"

text \<open>
  \<^verbatim>\<open>mps_l3_write_handshake\<close>. The extended writer handed to the caller through
  \<^verbatim>\<open>out->wr_ext\<close> is the field \<open>hs_out_wr_ext\<close> of the result.
\<close>

definition mps_l3_write_handshake ::
  "('l2, 'rd, 'rx, 'a::len) mps_l3_deps \<Rightarrow> ('rd, 'rx, 'a) mps_l3 \<Rightarrow> 'a mps_l3_handshake_out \<Rightarrow>
   'l2 \<Rightarrow> 'a writer_heap \<Rightarrow> ret \<times> ('rd, 'rx, 'a) mps_l3 \<times> 'l2 \<times> 'a writer_heap" where
  "mps_l3_write_handshake deps l3 out_p l2 h =
     (let hs0 = out_hs (io_out l3) in
      if hs_out_state hs0 = MPS_L3_HS_PAUSED \<and>
         (hs_out_epoch hs0 \<noteq> hso_epoch out_p \<or> hs_out_type hs0 \<noteq> hso_type out_p \<or>
          hs_out_len hs0 \<noteq> hso_len out_p)
      then (FAILURE MBEDTLS_ERR_MPS_INVALID_ARGS, l3, l2, h)
      else
        (case l3_prepare_write deps l3 MBEDTLS_MPS_MSG_HS (hso_epoch out_p) l2 h of
           (res, l3a, l2a, h1) \<Rightarrow>
             if res \<noteq> SUCCESS then (res, l3a, l2a, h1)
             else if hs_out_state (out_hs (io_out l3a)) = MPS_L3_HS_NONE
             then
               (let hs1 = (out_hs (io_out l3a))\<lparr> hs_out_epoch := hso_epoch out_p,
                                                 hs_out_len := hso_len out_p,
                                                 hs_out_type := hso_type out_p \<rparr>;
                    hs2 = (if MBEDTLS_MPS_IS_DTLS (conf_mode l3a)
                           then hs1\<lparr> hs_out_seq_nr := hso_seq_nr out_p,
                                     hs_out_frag_len := hso_frag_len out_p,
                                     hs_out_frag_offset := hso_frag_offset out_p \<rparr>
                           else hs1);
                    l3b = l3a\<lparr> io_out := (io_out l3a)\<lparr> out_hs := hs2 \<rparr> \<rparr>;
                    end_of_fragment = hso_frag_offset out_p + hso_frag_len out_p
                in if MBEDTLS_MPS_IS_DTLS (conf_mode l3a) \<and>
                      hso_len out_p = MBEDTLS_MPS_SIZE_UNKNOWN \<and>
                      (hso_frag_offset out_p \<noteq> 0 \<or>
                       hso_frag_len out_p \<noteq> MBEDTLS_MPS_SIZE_UNKNOWN)
                   then (FAILURE MBEDTLS_ERR_MPS_INTERNAL_ERROR, l3b, l2a, h1)
                   else if MBEDTLS_MPS_IS_DTLS (conf_mode l3a) \<and>
                      hso_len out_p \<noteq> MBEDTLS_MPS_SIZE_UNKNOWN \<and>
                      hso_frag_len out_p \<noteq> MBEDTLS_MPS_SIZE_UNKNOWN \<and>
                      (end_of_fragment < hso_frag_offset out_p \<or> end_of_fragment > hso_len out_p)
                   then (FAILURE MBEDTLS_ERR_MPS_INTERNAL_ERROR, l3b, l2a, h1)
                   else
                     (let hs3 = (if MBEDTLS_MPS_IS_DTLS (conf_mode l3a)
                                 then hs2\<lparr> hs_out_hdr_len := MPS_DTLS_HS_HDR_SIZE \<rparr> else hs2);
                          hs4 = (if MBEDTLS_MPS_IS_TLS (conf_mode l3a)
                                 then hs3\<lparr> hs_out_hdr_len := MPS_TLS_HS_HDR_SIZE \<rparr> else hs3)
                      in mps_l3_write_handshake_reserve deps
                           (l3a\<lparr> io_out := (io_out l3a)\<lparr> out_hs := hs4 \<rparr> \<rparr>) out_p l2a h1))
             else mps_l3_write_handshake_attach l3a out_p l2a h1))"

text \<open>
  The arm \<^verbatim>\<open>case MBEDTLS_MPS_MSG_HS\<close> of \<^verbatim>\<open>mps_l3_dispatch\<close>; the result \<open>SUCCESS\<close> is
  the \<^verbatim>\<open>break\<close>.
\<close>

definition mps_l3_dispatch_hs ::
  "('rd, 'rx, 'a::len) mps_l3 \<Rightarrow> 'a writer_heap \<Rightarrow> ret \<times> ('rd, 'rx, 'a) mps_l3 \<times> 'a writer_heap" where
  "mps_l3_dispatch_hs l3 h =
     (let hs = out_hs (io_out l3) in
      if hs_out_state hs \<noteq> MPS_L3_HS_ACTIVE
      then (FAILURE MBEDTLS_ERR_MPS_INTERNAL_ERROR, l3, h)
      else if mbedtls_writer_check_done (hs_out_wr_ext hs) \<noteq> SUCCESS
      then (FAILURE MBEDTLS_ERR_MPS_UNFINISHED_HS_MSG, l3, h)
      else
        (case mbedtls_writer_detach (hs_out_wr_ext hs) (Some 0) (Some 0) of
           (res, x, committed_c, uncommitted_c) \<Rightarrow>
             if res \<noteq> SUCCESS
             then (res, l3\<lparr> io_out := (io_out l3)\<lparr> out_hs := hs\<lparr> hs_out_wr_ext := x \<rparr> \<rparr> \<rparr>, h)
             else
               (let committed_v = the committed_c;
                    uncommitted_v = the uncommitted_c;
                    hs1 = hs\<lparr> hs_out_wr_ext := mbedtls_writer_free_ext \<rparr>;
                    hs2 = (if MBEDTLS_MPS_IS_TLS (conf_mode l3) \<and>
                              hs_out_len hs1 = MBEDTLS_MPS_SIZE_UNKNOWN
                           then hs1\<lparr> hs_out_len := committed_v \<rparr> else hs1);
                    hs3 = (if MBEDTLS_MPS_IS_DTLS (conf_mode l3) \<and>
                              hs_out_len hs2 = MBEDTLS_MPS_SIZE_UNKNOWN
                           then hs2\<lparr> hs_out_len := committed_v \<rparr> else hs2);
                    hs4 = (if MBEDTLS_MPS_IS_DTLS (conf_mode l3) \<and>
                              hs_out_frag_len hs3 = MBEDTLS_MPS_SIZE_UNKNOWN
                           then hs3\<lparr> hs_out_frag_len := committed_v \<rparr> else hs3);
                    l3a = l3\<lparr> io_out := (io_out l3)\<lparr> out_hs := hs4 \<rparr> \<rparr>
                in case l3_check_write_hs_hdr l3a h of
                     (res1, l3b, h1) \<Rightarrow>
                       if res1 \<noteq> SUCCESS then (res1, l3b, h1)
                       else
                         (case mbedtls_writer_commit_partial (h1 (out_raw_out (io_out l3b)))
                                 uncommitted_v of
                            (res2, w) \<Rightarrow>
                              (let h2 = h1(out_raw_out (io_out l3b) := w) in
                               if res2 \<noteq> SUCCESS then (res2, l3b, h2)
                               else (SUCCESS,
                                     l3b\<lparr> io_out := (io_out l3b)\<lparr> out_hs := (out_hs (io_out l3b))
                                              \<lparr> hs_out_state := MPS_L3_HS_NONE \<rparr> \<rparr> \<rparr>,
                                     h2))))))"

text \<open>The arms for alert and CCS: the plain commit of the raw writer.\<close>

definition mps_l3_dispatch_commit ::
  "('rd, 'rx, 'a::len) mps_l3 \<Rightarrow> 'a writer_heap \<Rightarrow> ret \<times> ('rd, 'rx, 'a) mps_l3 \<times> 'a writer_heap" where
  "mps_l3_dispatch_commit l3 h =
     (case mbedtls_writer_commit (h (out_raw_out (io_out l3))) of
        (res, w) \<Rightarrow> (res, l3, h(out_raw_out (io_out l3) := w)))"

definition mps_l3_dispatch ::
  "('l2, 'rd, 'rx, 'a::len) mps_l3_deps \<Rightarrow> ('rd, 'rx, 'a) mps_l3 \<Rightarrow> 'l2 \<Rightarrow> 'a writer_heap \<Rightarrow>
   ret \<times> ('rd, 'rx, 'a) mps_l3 \<times> 'l2 \<times> 'a writer_heap" where
  "mps_l3_dispatch deps l3 l2 h =
     (case (case out_state (io_out l3) of
              MBEDTLS_MPS_MSG_HS \<Rightarrow> mps_l3_dispatch_hs l3 h
            | MBEDTLS_MPS_MSG_ALERT \<Rightarrow> mps_l3_dispatch_commit l3 h
            | MBEDTLS_MPS_MSG_CCS \<Rightarrow> mps_l3_dispatch_commit l3 h
            | MBEDTLS_MPS_MSG_APP \<Rightarrow> (SUCCESS, l3, h)
            | MBEDTLS_MPS_MSG_NONE \<Rightarrow> (FAILURE MBEDTLS_ERR_MPS_OPERATION_UNEXPECTED, l3, h)
            | MBEDTLS_MPS_MSG_ACK \<Rightarrow> (FAILURE MBEDTLS_ERR_MPS_INTERNAL_ERROR, l3, h)) of
        (res, l3a, h1) \<Rightarrow>
          if res \<noteq> SUCCESS then (res, l3a, l2, h1)
          else
            (let l3b = l3a\<lparr> io_out := (io_out l3a)\<lparr> out_raw_out := NULL \<rparr> \<rparr> in
             case mps_l2_write_done deps l2 h1 of
               (res1, l2a, h2) \<Rightarrow>
                 if res1 \<noteq> SUCCESS then (res1, l3b, l2a, h2)
                 else (SUCCESS,
                       l3b\<lparr> io_out := (io_out l3b)\<lparr> out_state := MBEDTLS_MPS_MSG_NONE \<rparr> \<rparr>,
                       l2a, h2)))"

subsection \<open>Initialisation\<close>

text \<open>
  \<^verbatim>\<open>mps_l3_init\<close> (with the mode not hard-coded): it sets the mode and the states
  and leaves the other fields as they are.
\<close>

definition mps_l3_init ::
  "('rd, 'rx, 'a::len) mps_l3 \<Rightarrow> mbedtls_mps_transport_type \<Rightarrow> ret \<times> ('rd, 'rx, 'a) mps_l3" where
  "mps_l3_init l3 mode =
     (SUCCESS,
      l3\<lparr> conf_mode := mode,
          io_in := (io_in l3)\<lparr> in_state := MBEDTLS_MPS_MSG_NONE,
                                 in_hs := (in_hs (io_in l3))\<lparr> hs_in_state := MPS_L3_HS_NONE \<rparr>,
                                 in_raw_in := None \<rparr>,
          io_out := (io_out l3)\<lparr> out_state := MBEDTLS_MPS_MSG_NONE,
                                   out_hs := (out_hs (io_out l3))\<lparr> hs_out_state := MPS_L3_HS_NONE \<rparr>,
                                   out_raw_out := NULL,
                                   out_clearing := 0 \<rparr> \<rparr>)"

subsection \<open>A sample environment\<close>

text \<open>
  An implementation of the collaborators to run Layer 3 on: Layer 2 hands out one
  record of the given type whose reader answers every request with the given
  return code and bytes; its state counts the calls that give a record or a
  writer back; \<^verbatim>\<open>mps_l2_read_done\<close> and \<^verbatim>\<open>mps_l2_write_done\<close> return the given code.
  The writer it hands out is the one at address \<open>1\<close> of the store.
\<close>

definition sample_deps ::
  "mbedtls_mps_msg_type_t \<Rightarrow> ret \<Rightarrow> byte list \<Rightarrow> ret \<Rightarrow> (nat, unit, unit, 64) mps_l3_deps" where
  "sample_deps ty get_res bytes done_res =
     \<lparr> mps_l2_read_start =
         (\<lambda>s. (SUCCESS, \<lparr> l2_in_type = ty, l2_in_epoch = 0, l2_in_rd = () \<rparr>, s)),
       mps_l2_read_done = (\<lambda>s. (done_res, Suc s)),
       mbedtls_reader_get = (\<lambda>rd n s. (get_res, bytes, s)),
       mbedtls_reader_commit = (\<lambda>rd s. (SUCCESS, s)),
       mbedtls_reader_init_ext = (\<lambda>n. ()),
       mbedtls_reader_attach = (\<lambda>rx rd. (SUCCESS, ())),
       mps_l2_write_start = (\<lambda>ty ep s h. (SUCCESS, 1, s, h)),
       mps_l2_write_done = (\<lambda>s h. (done_res, Suc s, h)),
       mps_l2_write_flush = (\<lambda>s h. (SUCCESS, s, h)) \<rparr>"

text \<open>A Layer 3 context after \<^verbatim>\<open>mps_l3_init\<close> on zeroed memory.\<close>

definition sample_l3 :: "mbedtls_mps_transport_type \<Rightarrow> (unit, unit, 64) mps_l3" where
  "sample_l3 mode =
     snd (mps_l3_init
       \<lparr> conf_mode = MBEDTLS_MPS_MODE_STREAM,
         io_in = \<lparr> in_state = MBEDTLS_MPS_MSG_NONE, in_raw_in = None, in_epoch = 0,
                   in_hs = \<lparr> hs_in_state = MPS_L3_HS_NONE, hs_in_epoch = 0, hs_in_type = 0,
                             hs_in_len = 0, hs_in_seq_nr = 0, hs_in_frag_offset = 0,
                             hs_in_frag_len = 0, hs_in_rd_ext = () \<rparr>,
                   in_alert = \<lparr> alert_level = 0, alert_type = 0 \<rparr> \<rparr>,
         io_out = \<lparr> out_state = MBEDTLS_MPS_MSG_NONE, out_raw_out = NULL, out_clearing = 0,
                    out_hs = \<lparr> hs_out_state = MPS_L3_HS_NONE, hs_out_epoch = 0, hs_out_type = 0,
                               hs_out_len = 0, hs_out_seq_nr = 0, hs_out_frag_offset = 0,
                               hs_out_frag_len = 0, hs_out_hdr = None, hs_out_hdr_len = 0,
                               hs_out_wr_ext = mbedtls_writer_free_ext \<rparr> \<rparr> \<rparr>
       mode)"

section \<open>Properties of the writer\<close>

subsection \<open>The invariants are established by initialisation and kept by every call\<close>

lemma length_memcpy:
  "d + n \<le> length dst \<Longrightarrow> s + n \<le> length src \<Longrightarrow> length (memcpy dst d src s n) = length dst"
  by (simp add: memcpy_def)

lemma init_inv: "writer_inv (mbedtls_writer_init q qlen)"
  by (simp add: writer_inv_def mbedtls_writer_init_def)

lemma init_bufs:
  "(case q of None \<Rightarrow> True | Some b \<Rightarrow> unat qlen \<le> length b) \<Longrightarrow>
   writer_bufs (mbedtls_writer_init q qlen)"
  by (simp add: writer_bufs_def mbedtls_writer_init_def split: option.splits)

lemma feed_inv:
  fixes wr :: "'a::len mbedtls_writer"
  assumes "writer_inv wr" "unat buf_len + unat (queue_len wr) < 2 ^ LENGTH('a)"
  shows "writer_inv (fst (snd (mbedtls_writer_feed wr buf buf_len)))"
  using assms
  apply (simp add: writer_inv_def mbedtls_writer_feed_def Let_def split: option.splits mbedtls_writer_state_t.splits)
  apply (auto simp: word_le_nat_alt word_less_nat_alt unat_sub)
   apply unat_arith+
  done

lemma feed_bufs:
  fixes wr :: "'a::len mbedtls_writer"
  assumes "writer_inv wr" "writer_bufs wr" "unat buf_len \<le> length buf"
  shows "writer_bufs (fst (snd (mbedtls_writer_feed wr buf buf_len)))"
  using assms
  apply (simp add: writer_inv_def writer_bufs_def mbedtls_writer_feed_def Let_def split: option.splits mbedtls_writer_state_t.splits)
  apply (auto simp: length_memcpy word_le_nat_alt word_less_nat_alt unat_sub)
  done

lemma reclaim_inv:
  fixes wr :: "'a::len mbedtls_writer"
  assumes "writer_inv wr"
  shows "writer_inv (fst (snd (mbedtls_writer_reclaim wr olen queued force)))"
  using assms
  apply (simp add: writer_inv_def mbedtls_writer_reclaim_def reclaim_finish_def Let_def split: option.splits mbedtls_writer_state_t.splits)
  apply (auto simp: word_le_nat_alt word_less_nat_alt unat_sub)
  done

lemma reclaim_bufs:
  fixes wr :: "'a::len mbedtls_writer"
  assumes "writer_bufs wr"
  shows "writer_bufs (fst (snd (mbedtls_writer_reclaim wr olen queued force)))"
  using assms
  by (auto simp: writer_bufs_def mbedtls_writer_reclaim_def reclaim_finish_def Let_def
           split: option.splits)

lemma writer_inv_consumingD:
  fixes wr :: "'a::len mbedtls_writer"
  assumes "writer_inv wr" "state wr = MBEDTLS_WRITER_CONSUMING"
  shows "unat (out_len wr) + unat (queue_len wr) < 2 ^ LENGTH('a)"
    and "unat (committed wr) \<le> unat (end_ofs wr)"
    and "queue_remaining wr = 0"
    and "unat (queue_next wr) \<le> unat (out_len wr)"
    and "unat (end_ofs wr) < unat (out_len wr) \<Longrightarrow> queue_next wr = 0"
    and "unat (out_len wr) < unat (end_ofs wr) \<Longrightarrow> queue wr \<noteq> None"
    and "unat (out_len wr) < unat (end_ofs wr) \<Longrightarrow>
           unat (queue_next wr) + (unat (end_ofs wr) - unat (out_len wr)) \<le> unat (queue_len wr)"
    and "queue wr = None \<Longrightarrow> queue_next wr = 0"
  using assms
  by (auto simp: writer_inv_def word_le_nat_alt word_less_nat_alt)

lemma writer_inv_consumingI:
  fixes wr :: "'a::len mbedtls_writer"
  assumes "state wr = MBEDTLS_WRITER_CONSUMING"
    and "unat (out_len wr) + unat (queue_len wr) < 2 ^ LENGTH('a)"
    and "unat (committed wr) \<le> unat (end_ofs wr)"
    and "queue_remaining wr = 0"
    and "unat (queue_next wr) \<le> unat (out_len wr)"
    and "unat (end_ofs wr) < unat (out_len wr) \<Longrightarrow> queue_next wr = 0"
    and "unat (out_len wr) < unat (end_ofs wr) \<Longrightarrow> queue wr \<noteq> None"
    and "unat (out_len wr) < unat (end_ofs wr) \<Longrightarrow>
           unat (queue_next wr) + (unat (end_ofs wr) - unat (out_len wr)) \<le> unat (queue_len wr)"
    and "queue wr = None \<Longrightarrow> queue_next wr = 0"
  shows "writer_inv wr"
  using assms
  by (auto simp: writer_inv_def word_le_nat_alt word_less_nat_alt)

lemma writer_bufs_consumingD:
  assumes "writer_bufs wr" "state wr = MBEDTLS_WRITER_CONSUMING"
  shows "\<exists>ob. out wr = Some ob \<and> unat (out_len wr) \<le> length ob"
  using assms by (auto simp: writer_bufs_def split: option.splits)

lemma writer_bufs_queueD:
  assumes "writer_bufs wr" "queue wr = Some q"
  shows "unat (queue_len wr) \<le> length q"
  using assms by (auto simp: writer_bufs_def)

lemma commit_partial_fields:
  fixes wr :: "'a::len mbedtls_writer"
  assumes "state wr = MBEDTLS_WRITER_CONSUMING" "\<not> omit > end_ofs wr - committed wr"
  shows "fst (mbedtls_writer_commit_partial wr omit) = SUCCESS"
    and "end_ofs (snd (mbedtls_writer_commit_partial wr omit)) = end_ofs wr - omit"
    and "committed (snd (mbedtls_writer_commit_partial wr omit)) = end_ofs wr - omit"
    and "queue_next (snd (mbedtls_writer_commit_partial wr omit)) =
           (if end_ofs wr - omit < out_len wr then 0 else queue_next wr)"
    and "out_len (snd (mbedtls_writer_commit_partial wr omit)) = out_len wr"
    and "queue_len (snd (mbedtls_writer_commit_partial wr omit)) = queue_len wr"
    and "queue (snd (mbedtls_writer_commit_partial wr omit)) = queue wr"
    and "queue_remaining (snd (mbedtls_writer_commit_partial wr omit)) = queue_remaining wr"
    and "state (snd (mbedtls_writer_commit_partial wr omit)) = state wr"
    and "out (snd (mbedtls_writer_commit_partial wr omit)) =
           (if end_ofs wr > out_len wr \<and> committed wr < out_len wr \<and>
               end_ofs wr - omit > out_len wr - queue_next wr
            then memcpy_ptr (out wr) (unat (out_len wr - queue_next wr)) (queue wr) 0
                   (unat (commit_copy_len (end_ofs wr - omit) (out_len wr) (queue_next wr)))
            else out wr)"
  using assms by (simp_all add: mbedtls_writer_commit_partial_def Let_def)

lemma commit_copy_len_le: "commit_copy_len t ol qn \<le> qn"
  by (auto simp: commit_copy_len_def Let_def)

lemma commit_partial_word_facts:
  fixes wr :: "'a::len mbedtls_writer"
  assumes inv: "writer_inv wr" and st: "state wr = MBEDTLS_WRITER_CONSUMING"
    and om: "\<not> omit > end_ofs wr - committed wr"
  shows "unat (end_ofs wr - omit) = unat (end_ofs wr) - unat omit"
    and "unat omit \<le> unat (end_ofs wr) - unat (committed wr)"
    and "unat (out_len wr - queue_next wr) = unat (out_len wr) - unat (queue_next wr)"
proof -
  note D = writer_inv_consumingD [OF inv st]
  have sub: "unat (end_ofs wr - committed wr) = unat (end_ofs wr) - unat (committed wr)"
    using D(2) by (simp add: unat_sub word_le_nat_alt)
  show omle: "unat omit \<le> unat (end_ofs wr) - unat (committed wr)"
    using om sub by (simp add: word_less_nat_alt)
  show "unat (end_ofs wr - omit) = unat (end_ofs wr) - unat omit"
    using omle by (simp add: unat_sub word_le_nat_alt)
  show "unat (out_len wr - queue_next wr) = unat (out_len wr) - unat (queue_next wr)"
    using D(4) by (simp add: unat_sub word_le_nat_alt)
qed

lemma commit_partial_inv:
  fixes wr :: "'a::len mbedtls_writer"
  assumes inv: "writer_inv wr"
  shows "writer_inv (snd (mbedtls_writer_commit_partial wr omit))"
proof (cases "state wr = MBEDTLS_WRITER_CONSUMING \<and> \<not> omit > end_ofs wr - committed wr")
  case False
  then show ?thesis
    using inv by (auto simp: mbedtls_writer_commit_partial_def Let_def)
next
  case True
  then have st: "state wr = MBEDTLS_WRITER_CONSUMING"
    and om: "\<not> omit > end_ofs wr - committed wr"
    by simp_all
  note D = writer_inv_consumingD [OF inv st]
  note F = commit_partial_fields [OF st om]
  note W = commit_partial_word_facts [OF inv st om]
  let ?wr' = "snd (mbedtls_writer_commit_partial wr omit)"
  show ?thesis
  proof (rule writer_inv_consumingI)
    show "state ?wr' = MBEDTLS_WRITER_CONSUMING" using F(9) st by simp
    show "unat (out_len ?wr') + unat (queue_len ?wr') < 2 ^ LENGTH('a)"
      using F(5) F(6) D(1) by simp
    show "unat (committed ?wr') \<le> unat (end_ofs ?wr')" using F(2) F(3) by simp
    show "queue_remaining ?wr' = 0" using F(8) D(3) by simp
    show "unat (queue_next ?wr') \<le> unat (out_len ?wr')" using F(4) F(5) D(4) by simp
    show "queue_next ?wr' = 0" if "unat (end_ofs ?wr') < unat (out_len ?wr')"
      using that F(2) F(4) F(5) by (simp add: word_less_nat_alt)
    show "queue ?wr' \<noteq> None" if "unat (out_len ?wr') < unat (end_ofs ?wr')"
      using that F(2) F(5) F(7) W(1) D(6) by simp
    show "unat (queue_next ?wr') + (unat (end_ofs ?wr') - unat (out_len ?wr')) \<le> unat (queue_len ?wr')"
      if "unat (out_len ?wr') < unat (end_ofs ?wr')"
    proof -
      from that have gt: "unat (out_len wr) < unat (end_ofs wr)"
        using F(2) F(5) W(1) by simp
      show ?thesis
        using that D(7) [OF gt] F(2) F(4) F(5) F(6) W(1) by (simp add: word_less_nat_alt)
    qed
    show "queue_next ?wr' = 0" if "queue ?wr' = None"
      using that F(4) F(7) D(8) by simp
  qed
qed

lemma commit_partial_bufs:
  fixes wr :: "'a::len mbedtls_writer"
  assumes inv: "writer_inv wr" and bufs: "writer_bufs wr"
  shows "writer_bufs (snd (mbedtls_writer_commit_partial wr omit))"
proof (cases "state wr = MBEDTLS_WRITER_CONSUMING \<and> \<not> omit > end_ofs wr - committed wr")
  case False
  then show ?thesis
    using bufs by (auto simp: mbedtls_writer_commit_partial_def Let_def)
next
  case True
  then have st: "state wr = MBEDTLS_WRITER_CONSUMING"
    and om: "\<not> omit > end_ofs wr - committed wr"
    by simp_all
  note D = writer_inv_consumingD [OF inv st]
  note F = commit_partial_fields [OF st om]
  note W = commit_partial_word_facts [OF inv st om]
  let ?wr' = "snd (mbedtls_writer_commit_partial wr omit)"
  from writer_bufs_consumingD [OF bufs st]
  obtain ob where ob: "out wr = Some ob" "unat (out_len wr) \<le> length ob"
    by blast
  have ccl: "unat (commit_copy_len (end_ofs wr - omit) (out_len wr) (queue_next wr))
               \<le> unat (queue_next wr)"
    using commit_copy_len_le by (simp add: word_le_nat_alt)
  have "\<exists>ob'. out ?wr' = Some ob' \<and> unat (out_len ?wr') \<le> length ob'"
  proof (cases "end_ofs wr > out_len wr \<and> committed wr < out_len wr \<and>
               end_ofs wr - omit > out_len wr - queue_next wr")
    case False
    then show ?thesis using F(10) F(5) ob by auto
  next
    case True
    then have gt: "unat (out_len wr) < unat (end_ofs wr)"
      by (simp add: word_less_nat_alt)
    from D(6) [OF gt] obtain q where q: "queue wr = Some q"
      by auto
    have ql: "unat (queue_len wr) \<le> length q"
      using writer_bufs_queueD [OF bufs q] .
    have "length (memcpy ob (unat (out_len wr - queue_next wr)) q 0
            (unat (commit_copy_len (end_ofs wr - omit) (out_len wr) (queue_next wr)))) = length ob"
      using ccl W(3) D(4) D(7) [OF gt] ob(2) ql
      by (intro length_memcpy) auto
    then show ?thesis
      using True F(10) F(5) ob q by (simp add: memcpy_ptr_def)
  qed
  then show ?thesis
    using bufs F(6) F(7) F(9) by (auto simp: writer_bufs_def split: option.splits)
qed

lemma get_unchanged_fields:
  fixes wr :: "'a::len mbedtls_writer"
  shows "out (fst (snd (mbedtls_writer_get wr desired buffer buflen))) = out wr"
    and "queue (fst (snd (mbedtls_writer_get wr desired buffer buflen))) = queue wr"
    and "out_len (fst (snd (mbedtls_writer_get wr desired buffer buflen))) = out_len wr"
    and "queue_len (fst (snd (mbedtls_writer_get wr desired buffer buflen))) = queue_len wr"
    and "committed (fst (snd (mbedtls_writer_get wr desired buffer buflen))) = committed wr"
    and "queue_remaining (fst (snd (mbedtls_writer_get wr desired buffer buflen))) = queue_remaining wr"
    and "state (fst (snd (mbedtls_writer_get wr desired buffer buflen))) = state wr"
  by (simp_all add: mbedtls_writer_get_def Let_def)

lemma unat_add_bounded:
  fixes x y :: "'a::len word"
  shows "unat x + unat y < 2 ^ LENGTH('a) \<Longrightarrow> unat (x + y) = unat x + unat y"
  by (simp add: unat_add_lem)

lemma unat_add_le_word:
  fixes x y z :: "'a::len word"
  assumes "unat x + unat y \<le> unat z"
  shows "unat (x + y) = unat x + unat y"
proof -
  have "unat z < 2 ^ LENGTH('a)"
    by simp
  with assms have "unat x + unat y < 2 ^ LENGTH('a)"
    by (rule order_le_less_trans)
  then show ?thesis
    by (rule unat_add_bounded)
qed

lemma unat_sub_le:
  fixes x y :: "'a::len word"
  shows "unat y \<le> unat x \<Longrightarrow> unat (x - y) = unat x - unat y"
  by (simp add: unat_sub word_le_nat_alt)

lemma get_queue_branch:
  fixes wr :: "'a::len mbedtls_writer"
  assumes "state wr = MBEDTLS_WRITER_CONSUMING" "out_len wr < end_ofs wr"
  shows "mbedtls_writer_get wr desired buffer buflen =
          (let qo = queue_next wr + (end_ofs wr - out_len wr);
               avail = queue_len wr - qo
           in if avail < desired \<and> buflen = None
              then (FAILURE MBEDTLS_ERR_WRITER_OUT_OF_DATA, wr, buffer, buflen)
              else (SUCCESS, wr\<lparr> end_ofs := end_ofs wr + (if avail < desired then avail else desired) \<rparr>,
                    Some (PTR_QUEUE qo),
                    assign_out buflen (if avail < desired then avail else desired)))"
  using assms by (simp add: mbedtls_writer_get_def Let_def)

lemma get_out_branch:
  fixes wr :: "'a::len mbedtls_writer"
  assumes "state wr = MBEDTLS_WRITER_CONSUMING" "\<not> out_len wr < end_ofs wr"
    "\<not> out_len wr - end_ofs wr < desired"
  shows "mbedtls_writer_get wr desired buffer buflen =
          (SUCCESS, wr\<lparr> end_ofs := end_ofs wr + desired \<rparr>,
           Some (PTR_OUT (end_ofs wr)), assign_out buflen desired)"
  using assms by (simp add: mbedtls_writer_get_def Let_def)

lemma get_switch_branch:
  fixes wr :: "'a::len mbedtls_writer"
  assumes "state wr = MBEDTLS_WRITER_CONSUMING" "\<not> out_len wr < end_ofs wr"
    "out_len wr - end_ofs wr < desired"
    "queue wr \<noteq> None" "queue_len wr > out_len wr - end_ofs wr"
  shows "mbedtls_writer_get wr desired buffer buflen =
          (let desired1 = (if buflen \<noteq> None \<and> desired > queue_len wr then queue_len wr else desired)
           in if end_ofs wr + desired1 < end_ofs wr \<or> desired1 > queue_len wr
              then (FAILURE MBEDTLS_ERR_WRITER_OUT_OF_DATA, wr, buffer, buflen)
              else (SUCCESS,
                    wr\<lparr> end_ofs := end_ofs wr + desired1, queue_next := out_len wr - end_ofs wr \<rparr>,
                    Some (PTR_QUEUE 0), assign_out buflen desired1))"
  using assms by (simp add: mbedtls_writer_get_def Let_def)

lemma get_partial_branch:
  fixes wr :: "'a::len mbedtls_writer"
  assumes "state wr = MBEDTLS_WRITER_CONSUMING" "\<not> out_len wr < end_ofs wr"
    "out_len wr - end_ofs wr < desired"
    "\<not> (queue wr \<noteq> None \<and> queue_len wr > out_len wr - end_ofs wr)"
  shows "mbedtls_writer_get wr desired buffer buflen =
          (if buflen = None
           then (FAILURE MBEDTLS_ERR_WRITER_OUT_OF_DATA, wr, buffer, buflen)
           else (SUCCESS, wr\<lparr> end_ofs := end_ofs wr + (out_len wr - end_ofs wr) \<rparr>,
                 Some (PTR_OUT (end_ofs wr)), assign_out buflen (out_len wr - end_ofs wr)))"
  using assms by (auto simp add: mbedtls_writer_get_def Let_def)

lemma get_effect:
  fixes wr :: "'a::len mbedtls_writer" and desired buffer buflen
  assumes wf: "writer_inv wr" and st: "state wr = MBEDTLS_WRITER_CONSUMING"
  defines "wr' \<equiv> fst (snd (mbedtls_writer_get wr desired buffer buflen))"
  shows "unat (end_ofs wr) \<le> unat (end_ofs wr') \<and>
         unat (queue_next wr') \<le> unat (out_len wr) \<and>
         (unat (end_ofs wr') < unat (out_len wr) \<longrightarrow> queue_next wr' = 0) \<and>
         (unat (out_len wr) < unat (end_ofs wr') \<longrightarrow>
            queue wr \<noteq> None \<and>
            unat (queue_next wr') + (unat (end_ofs wr') - unat (out_len wr)) \<le> unat (queue_len wr)) \<and>
         (queue wr = None \<longrightarrow> queue_next wr' = 0)"
proof -
  note D = writer_inv_consumingD [OF wf st]
  show ?thesis
  proof (cases "out_len wr < end_ofs wr")
    case True
    then have gt: "unat (out_len wr) < unat (end_ofs wr)"
      by (simp add: word_less_nat_alt)
    note q = D(6) [OF gt] D(7) [OF gt]
    have esub: "unat (end_ofs wr - out_len wr) = unat (end_ofs wr) - unat (out_len wr)"
      using gt by (simp add: unat_sub_le)
    have qo: "unat (queue_next wr + (end_ofs wr - out_len wr))
                = unat (queue_next wr) + (unat (end_ofs wr) - unat (out_len wr))"
      using q(2) esub unat_add_le_word [of "queue_next wr" "end_ofs wr - out_len wr" "queue_len wr"]
      by simp
    define avail where "avail = queue_len wr - (queue_next wr + (end_ofs wr - out_len wr))"
    have av: "unat avail = unat (queue_len wr) - (unat (queue_next wr) + (unat (end_ofs wr) - unat (out_len wr)))"
      unfolding avail_def using q(2) qo by (simp add: unat_sub_le)
    define d1 where "d1 = (if avail < desired then avail else desired)"
    have d1: "unat d1 \<le> unat avail"
      by (simp add: d1_def word_less_nat_alt)
    have "unat (end_ofs wr) + unat d1 \<le> unat (out_len wr) + unat (queue_len wr)"
      using d1 av q(2) gt by simp
    then have e': "unat (end_ofs wr + d1) = unat (end_ofs wr) + unat d1"
      using D(1) by (intro unat_add_bounded) simp
    have res: "wr' = wr \<or> wr' = wr\<lparr> end_ofs := end_ofs wr + d1 \<rparr>"
      unfolding wr'_def get_queue_branch [OF st True] d1_def avail_def
      by (simp add: Let_def)
    then show ?thesis
    proof
      assume "wr' = wr"
      then show ?thesis using gt q D(4) D(8) by simp
    next
      assume "wr' = wr\<lparr> end_ofs := end_ofs wr + d1 \<rparr>"
      then show ?thesis using gt q D(4) D(8) e' d1 av by simp
    qed
  next
    case False
    then have le: "unat (end_ofs wr) \<le> unat (out_len wr)"
      by (simp add: word_less_nat_alt)
    have orem: "unat (out_len wr - end_ofs wr) = unat (out_len wr) - unat (end_ofs wr)"
      using le by (simp add: unat_sub_le)
    have same: ?thesis if "wr' = wr"
      using that le D(4) D(5) D(8) by auto
    show ?thesis
    proof (cases "out_len wr - end_ofs wr < desired")
      case nolt: False
      then have dle: "unat desired \<le> unat (out_len wr) - unat (end_ofs wr)"
        using orem by (simp add: word_less_nat_alt)
      then have e': "unat (end_ofs wr + desired) = unat (end_ofs wr) + unat desired"
        using le unat_add_le_word [of "end_ofs wr" desired "out_len wr"] by simp
      have "wr' = wr\<lparr> end_ofs := end_ofs wr + desired \<rparr>"
        unfolding wr'_def get_out_branch [OF st False nolt] by simp
      then show ?thesis
        using e' dle le D(4) D(5) D(8) by auto
    next
      case lt: True
      show ?thesis
      proof (cases "queue wr \<noteq> None \<and> queue_len wr > out_len wr - end_ofs wr")
        case sw: True
        define d1 where "d1 = (if buflen \<noteq> None \<and> desired > queue_len wr then queue_len wr else desired)"
        have d1gt: "unat (out_len wr) - unat (end_ofs wr) < unat d1"
          using lt sw orem by (auto simp: d1_def word_less_nat_alt)
        have res: "wr' = wr \<or>
            (\<not> (end_ofs wr + d1 < end_ofs wr \<or> d1 > queue_len wr) \<and>
             wr' = wr\<lparr> end_ofs := end_ofs wr + d1, queue_next := out_len wr - end_ofs wr \<rparr>)"
          unfolding wr'_def using get_switch_branch [OF st False lt, of buffer buflen] sw
          by (simp add: Let_def d1_def)
        then show ?thesis
        proof
          assume "wr' = wr"
          then show ?thesis by (rule same)
        next
          assume a: "\<not> (end_ofs wr + d1 < end_ofs wr \<or> d1 > queue_len wr) \<and>
             wr' = wr\<lparr> end_ofs := end_ofs wr + d1, queue_next := out_len wr - end_ofs wr \<rparr>"
          then have "end_ofs wr \<le> end_ofs wr + d1" and d1le: "unat d1 \<le> unat (queue_len wr)"
            by (auto simp: word_le_nat_alt word_less_nat_alt not_less)
          then have e': "unat (end_ofs wr + d1) = unat (end_ofs wr) + unat d1"
            by (simp add: no_olen_add_nat unat_add_lem [symmetric])
          show ?thesis
            using a e' d1le d1gt orem le sw by auto
        qed
      next
        case nsw: False
        have e': "end_ofs wr + (out_len wr - end_ofs wr) = out_len wr"
          by simp
        have "wr' = wr \<or> wr' = wr\<lparr> end_ofs := out_len wr \<rparr>"
          unfolding wr'_def get_partial_branch [OF st False lt nsw] by (simp add: e')
        then show ?thesis
        proof
          assume "wr' = wr"
          then show ?thesis by (rule same)
        next
          assume "wr' = wr\<lparr> end_ofs := out_len wr \<rparr>"
          then show ?thesis using le D(4) D(5) D(8) by auto
        qed
      qed
    qed
  qed
qed

lemma get_inv:
  fixes wr :: "'a::len mbedtls_writer"
  assumes wf: "writer_inv wr"
  shows "writer_inv (fst (snd (mbedtls_writer_get wr desired buffer buflen)))"
proof (cases "state wr = MBEDTLS_WRITER_CONSUMING")
  case False
  then show ?thesis
    using wf by (simp add: mbedtls_writer_get_def)
next
  case st: True
  note D = writer_inv_consumingD [OF wf st]
  note U = get_unchanged_fields [of wr desired buffer buflen]
  note E = get_effect [OF wf st, of desired buffer buflen]
  let ?wr' = "fst (snd (mbedtls_writer_get wr desired buffer buflen))"
  show ?thesis
  proof (rule writer_inv_consumingI)
    show "state ?wr' = MBEDTLS_WRITER_CONSUMING" using U(7) st by simp
    show "unat (out_len ?wr') + unat (queue_len ?wr') < 2 ^ LENGTH('a)"
      using U(3) U(4) D(1) by simp
    show "unat (committed ?wr') \<le> unat (end_ofs ?wr')"
      using U(5) D(2) E by simp
    show "queue_remaining ?wr' = 0" using U(6) D(3) by simp
    show "unat (queue_next ?wr') \<le> unat (out_len ?wr')" using U(3) E by simp
    show "queue_next ?wr' = 0" if "unat (end_ofs ?wr') < unat (out_len ?wr')"
      using that U(3) E by simp
    show "queue ?wr' \<noteq> None" if "unat (out_len ?wr') < unat (end_ofs ?wr')"
      using that U(2) U(3) E by simp
    show "unat (queue_next ?wr') + (unat (end_ofs ?wr') - unat (out_len ?wr')) \<le> unat (queue_len ?wr')"
      if "unat (out_len ?wr') < unat (end_ofs ?wr')"
      using that U(3) U(4) E by simp
    show "queue_next ?wr' = 0" if "queue ?wr' = None"
      using that U(2) E by simp
  qed
qed

lemma get_bufs:
  assumes "writer_bufs wr"
  shows "writer_bufs (fst (snd (mbedtls_writer_get wr desired buffer buflen)))"
  using assms get_unchanged_fields [of wr desired buffer buflen]
  by (auto simp: writer_bufs_def split: option.splits)

subsection \<open>Reclaiming with data left\<close>

text \<open>
  C10. When \<^verbatim>\<open>mbedtls_writer_reclaim\<close> is called in consuming state with
  \<open>committed < out_len\<close> and \<open>force = 0\<close>, it fails with
  \<^verbatim>\<open>MBEDTLS_ERR_WRITER_DATA_LEFT\<close> and the writer stays in consuming state, but it
  is modified: \<open>end\<close> is rolled back to \<open>committed\<close>, \<open>queue_next\<close> is reset to \<open>0\<close>,
  and the output parameters that are not \<^verbatim>\<open>NULL\<close> are written
  (\<open>olen = committed\<close>, \<open>queued = 0\<close>).
\<close>

theorem reclaim_data_left:
  assumes "state wr = MBEDTLS_WRITER_CONSUMING"
    and "committed wr < out_len wr"
    and "force = 0"
  shows "mbedtls_writer_reclaim wr olen queued force =
           (FAILURE MBEDTLS_ERR_WRITER_DATA_LEFT,
            wr\<lparr> end_ofs := committed wr, queue_next := 0 \<rparr>,
            assign_out olen (committed wr), assign_out queued 0) \<and>
         state (fst (snd (mbedtls_writer_reclaim wr olen queued force))) =
           MBEDTLS_WRITER_CONSUMING"
proof -
  from assms(2) have le: "committed wr \<le> out_len wr"
    by simp
  have "mbedtls_writer_reclaim wr olen queued force =
           (FAILURE MBEDTLS_ERR_WRITER_DATA_LEFT,
            wr\<lparr> end_ofs := committed wr, queue_next := 0 \<rparr>,
            assign_out olen (committed wr), assign_out queued 0)"
    using assms le by (simp add: mbedtls_writer_reclaim_def Let_def)
  then show ?thesis
    using assms(1) by simp
qed

text \<open>
  An instance: a 10-byte buffer is fed to a writer with a 100-byte queue, 15
  bytes are fetched (so that \<open>end = 15\<close> and \<open>queue_next = 10\<close>) and nothing is
  committed; the reclaim without force fails, writes \<open>olen = 0\<close> and \<open>queued = 0\<close>
  over the previous contents of the cells, and resets \<open>end\<close> and \<open>queue_next\<close>.
\<close>

theorem reclaim_data_left_witness:
  "(let wr = \<lparr> out = Some (replicate 10 0), queue = Some (replicate 100 0),
                out_len = 10, queue_len = 100, committed = 0, end_ofs = 15,
                queue_next = 10, queue_remaining = 0,
                state = MBEDTLS_WRITER_CONSUMING \<rparr> :: 64 mbedtls_writer
    in state wr = MBEDTLS_WRITER_CONSUMING \<and> committed wr < out_len wr \<and>
       mbedtls_writer_reclaim wr (Some 77) (Some 99) 0 =
         (FAILURE MBEDTLS_ERR_WRITER_DATA_LEFT,
          wr\<lparr> end_ofs := 0, queue_next := 0 \<rparr>, Some 0, Some 0))"
  using reclaim_data_left
    [of "\<lparr> out = Some (replicate 10 0), queue = Some (replicate 100 0),
                out_len = 10, queue_len = 100, committed = 0, end_ofs = 15,
                queue_next = 10, queue_remaining = 0,
                state = MBEDTLS_WRITER_CONSUMING \<rparr> :: 64 mbedtls_writer" 0 "Some 77" "Some 99"]
  by (simp add: assign_out_def)

subsection \<open>Reclaiming reports what was committed\<close>

lemma assign_out_twice [simp]: "assign_out (assign_out p v) w = assign_out p w"
  by (simp add: assign_out_def split: option.splits)

text \<open>
  C2. A successful \<^verbatim>\<open>mbedtls_writer_reclaim\<close> in consuming state reports \<open>olen\<close> and
  \<open>queued\<close> that add up (exactly) to \<open>committed\<close>: for \<open>committed \<le> out_len\<close> it
  reports \<open>olen = committed\<close> and \<open>queued = 0\<close>; for \<open>committed > out_len\<close> it
  reports \<open>olen = out_len\<close> and \<open>queued = committed - out_len\<close> and sets
  \<open>queue_remaining\<close> to that; the writer is in providing state afterwards with
  \<open>end\<close>, \<open>committed\<close>, \<open>out\<close> and \<open>out_len\<close> reset. The writer is one that satisfies
  the invariant \<open>writer_inv\<close>, which initialisation establishes and every call
  keeps (in consuming state it gives \<open>queue_remaining = 0\<close>, the value the first
  case reports as \<open>queued\<close>).
\<close>
theorem reclaim_success:
  fixes wr :: "'a::len mbedtls_writer"
  assumes inv: "writer_inv wr"
    and st: "state wr = MBEDTLS_WRITER_CONSUMING"
    and ok: "mbedtls_writer_reclaim wr olen queued force = (SUCCESS, wr', olen', queued')"
  shows "(let written = (if committed wr \<le> out_len wr then committed wr else out_len wr);
              q = (if committed wr \<le> out_len wr then 0 else committed wr - out_len wr)
          in olen' = assign_out olen written \<and> queued' = assign_out queued q \<and>
             unat written + unat q = unat (committed wr) \<and>
             (out_len wr < committed wr \<longrightarrow> queue_remaining wr' = committed wr - out_len wr)) \<and>
         state wr' = MBEDTLS_WRITER_PROVIDING \<and> end_ofs wr' = 0 \<and> committed wr' = 0 \<and>
         out wr' = None \<and> out_len wr' = 0"
proof -
  note D = writer_inv_consumingD [OF inv st]
  show ?thesis
  proof (cases "committed wr \<le> out_len wr")
    case True
    with ok st D(3) show ?thesis
      by (auto simp: mbedtls_writer_reclaim_def reclaim_finish_def Let_def split: if_splits)
  next
    case False
    then have "unat (committed wr - out_len wr) = unat (committed wr) - unat (out_len wr)"
      and "unat (out_len wr) \<le> unat (committed wr)"
      by (simp_all add: unat_sub word_le_nat_alt)
    with False ok st show ?thesis
      by (auto simp: mbedtls_writer_reclaim_def reclaim_finish_def Let_def)
  qed
qed

theorem reclaim_success_witness:
  "(let wr = \<lparr> out = Some (replicate 10 0), queue = Some (replicate 100 0),
                out_len = 10, queue_len = 100, committed = 50, end_ofs = 50,
                queue_next = 10, queue_remaining = 0,
                state = MBEDTLS_WRITER_CONSUMING \<rparr> :: 64 mbedtls_writer;
        wr' = wr\<lparr> end_ofs := 0, committed := 0, out := None, out_len := 0,
                  queue_remaining := 40, state := MBEDTLS_WRITER_PROVIDING \<rparr>
    in writer_inv wr \<and> state wr = MBEDTLS_WRITER_CONSUMING \<and>
       mbedtls_writer_reclaim wr (Some 0) (Some 0) 0 = (SUCCESS, wr', Some 10, Some 40) \<and>
       unat (10 :: 64 word) + unat (40 :: 64 word) = unat (committed wr) \<and>
       queue_remaining wr' = 40 \<and> state wr' = MBEDTLS_WRITER_PROVIDING)"
proof -
  define wr :: "64 mbedtls_writer" where
    "wr = \<lparr> out = Some (replicate 10 0), queue = Some (replicate 100 0),
                out_len = 10, queue_len = 100, committed = 50, end_ofs = 50,
                queue_next = 10, queue_remaining = 0,
                state = MBEDTLS_WRITER_CONSUMING \<rparr>"
  define wr' where "wr' = wr\<lparr> end_ofs := 0, committed := 0, out := None, out_len := 0,
                  queue_remaining := 40, state := MBEDTLS_WRITER_PROVIDING \<rparr>"
  have inv: "writer_inv wr"
    by (simp add: wr_def writer_inv_def)
  have st: "state wr = MBEDTLS_WRITER_CONSUMING"
    by (simp add: wr_def)
  have ok: "mbedtls_writer_reclaim wr (Some 0) (Some 0) 0 = (SUCCESS, wr', Some 10, Some 40)"
    by (simp add: wr_def wr'_def mbedtls_writer_reclaim_def reclaim_finish_def assign_out_def)
  from reclaim_success [OF inv st ok] inv st ok
  show ?thesis
    unfolding wr_def [symmetric] wr'_def [symmetric] Let_def
    by (simp add: wr_def wr'_def)
qed

subsection \<open>Feeding with data pending in the queue\<close>

lemma take_memcpy_front:
  assumes "s + n \<le> length src"
  shows "take n (memcpy dst 0 src s n) = take n (drop s src)"
    and "drop n (memcpy dst 0 src s n) = drop n dst"
  using assms by (simp_all add: memcpy_def)

lemma feed_with_queue:
  fixes wr :: "'a::len mbedtls_writer" and buf_len :: "'a word" and buf :: "byte list"
  assumes st: "state wr = MBEDTLS_WRITER_PROVIDING"
    and q: "queue wr = Some qb"
  defines "copied \<equiv> min (queue_remaining wr) buf_len"
  defines "buf' \<equiv> (if copied = 0 then buf
                      else memcpy buf 0 qb (unat (queue_next wr)) (unat copied))"
  shows "mbedtls_writer_feed wr buf buf_len =
               (if buf_len < queue_remaining wr
                then (FAILURE MBEDTLS_ERR_WRITER_NEED_MORE,
                      wr\<lparr> queue_remaining := queue_remaining wr - copied,
                          queue_next := queue_next wr + copied \<rparr>,
                      buf')
                else (SUCCESS,
                      wr\<lparr> queue_next := 0, queue_remaining := 0,
                          out := Some buf', out_len := buf_len,
                          committed := copied, end_ofs := copied,
                          state := MBEDTLS_WRITER_CONSUMING \<rparr>,
                      buf'))"
    and "unat (queue_next wr) + unat (queue_remaining wr) \<le> length qb \<Longrightarrow>
         unat buf_len \<le> length buf \<Longrightarrow>
           take (unat copied) buf' = take (unat copied) (drop (unat (queue_next wr)) qb) \<and>
           drop (unat copied) buf' = drop (unat copied) buf \<and>
           length buf' = length buf"
proof -
  have cle: "copied \<le> queue_remaining wr" "copied \<le> buf_len"
    by (simp_all add: copied_def)
  show "mbedtls_writer_feed wr buf buf_len =
               (if buf_len < queue_remaining wr
                then (FAILURE MBEDTLS_ERR_WRITER_NEED_MORE,
                      wr\<lparr> queue_remaining := queue_remaining wr - copied,
                          queue_next := queue_next wr + copied \<rparr>,
                      buf')
                else (SUCCESS,
                      wr\<lparr> queue_next := 0, queue_remaining := 0,
                          out := Some buf', out_len := buf_len,
                          committed := copied, end_ofs := copied,
                          state := MBEDTLS_WRITER_CONSUMING \<rparr>,
                      buf'))"
  proof (cases "buf_len < queue_remaining wr")
    case True
    then have c: "copied = buf_len"
      by (auto simp: copied_def min_def)
    have "0 < queue_remaining wr - buf_len"
      using True by (simp add: word_greater_zero_iff)
    with True st q show ?thesis
      by (simp add: mbedtls_writer_feed_def Let_def c buf'_def)
  next
    case False
    then have c: "copied = queue_remaining wr"
      by (auto simp: copied_def min_def)
    with False st q show ?thesis
      by (simp add: mbedtls_writer_feed_def Let_def c buf'_def)
  qed
  show "take (unat copied) buf' = take (unat copied) (drop (unat (queue_next wr)) qb) \<and>
        drop (unat copied) buf' = drop (unat copied) buf \<and> length buf' = length buf"
    if b: "unat (queue_next wr) + unat (queue_remaining wr) \<le> length qb"
      "unat buf_len \<le> length buf"
  proof (cases "copied = 0")
    case True
    then show ?thesis by (simp add: buf'_def)
  next
    case False
    have n: "unat (queue_next wr) + unat copied \<le> length qb" "0 + unat copied \<le> length buf"
      using b cle by (simp_all add: word_le_nat_alt)
    show ?thesis
      using False take_memcpy_front [OF n(1)] length_memcpy [OF n(2) n(1)]
      by (simp add: buf'_def)
  qed
qed

text \<open>
  C5. In providing state with a queue, \<^verbatim>\<open>mbedtls_writer_feed\<close> copies
  \<open>min queue_remaining buf_len\<close> bytes of the queue, from offset \<open>queue_next\<close>, to
  the front of the buffer. It returns \<^verbatim>\<open>MBEDTLS_ERR_WRITER_NEED_MORE\<close> and stays in
  providing state, with \<open>queue_remaining\<close> reduced and \<open>queue_next\<close> advanced by the
  copied amount, if and only if \<open>queue_remaining > buf_len\<close>; otherwise it succeeds
  and enters consuming state with \<open>committed = end =\<close> the copied amount. When
  \<open>buf_len = queue_remaining\<close> it succeeds, and then \<open>end = out_len\<close>: no byte of
  the buffer is left to use.
\<close>
theorem feed_pending_queue:
  fixes wr :: "'a::len mbedtls_writer"
  assumes st: "state wr = MBEDTLS_WRITER_PROVIDING"
    and q: "queue wr = Some qb"
  shows "(let copied = min (queue_remaining wr) buf_len;
              buf' = (if copied = 0 then buf
                      else memcpy buf 0 qb (unat (queue_next wr)) (unat copied))
          in mbedtls_writer_feed wr buf buf_len =
               (if buf_len < queue_remaining wr
                then (FAILURE MBEDTLS_ERR_WRITER_NEED_MORE,
                      wr\<lparr> queue_remaining := queue_remaining wr - copied,
                          queue_next := queue_next wr + copied \<rparr>,
                      buf')
                else (SUCCESS,
                      wr\<lparr> queue_next := 0, queue_remaining := 0,
                          out := Some buf', out_len := buf_len,
                          committed := copied, end_ofs := copied,
                          state := MBEDTLS_WRITER_CONSUMING \<rparr>,
                      buf')) \<and>
             (unat (queue_next wr) + unat (queue_remaining wr) \<le> length qb \<and>
              unat buf_len \<le> length buf \<longrightarrow>
                take (unat copied) buf' = take (unat copied) (drop (unat (queue_next wr)) qb) \<and>
                drop (unat copied) buf' = drop (unat copied) buf \<and>
                length buf' = length buf)) \<and>
         (fst (mbedtls_writer_feed wr buf buf_len) = FAILURE MBEDTLS_ERR_WRITER_NEED_MORE
            \<longleftrightarrow> buf_len < queue_remaining wr) \<and>
         (buf_len = queue_remaining wr \<longrightarrow>
            fst (mbedtls_writer_feed wr buf buf_len) = SUCCESS \<and>
            end_ofs (fst (snd (mbedtls_writer_feed wr buf buf_len))) = buf_len \<and>
            out_len (fst (snd (mbedtls_writer_feed wr buf buf_len))) = buf_len)"
proof -
  note H = feed_with_queue [OF st q, where buf_len = buf_len and buf = buf]
  have xeq: "buf_len = queue_remaining wr \<Longrightarrow> min (queue_remaining wr) buf_len = buf_len"
    by simp
  show ?thesis
    unfolding Let_def using H(1) H(2) xeq by auto
qed

theorem feed_pending_queue_witness:
  "(let wr = \<lparr> out = None, queue = Some [1, 2, 3, 4, 5, 6, 7, 8],
                out_len = 0, queue_len = 8, committed = 0, end_ofs = 0,
                queue_next = 4, queue_remaining = 4,
                state = MBEDTLS_WRITER_PROVIDING \<rparr> :: 64 mbedtls_writer
    in mbedtls_writer_feed wr [0, 0, 0] 3 =
         (FAILURE MBEDTLS_ERR_WRITER_NEED_MORE,
          wr\<lparr> queue_remaining := 1, queue_next := 7 \<rparr>, [5, 6, 7]) \<and>
       mbedtls_writer_feed wr [0, 0, 0, 0] 4 =
         (SUCCESS,
          wr\<lparr> queue_next := 0, queue_remaining := 0, out := Some [5, 6, 7, 8], out_len := 4,
              committed := 4, end_ofs := 4, state := MBEDTLS_WRITER_CONSUMING \<rparr>,
          [5, 6, 7, 8]))"
proof -
  define wr :: "64 mbedtls_writer" where
    "wr = \<lparr> out = None, queue = Some [1, 2, 3, 4, 5, 6, 7, 8],
                out_len = 0, queue_len = 8, committed = 0, end_ofs = 0,
                queue_next = 4, queue_remaining = 4,
                state = MBEDTLS_WRITER_PROVIDING \<rparr>"
  have st: "state wr = MBEDTLS_WRITER_PROVIDING"
    and q: "queue wr = Some [1, 2, 3, 4, 5, 6, 7, 8]"
    and v: "queue_remaining wr = 4" "queue_next wr = 4"
    by (simp_all add: wr_def)
  from feed_pending_queue [OF st q, where buf = "[0, 0, 0]" and buf_len = 3]
  have a: "mbedtls_writer_feed wr [0, 0, 0] 3 =
         (FAILURE MBEDTLS_ERR_WRITER_NEED_MORE,
          wr\<lparr> queue_remaining := 1, queue_next := 7 \<rparr>, [5, 6, 7])"
    by (simp add: v Let_def memcpy_def)
  from feed_pending_queue [OF st q, where buf = "[0, 0, 0, 0]" and buf_len = 4]
  have b: "mbedtls_writer_feed wr [0, 0, 0, 0] 4 =
         (SUCCESS,
          wr\<lparr> queue_next := 0, queue_remaining := 0, out := Some [5, 6, 7, 8], out_len := 4,
              committed := 4, end_ofs := 4, state := MBEDTLS_WRITER_CONSUMING \<rparr>,
          [5, 6, 7, 8])"
    by (simp add: v Let_def memcpy_def)
  from a b show ?thesis
    unfolding wr_def [symmetric] Let_def by simp
qed

subsection \<open>Committing across the end of the outgoing data buffer\<close>

lemma memcpy_parts:
  assumes "d + n \<le> length dst" "s + n \<le> length src"
  shows "take d (memcpy dst d src s n) = take d dst"
    and "take n (drop d (memcpy dst d src s n)) = take n (drop s src)"
    and "drop (d + n) (memcpy dst d src s n) = drop (d + n) dst"
  using assms by (simp_all add: memcpy_def)

lemma commit_copy_len_min: "commit_copy_len t ol qn = min qn (t - (ol - qn))"
  by (auto simp: commit_copy_len_def Let_def min_def)

lemma unat_min: "unat (min x y) = min (unat x) (unat y)"
  by (simp add: min_def word_le_nat_alt)

text \<open>
  C3. In consuming state \<^verbatim>\<open>mbedtls_writer_commit_partial\<close> fails with
  \<^verbatim>\<open>MBEDTLS_ERR_WRITER_INVALID_ARG\<close> and leaves the writer unchanged when
  \<open>omit > end - committed\<close>; otherwise it succeeds with \<open>committed = end =\<close> the old
  \<open>end - omit\<close>. When the commit crosses from the outgoing data buffer into the
  queue (\<open>end > out_len\<close>, \<open>committed < out_len\<close>, new commit beyond
  \<open>out_len - queue_next\<close>) it copies \<open>min queue_next (new_commit - (out_len - queue_next))\<close>
  bytes from the start of the queue to offset \<open>out_len - queue_next\<close> of the outgoing
  data buffer, and otherwise leaves the buffer alone. For a writer that satisfies
  the invariants the copy is within both buffers, the count is that minimum taken
  on natural numbers, and the bytes before and after the copied range keep their
  values.
\<close>
theorem commit_partial_spec:
  fixes wr :: "'a::len mbedtls_writer"
  assumes st: "state wr = MBEDTLS_WRITER_CONSUMING"
  shows "(end_ofs wr - committed wr < omit \<longrightarrow>
            mbedtls_writer_commit_partial wr omit = (FAILURE MBEDTLS_ERR_WRITER_INVALID_ARG, wr)) \<and>
         (\<not> end_ofs wr - committed wr < omit \<longrightarrow>
            (let wr' = snd (mbedtls_writer_commit_partial wr omit);
                 new_commit = end_ofs wr - omit;
                 crossing = (out_len wr < end_ofs wr \<and> committed wr < out_len wr \<and>
                             out_len wr - queue_next wr < new_commit);
                 n = min (queue_next wr) (new_commit - (out_len wr - queue_next wr))
             in fst (mbedtls_writer_commit_partial wr omit) = SUCCESS \<and>
                committed wr' = new_commit \<and> end_ofs wr' = new_commit \<and>
                out wr' = (if crossing
                           then memcpy_ptr (out wr) (unat (out_len wr - queue_next wr))
                                  (queue wr) 0 (unat n)
                           else out wr) \<and>
                (crossing \<and> writer_inv wr \<and> writer_bufs wr \<longrightarrow>
                   (\<exists>ob qb ob'.
                      out wr = Some ob \<and> queue wr = Some qb \<and> out wr' = Some ob' \<and>
                      length ob' = length ob \<and>
                      unat n = min (unat (queue_next wr))
                                 (unat new_commit - (unat (out_len wr) - unat (queue_next wr))) \<and>
                      take (unat n) (drop (unat (out_len wr) - unat (queue_next wr)) ob') =
                        take (unat n) qb \<and>
                      take (unat (out_len wr) - unat (queue_next wr)) ob' =
                        take (unat (out_len wr) - unat (queue_next wr)) ob \<and>
                      drop (unat (out_len wr) - unat (queue_next wr) + unat n) ob' =
                        drop (unat (out_len wr) - unat (queue_next wr) + unat n) ob))))"
proof (intro conjI impI)
  assume "end_ofs wr - committed wr < omit"
  with st show "mbedtls_writer_commit_partial wr omit = (FAILURE MBEDTLS_ERR_WRITER_INVALID_ARG, wr)"
    by (simp add: mbedtls_writer_commit_partial_def Let_def)
next
  assume om: "\<not> end_ofs wr - committed wr < omit"
  note F = commit_partial_fields [OF st om]
  define wr' where "wr' = snd (mbedtls_writer_commit_partial wr omit)"
  define new_commit where "new_commit = end_ofs wr - omit"
  define crossing where "crossing \<longleftrightarrow> out_len wr < end_ofs wr \<and> committed wr < out_len wr \<and>
                             out_len wr - queue_next wr < new_commit"
  define n where "n = min (queue_next wr) (new_commit - (out_len wr - queue_next wr))"
  have outeq: "out wr' = (if crossing
                           then memcpy_ptr (out wr) (unat (out_len wr - queue_next wr))
                                  (queue wr) 0 (unat n)
                           else out wr)"
    unfolding wr'_def F(10) crossing_def n_def new_commit_def commit_copy_len_min by simp
  have bytes: "\<exists>ob qb ob'.
                      out wr = Some ob \<and> queue wr = Some qb \<and> out wr' = Some ob' \<and>
                      length ob' = length ob \<and>
                      unat n = min (unat (queue_next wr))
                                 (unat new_commit - (unat (out_len wr) - unat (queue_next wr))) \<and>
                      take (unat n) (drop (unat (out_len wr) - unat (queue_next wr)) ob') =
                        take (unat n) qb \<and>
                      take (unat (out_len wr) - unat (queue_next wr)) ob' =
                        take (unat (out_len wr) - unat (queue_next wr)) ob \<and>
                      drop (unat (out_len wr) - unat (queue_next wr) + unat n) ob' =
                        drop (unat (out_len wr) - unat (queue_next wr) + unat n) ob"
    if c: crossing and inv: "writer_inv wr" and bufs: "writer_bufs wr"
  proof -
    note D = writer_inv_consumingD [OF inv st]
    note W = commit_partial_word_facts [OF inv st om]
    from c have gt: "unat (out_len wr) < unat (end_ofs wr)"
      and lt: "out_len wr - queue_next wr < new_commit"
      by (simp_all add: crossing_def word_less_nat_alt)
    from writer_bufs_consumingD [OF bufs st]
    obtain ob where ob: "out wr = Some ob" "unat (out_len wr) \<le> length ob"
      by blast
    from D(6) [OF gt] obtain qb where qb: "queue wr = Some qb"
      by auto
    have ql: "unat (queue_len wr) \<le> length qb"
      using writer_bufs_queueD [OF bufs qb] .
    let ?d = "unat (out_len wr) - unat (queue_next wr)"
    have nle: "unat n \<le> unat (queue_next wr)"
      by (simp add: n_def unat_min)
    have csub: "unat (new_commit - (out_len wr - queue_next wr)) = unat new_commit - ?d"
      using lt W(3) by (simp add: unat_sub_le word_less_nat_alt)
    have nval: "unat n = min (unat (queue_next wr)) (unat new_commit - ?d)"
      by (simp add: n_def unat_min csub)
    have b1: "?d + unat n \<le> length ob"
      using nle D(4) ob(2) by simp
    have b2: "0 + unat n \<le> length qb"
      using nle D(7) [OF gt] ql by simp
    define ob' where "ob' = memcpy ob ?d qb 0 (unat n)"
    have o': "out wr' = Some ob'"
      using outeq c ob qb W(3) by (simp add: memcpy_ptr_def ob'_def)
    have "length ob' = length ob"
      unfolding ob'_def by (rule length_memcpy [OF b1 b2])
    moreover note memcpy_parts [OF b1 b2, folded ob'_def]
    ultimately show ?thesis
      using ob qb o' nval by simp
  qed
  show "let wr' = snd (mbedtls_writer_commit_partial wr omit);
                 new_commit = end_ofs wr - omit;
                 crossing = (out_len wr < end_ofs wr \<and> committed wr < out_len wr \<and>
                             out_len wr - queue_next wr < new_commit);
                 n = min (queue_next wr) (new_commit - (out_len wr - queue_next wr))
             in fst (mbedtls_writer_commit_partial wr omit) = SUCCESS \<and>
                committed wr' = new_commit \<and> end_ofs wr' = new_commit \<and>
                out wr' = (if crossing
                           then memcpy_ptr (out wr) (unat (out_len wr - queue_next wr))
                                  (queue wr) 0 (unat n)
                           else out wr) \<and>
                (crossing \<and> writer_inv wr \<and> writer_bufs wr \<longrightarrow>
                   (\<exists>ob qb ob'.
                      out wr = Some ob \<and> queue wr = Some qb \<and> out wr' = Some ob' \<and>
                      length ob' = length ob \<and>
                      unat n = min (unat (queue_next wr))
                                 (unat new_commit - (unat (out_len wr) - unat (queue_next wr))) \<and>
                      take (unat n) (drop (unat (out_len wr) - unat (queue_next wr)) ob') =
                        take (unat n) qb \<and>
                      take (unat (out_len wr) - unat (queue_next wr)) ob' =
                        take (unat (out_len wr) - unat (queue_next wr)) ob \<and>
                      drop (unat (out_len wr) - unat (queue_next wr) + unat n) ob' =
                        drop (unat (out_len wr) - unat (queue_next wr) + unat n) ob))"
    unfolding Let_def wr'_def [symmetric] new_commit_def [symmetric]
      crossing_def [symmetric] n_def [symmetric]
    using F(1) F(2) F(3) outeq bytes
    by (simp add: wr'_def new_commit_def)
qed

theorem commit_partial_spec_witness:
  "(let wr = \<lparr> out = Some [0, 0, 0, 0], queue = Some [1, 2, 3, 4, 5, 6, 0, 0],
                out_len = 4, queue_len = 8, committed = 0, end_ofs = 6,
                queue_next = 4, queue_remaining = 0,
                state = MBEDTLS_WRITER_CONSUMING \<rparr> :: 64 mbedtls_writer
    in mbedtls_writer_commit_partial wr 7 = (FAILURE MBEDTLS_ERR_WRITER_INVALID_ARG, wr) \<and>
       fst (mbedtls_writer_commit_partial wr 0) = SUCCESS \<and>
       committed (snd (mbedtls_writer_commit_partial wr 0)) = 6 \<and>
       end_ofs (snd (mbedtls_writer_commit_partial wr 0)) = 6 \<and>
       out (snd (mbedtls_writer_commit_partial wr 0)) = Some [1, 2, 3, 4])"
proof -
  define wr :: "64 mbedtls_writer" where
    "wr = \<lparr> out = Some [0, 0, 0, 0], queue = Some [1, 2, 3, 4, 5, 6, 0, 0],
                out_len = 4, queue_len = 8, committed = 0, end_ofs = 6,
                queue_next = 4, queue_remaining = 0,
                state = MBEDTLS_WRITER_CONSUMING \<rparr>"
  have st: "state wr = MBEDTLS_WRITER_CONSUMING"
    by (simp add: wr_def)
  have v: "end_ofs wr = 6" "committed wr = 0" "out_len wr = 4" "queue_next wr = 4"
    "out wr = Some [0, 0, 0, 0]" "queue wr = Some [1, 2, 3, 4, 5, 6, 0, 0]"
    by (simp_all add: wr_def)
  from commit_partial_spec [OF st, where omit = 7]
  have a: "mbedtls_writer_commit_partial wr 7 = (FAILURE MBEDTLS_ERR_WRITER_INVALID_ARG, wr)"
    by (simp add: v)
  from commit_partial_spec [OF st, where omit = 0]
  have b: "fst (mbedtls_writer_commit_partial wr 0) = SUCCESS \<and>
       committed (snd (mbedtls_writer_commit_partial wr 0)) = 6 \<and>
       end_ofs (snd (mbedtls_writer_commit_partial wr 0)) = 6 \<and>
       out (snd (mbedtls_writer_commit_partial wr 0)) = Some [1, 2, 3, 4]"
    by (simp add: v Let_def memcpy_ptr_def memcpy_def)
  from a b show ?thesis
    unfolding wr_def [symmetric] Let_def by simp
qed

subsection \<open>Queued data reaches the next buffer\<close>

lemma reclaim_queued_positive:
  fixes wr :: "'a::len mbedtls_writer"
  assumes inv: "writer_inv wr"
    and st: "state wr = MBEDTLS_WRITER_CONSUMING"
    and rec: "mbedtls_writer_reclaim wr olen (Some q0) force = (SUCCESS, wr1, olen1, Some qd)"
    and pos: "0 < qd"
  shows "out_len wr < committed wr"
    and "qd = committed wr - out_len wr"
    and "wr1 = wr\<lparr> queue_remaining := qd, end_ofs := 0, committed := 0, out := None,
                     out_len := 0, state := MBEDTLS_WRITER_PROVIDING \<rparr>"
proof -
  note D = writer_inv_consumingD [OF inv st]
  show gt: "out_len wr < committed wr"
  proof (rule ccontr)
    assume "\<not> out_len wr < committed wr"
    then have "committed wr \<le> out_len wr"
      by simp
    with rec st D(3) have "qd = 0"
      by (auto simp: mbedtls_writer_reclaim_def reclaim_finish_def Let_def assign_out_def
               split: if_splits)
    with pos show False
      by simp
  qed
  then have "\<not> committed wr \<le> out_len wr"
    by simp
  with rec st show "qd = committed wr - out_len wr"
    and "wr1 = wr\<lparr> queue_remaining := qd, end_ofs := 0, committed := 0, out := None,
                     out_len := 0, state := MBEDTLS_WRITER_PROVIDING \<rparr>"
    by (auto simp: mbedtls_writer_reclaim_def reclaim_finish_def Let_def assign_out_def)
qed

text \<open>
  C1. For a writer with a queue that satisfies the invariants: when a reclaim in
  consuming state succeeds and reports \<open>queued = qd > 0\<close> (then \<open>committed\<close> was
  \<open>out_len + qd\<close>), the next \<^verbatim>\<open>mbedtls_writer_feed\<close> of a buffer \<open>b2\<close> of length
  \<open>len2\<close> leaves in the first \<open>min qd len2\<close> bytes of \<open>b2\<close> the bytes of the queue
  from offset \<open>queue_next\<close> on, in order, and does not touch the rest of \<open>b2\<close>.
\<close>
theorem feed_after_reclaim:
  fixes wr :: "'a::len mbedtls_writer"
  assumes inv: "writer_inv wr" and bufs: "writer_bufs wr"
    and st: "state wr = MBEDTLS_WRITER_CONSUMING"
    and qb: "queue wr = Some qb"
    and rec: "mbedtls_writer_reclaim wr olen (Some q0) force = (SUCCESS, wr1, olen1, Some qd)"
    and pos: "0 < qd"
    and len: "unat len2 \<le> length b2"
    and feed: "mbedtls_writer_feed wr1 b2 len2 = (r, wr2, b2')"
  shows "unat (committed wr) = unat (out_len wr) + unat qd \<and>
         unat (queue_next wr) + unat qd \<le> length qb \<and>
         take (unat (min qd len2)) b2' =
           take (unat (min qd len2)) (drop (unat (queue_next wr)) qb) \<and>
         drop (unat (min qd len2)) b2' = drop (unat (min qd len2)) b2"
proof -
  note D = writer_inv_consumingD [OF inv st]
  note R = reclaim_queued_positive [OF inv st rec pos]
  from R(1) have gt: "unat (out_len wr) < unat (committed wr)"
    by (simp add: word_less_nat_alt)
  then have gte: "unat (out_len wr) < unat (end_ofs wr)"
    using D(2) by simp
  have qd: "unat qd = unat (committed wr) - unat (out_len wr)"
    using gt R(2) by (simp add: unat_sub_le)
  have ql: "unat (queue_len wr) \<le> length qb"
    using writer_bufs_queueD [OF bufs qb] .
  have fits: "unat (queue_next wr) + unat qd \<le> length qb"
    using D(7) [OF gte] D(2) qd ql by simp
  have st1: "state wr1 = MBEDTLS_WRITER_PROVIDING" and q1: "queue wr1 = Some qb"
    and n1: "queue_next wr1 = queue_next wr" and r1: "queue_remaining wr1 = qd"
    using R(3) qb by simp_all
  note H = feed_with_queue [OF st1 q1, where buf_len = len2 and buf = b2, unfolded n1 r1]
  have b2': "b2' = (if min qd len2 = 0 then b2
                    else memcpy b2 0 qb (unat (queue_next wr)) (unat (min qd len2)))"
    using H(1) feed by (simp split: if_splits)
  have "take (unat (min qd len2)) b2' =
           take (unat (min qd len2)) (drop (unat (queue_next wr)) qb) \<and>
         drop (unat (min qd len2)) b2' = drop (unat (min qd len2)) b2"
    using H(2) [OF fits len] unfolding b2' by simp
  then show ?thesis
    using qd gt fits by simp
qed

theorem feed_after_reclaim_witness:
  "(let wr = \<lparr> out = Some [1, 2, 3, 4], queue = Some [1, 2, 3, 4, 5, 6, 0, 0],
                out_len = 4, queue_len = 8, committed = 6, end_ofs = 6,
                queue_next = 4, queue_remaining = 0,
                state = MBEDTLS_WRITER_CONSUMING \<rparr> :: 64 mbedtls_writer;
        wr1 = wr\<lparr> queue_remaining := 2, end_ofs := 0, committed := 0, out := None,
                  out_len := 0, state := MBEDTLS_WRITER_PROVIDING \<rparr>
    in writer_inv wr \<and> writer_bufs wr \<and>
       mbedtls_writer_reclaim wr (Some 0) (Some 0) 0 = (SUCCESS, wr1, Some 4, Some 2) \<and>
       mbedtls_writer_feed wr1 [0, 0, 0] 3 =
         (SUCCESS,
          wr1\<lparr> queue_next := 0, queue_remaining := 0, out := Some [5, 6, 0], out_len := 3,
               committed := 2, end_ofs := 2, state := MBEDTLS_WRITER_CONSUMING \<rparr>,
          [5, 6, 0]) \<and>
       take (unat (min 2 (3 :: 64 word))) [5, 6, 0 :: byte] =
         take (unat (min 2 (3 :: 64 word))) (drop (unat (queue_next wr)) [1, 2, 3, 4, 5, 6, 0, 0]))"
proof -
  define wr :: "64 mbedtls_writer" where
    "wr = \<lparr> out = Some [1, 2, 3, 4], queue = Some [1, 2, 3, 4, 5, 6, 0, 0],
                out_len = 4, queue_len = 8, committed = 6, end_ofs = 6,
                queue_next = 4, queue_remaining = 0,
                state = MBEDTLS_WRITER_CONSUMING \<rparr>"
  define wr1 where "wr1 = wr\<lparr> queue_remaining := 2, end_ofs := 0, committed := 0, out := None,
                  out_len := 0, state := MBEDTLS_WRITER_PROVIDING \<rparr>"
  define wr2 where "wr2 = wr1\<lparr> queue_next := 0, queue_remaining := 0, out := Some [5, 6, 0],
               out_len := 3, committed := 2, end_ofs := 2, state := MBEDTLS_WRITER_CONSUMING \<rparr>"
  have inv: "writer_inv wr"
    by (simp add: wr_def writer_inv_def)
  have bufs: "writer_bufs wr"
    by (simp add: wr_def writer_bufs_def)
  have st: "state wr = MBEDTLS_WRITER_CONSUMING"
    and q: "queue wr = Some [1, 2, 3, 4, 5, 6, 0, 0]"
    by (simp_all add: wr_def)
  have rec: "mbedtls_writer_reclaim wr (Some 0) (Some 0) 0 = (SUCCESS, wr1, Some 4, Some 2)"
    by (simp add: wr_def wr1_def mbedtls_writer_reclaim_def reclaim_finish_def assign_out_def)
  have feed: "mbedtls_writer_feed wr1 [0, 0, 0] 3 = (SUCCESS, wr2, [5, 6, 0])"
    by (simp add: wr_def wr1_def wr2_def mbedtls_writer_feed_def Let_def memcpy_def)
  have pos: "0 < (2 :: 64 word)" and len: "unat (3 :: 64 word) \<le> length [0, 0, 0 :: byte]"
    by simp_all
  from feed_after_reclaim [OF inv bufs st q rec pos len feed] inv bufs rec feed
  show ?thesis
    unfolding wr_def [symmetric] wr1_def [symmetric] wr2_def [symmetric] Let_def
    by (simp add: wr2_def)
qed

subsection \<open>The invariant of the consuming state\<close>

lemma writer_step_inv:
  fixes wr :: "'a::len mbedtls_writer"
  assumes "writer_inv wr" "feed_fits (queue_len wr) op"
  shows "writer_inv (writer_step wr op)"
  using assms
  by (cases op) (simp_all add: feed_inv get_inv commit_partial_inv reclaim_inv)

lemma writer_step_queue_len:
  "queue_len (writer_step wr op) = queue_len wr"
  by (cases op)
     (auto simp: mbedtls_writer_feed_def mbedtls_writer_get_def mbedtls_writer_commit_partial_def
        mbedtls_writer_reclaim_def reclaim_finish_def Let_def split: option.splits)

lemma writer_run_inv:
  fixes wr :: "'a::len mbedtls_writer"
  assumes "writer_inv wr" "\<forall>op \<in> set ops. feed_fits (queue_len wr) op"
  shows "writer_inv (writer_run wr ops)"
  using assms unfolding writer_run_def
proof (induction ops arbitrary: wr)
  case Nil
  then show ?case by simp
next
  case (Cons op ops)
  have "writer_inv (writer_step wr op)"
    using Cons.prems by (simp add: writer_step_inv)
  moreover have "\<forall>op' \<in> set ops. feed_fits (queue_len (writer_step wr op)) op'"
    using Cons.prems by (simp add: writer_step_queue_len)
  ultimately show ?case
    using Cons.IH by simp
qed

lemma writer_inv_consuming_invariant:
  fixes wr :: "'a::len mbedtls_writer"
  assumes inv: "writer_inv wr" and st: "state wr = MBEDTLS_WRITER_CONSUMING"
  shows "consuming_invariant wr"
proof -
  note D = writer_inv_consumingD [OF inv st]
  have "unat (end_ofs wr) \<le> unat (out_len wr) + unat (queue_len wr)"
    using D(7) by (cases "unat (out_len wr) < unat (end_ofs wr)") simp_all
  moreover have "end_ofs wr \<le> out_len wr" if "queue wr = None"
    using that D(6) by (auto simp: word_le_nat_alt not_less [symmetric])
  ultimately show ?thesis
    using D(2) D(5) by (auto simp: consuming_invariant_def word_le_nat_alt word_less_nat_alt)
qed

text \<open>
  What does hold after any sequence of feed, get, commit_partial and reclaim calls
  on an initialised writer (whatever each call returns), where every fed length
  plus the queue length fits the size type: a writer in consuming state satisfies
  \<open>committed \<le> end \<le> out_len + queue_len\<close>; if \<open>end < out_len\<close> then \<open>queue_next = 0\<close>;
  if the queue is \<^verbatim>\<open>NULL\<close> then \<open>end \<le> out_len\<close>.
\<close>

lemma writer_run_consuming_invariant:
  fixes qlen :: "'a::len word"
  assumes "\<forall>op \<in> set ops. feed_fits qlen op"
    and "state (writer_run (mbedtls_writer_init q qlen) ops) = MBEDTLS_WRITER_CONSUMING"
  shows "consuming_invariant (writer_run (mbedtls_writer_init q qlen) ops)"
proof -
  have "queue_len (mbedtls_writer_init q qlen) = qlen"
    by (simp add: mbedtls_writer_init_def)
  with assms(1) have "writer_inv (writer_run (mbedtls_writer_init q qlen) ops)"
    by (intro writer_run_inv init_inv) simp
  then show ?thesis
    using assms(2) by (rule writer_inv_consuming_invariant)
qed

text \<open>
  C4. The invariant of the consuming state requires \<open>queue_next = 0\<close> whenever
  \<open>end \<le> out_len\<close>; so does the comment \<^verbatim>\<open>queue_next must be 0 if end <= ol\<close> in
  \<^verbatim>\<open>mbedtls_writer_reclaim\<close>, which resets \<open>queue_next\<close> for \<open>committed \<le> out_len\<close>.
  \<^verbatim>\<open>mbedtls_writer_commit_partial\<close> resets it only for \<open>to_be_committed < out_len\<close>, and
  the code breaks the invariant: feed a 10-byte buffer to a writer with a 100-byte
  queue, get 15 bytes (served from the queue, with \<open>end = 15\<close> and \<open>queue_next = 10\<close>)
  and commit with \<open>omit = 5\<close>. The writer is then in consuming state with
  \<open>end = committed = out_len = 10\<close>, so \<open>end \<le> out_len\<close>, and \<open>queue_next\<close> is still \<open>10\<close>.
\<close>
theorem commit_partial_stale_queue_next:
  "(let wr0 = mbedtls_writer_init (Some (replicate 100 0)) (100 :: 64 word);
        wr1 = writer_run wr0 [Feed (replicate 10 0) 10, Get 15 False];
        wr2 = writer_run wr0 [Feed (replicate 10 0) 10, Get 15 False, Commit_partial 5]
    in state wr1 = MBEDTLS_WRITER_CONSUMING \<and> out_len wr1 = 10 \<and> committed wr1 = 0 \<and>
       end_ofs wr1 = 15 \<and> queue_next wr1 = 10 \<and>
       mbedtls_writer_commit_partial wr1 5 = (SUCCESS, wr2) \<and>
       state wr2 = MBEDTLS_WRITER_CONSUMING \<and> out_len wr2 = 10 \<and> queue_len wr2 = 100 \<and>
       committed wr2 = 10 \<and> end_ofs wr2 = 10 \<and> end_ofs wr2 \<le> out_len wr2 \<and>
       queue_next wr2 = 10 \<and> queue_next wr2 \<noteq> 0)"
  by (simp add: writer_run_def mbedtls_writer_init_def mbedtls_writer_feed_def
      mbedtls_writer_get_def mbedtls_writer_commit_partial_def commit_copy_len_def
      memcpy_ptr_def memcpy_def Let_def)

text \<open>
  So the invariant as the specification states it, with \<open>end \<le> out_len\<close> in the
  second part, does not hold of that writer.
\<close>

lemma spec_consuming_invariant_broken:
  "state (writer_run (mbedtls_writer_init (Some (replicate 100 0)) (100 :: 64 word))
            [Feed (replicate 10 0) 10, Get 15 False, Commit_partial 5])
     = MBEDTLS_WRITER_CONSUMING \<and>
   \<not> spec_consuming_invariant
        (writer_run (mbedtls_writer_init (Some (replicate 100 0)) (100 :: 64 word))
            [Feed (replicate 10 0) 10, Get 15 False, Commit_partial 5])"
  by (simp add: writer_run_def mbedtls_writer_init_def mbedtls_writer_feed_def
      mbedtls_writer_get_def mbedtls_writer_commit_partial_def spec_consuming_invariant_def
      Let_def)

section \<open>Properties of the extended writer\<close>

lemma get_ext_blocked:
  "passthrough x = MBEDTLS_WRITER_EXT_BLOCK \<Longrightarrow>
   mbedtls_writer_get_ext x h desired buffer buflen =
     (FAILURE MBEDTLS_ERR_MPS_OPERATION_UNEXPECTED, x, h, buffer, buflen)"
  by (simp add: mbedtls_writer_get_ext_def)

lemma commit_partial_ext_blocked:
  "passthrough x = MBEDTLS_WRITER_EXT_BLOCK \<Longrightarrow>
   mbedtls_writer_commit_partial_ext x h omit =
     (FAILURE MBEDTLS_ERR_MPS_OPERATION_UNEXPECTED, x, h)"
  by (simp add: mbedtls_writer_commit_partial_ext_def)

lemma group_open_keeps:
  "passthrough (snd (mbedtls_writer_group_open x n)) = passthrough x"
  "ofs_fetch (snd (mbedtls_writer_group_open x n)) = ofs_fetch x"
  "ofs_commit (snd (mbedtls_writer_group_open x n)) = ofs_commit x"
  by (simp_all add: mbedtls_writer_group_open_def Let_def)

lemma group_close_keeps:
  "passthrough (snd (mbedtls_writer_group_close x)) = passthrough x"
  "ofs_fetch (snd (mbedtls_writer_group_close x)) = ofs_fetch x"
  "ofs_commit (snd (mbedtls_writer_group_close x)) = ofs_commit x"
  by (simp_all add: mbedtls_writer_group_close_def Let_def)

lemma ext_step_blocked:
  assumes b: "passthrough x = MBEDTLS_WRITER_EXT_BLOCK"
    and step: "ext_step (x, h) op = (r, x', h')"
  shows "passthrough x' = MBEDTLS_WRITER_EXT_BLOCK \<and>
         ofs_fetch x' = ofs_fetch x \<and> ofs_commit x' = ofs_commit x \<and>
         (get_or_commit op \<longrightarrow>
            r = FAILURE MBEDTLS_ERR_MPS_OPERATION_UNEXPECTED \<and> x' = x \<and> h' = h)"
proof (cases op)
  case (Get_ext d wb)
  with step b show ?thesis
    by (simp add: get_ext_blocked)
next
  case (Commit_partial_ext omit)
  with step b show ?thesis
    by (simp add: commit_partial_ext_blocked)
next
  case Commit_ext
  with step b show ?thesis
    by (simp add: commit_partial_ext_blocked mbedtls_writer_commit_ext_def)
next
  case (Group_open n)
  with step have "x' = snd (mbedtls_writer_group_open x n)"
    by (simp split: prod.splits)
  with Group_open b show ?thesis
    by (simp add: group_open_keeps)
next
  case Group_close
  with step have "x' = snd (mbedtls_writer_group_close x)"
    by (simp split: prod.splits)
  with Group_close b show ?thesis
    by (simp add: group_close_keeps)
qed

lemma commit_partial_ext_pass:
  "passthrough (fst (snd (mbedtls_writer_commit_partial_ext x h omit))) =
     (if passthrough x = MBEDTLS_WRITER_EXT_HOLD \<and> 0 < omit \<and>
         fst (mbedtls_writer_commit_partial_ext x h omit) = SUCCESS
      then MBEDTLS_WRITER_EXT_BLOCK else passthrough x)"
proof (cases "ext_wr x = NULL \<or> passthrough x = MBEDTLS_WRITER_EXT_BLOCK \<or>
              omit > ofs_fetch x - ofs_commit x")
  case True
  then show ?thesis
    by (auto simp: mbedtls_writer_commit_partial_ext_def Let_def)
next
  case False
  obtain r w' where cp: "mbedtls_writer_commit_partial (h (ext_wr x)) omit = (r, w')"
    by (cases "mbedtls_writer_commit_partial (h (ext_wr x)) omit")
  show ?thesis
  proof (cases "passthrough x")
    case MBEDTLS_WRITER_EXT_PASS
    with False cp show ?thesis
      by (simp add: mbedtls_writer_commit_partial_ext_def Let_def)
  next
    case MBEDTLS_WRITER_EXT_HOLD
    with False show ?thesis
      by (simp add: mbedtls_writer_commit_partial_ext_def Let_def)
  next
    case MBEDTLS_WRITER_EXT_BLOCK
    with False show ?thesis
      by simp
  qed
qed

lemma get_ext_pass:
  "passthrough (fst (snd (mbedtls_writer_get_ext x h desired buffer buflen))) = passthrough x"
  by (auto simp: mbedtls_writer_get_ext_def Let_def split: prod.splits)

lemma ext_step_hold:
  assumes "passthrough x = MBEDTLS_WRITER_EXT_HOLD"
    and "ext_step (x, h) op = (r, x', h')"
  shows "passthrough x' =
           (if partial_commit_ok (op, r, x', h') then MBEDTLS_WRITER_EXT_BLOCK
            else MBEDTLS_WRITER_EXT_HOLD)"
proof (cases op)
  case (Get_ext d b)
  with assms get_ext_pass [of x h d None "if b then Some 0 else None"] show ?thesis
    by (auto split: prod.splits)
next
  case (Commit_partial_ext omit)
  with assms commit_partial_ext_pass [of x h omit] show ?thesis
    by (auto split: if_splits)
next
  case Commit_ext
  with assms commit_partial_ext_pass [of x h 0] show ?thesis
    by (auto simp: mbedtls_writer_commit_ext_def)
next
  case (Group_open n)
  with assms group_open_keeps(1) [of x n] show ?thesis
    by (auto split: prod.splits)
next
  case Group_close
  with assms group_close_keeps(1) [of x] show ?thesis
    by (auto split: prod.splits)
qed

lemma ext_trace_blocked:
  assumes "passthrough x = MBEDTLS_WRITER_EXT_BLOCK"
  shows "\<forall>(op, r, x', h') \<in> set (ext_trace (x, h) ops).
           passthrough x' = MBEDTLS_WRITER_EXT_BLOCK \<and>
           ofs_fetch x' = ofs_fetch x \<and> ofs_commit x' = ofs_commit x \<and>
           (get_or_commit op \<longrightarrow> r = FAILURE MBEDTLS_ERR_MPS_OPERATION_UNEXPECTED)"
  using assms
proof (induction ops arbitrary: x h)
  case Nil
  then show ?case by simp
next
  case (Cons op ops)
  obtain r x' h' where step: "ext_step (x, h) op = (r, x', h')"
    by (metis prod_cases3)
  note B = ext_step_blocked [OF Cons.prems step]
  from B have b': "passthrough x' = MBEDTLS_WRITER_EXT_BLOCK"
    by simp
  from Cons.IH [OF b', of h'] B show ?case
    by (auto simp: step)
qed

lemma ext_trace_blocked_count:
  assumes "passthrough x = MBEDTLS_WRITER_EXT_BLOCK"
  shows "filter partial_commit_ok (ext_trace (x, h) ops) = []"
  using assms
proof (induction ops arbitrary: x h)
  case Nil
  then show ?case by simp
next
  case (Cons op ops)
  obtain r x' h' where step: "ext_step (x, h) op = (r, x', h')"
    by (metis prod_cases3)
  note B = ext_step_blocked [OF Cons.prems step]
  from B have b': "passthrough x' = MBEDTLS_WRITER_EXT_BLOCK"
    by simp
  have "\<not> partial_commit_ok (op, r, x', h')"
    using B by (cases op) auto
  with Cons.IH [OF b', of h'] show ?case
    by (simp add: step)
qed

lemma ext_trace_hold_count:
  assumes "passthrough x = MBEDTLS_WRITER_EXT_HOLD"
  shows "length (filter partial_commit_ok (ext_trace (x, h) ops)) \<le> 1"
  using assms
proof (induction ops arbitrary: x h)
  case Nil
  then show ?case by simp
next
  case (Cons op ops)
  obtain r x' h' where step: "ext_step (x, h) op = (r, x', h')"
    by (metis prod_cases3)
  note H = ext_step_hold [OF Cons.prems step]
  show ?case
  proof (cases "partial_commit_ok (op, r, x', h')")
    case True
    with H have "passthrough x' = MBEDTLS_WRITER_EXT_BLOCK"
      by simp
    from ext_trace_blocked_count [OF this, of h' ops] True show ?thesis
      by (simp add: step)
  next
    case False
    with H have "passthrough x' = MBEDTLS_WRITER_EXT_HOLD"
      by simp
    from Cons.IH [OF this, of h'] False show ?thesis
      by (simp add: step)
  qed
qed

text \<open>
  C7. For an extended writer in passthrough mode \<^verbatim>\<open>MBEDTLS_WRITER_EXT_HOLD\<close>: in any
  sequence of calls at most one \<^verbatim>\<open>mbedtls_writer_commit_partial_ext\<close> with
  \<open>omit > 0\<close> succeeds; such a successful call sets the mode to
  \<^verbatim>\<open>MBEDTLS_WRITER_EXT_BLOCK\<close>; a call with \<open>omit = 0\<close> (also as
  \<^verbatim>\<open>mbedtls_writer_commit_ext\<close>) leaves the mode at HOLD; and in mode BLOCK every
  \<^verbatim>\<open>mbedtls_writer_get_ext\<close>, \<^verbatim>\<open>mbedtls_writer_commit_partial_ext\<close> and
  \<^verbatim>\<open>mbedtls_writer_commit_ext\<close> fails and changes nothing, the mode stays BLOCK and
  the offsets \<open>ofs_fetch\<close> and \<open>ofs_commit\<close> stay as they are through any sequence of
  calls.
\<close>
theorem hold_single_partial_commit:
  fixes x :: "'a::len mbedtls_writer_ext"
  assumes "passthrough x = MBEDTLS_WRITER_EXT_HOLD"
  shows "length (filter partial_commit_ok (ext_trace (x, h) ops)) \<le> 1 \<and>
         (0 < omit \<and> fst (mbedtls_writer_commit_partial_ext x h omit) = SUCCESS \<longrightarrow>
            passthrough (fst (snd (mbedtls_writer_commit_partial_ext x h omit)))
              = MBEDTLS_WRITER_EXT_BLOCK) \<and>
         passthrough (fst (snd (mbedtls_writer_commit_partial_ext x h 0)))
           = MBEDTLS_WRITER_EXT_HOLD \<and>
         passthrough (fst (snd (mbedtls_writer_commit_ext x h))) = MBEDTLS_WRITER_EXT_HOLD \<and>
         (\<forall>xb :: 'a mbedtls_writer_ext. passthrough xb = MBEDTLS_WRITER_EXT_BLOCK \<longrightarrow>
            (\<forall>hb desired buffer buflen om.
               mbedtls_writer_get_ext xb hb desired buffer buflen =
                 (FAILURE MBEDTLS_ERR_MPS_OPERATION_UNEXPECTED, xb, hb, buffer, buflen) \<and>
               mbedtls_writer_commit_partial_ext xb hb om =
                 (FAILURE MBEDTLS_ERR_MPS_OPERATION_UNEXPECTED, xb, hb) \<and>
               mbedtls_writer_commit_ext xb hb =
                 (FAILURE MBEDTLS_ERR_MPS_OPERATION_UNEXPECTED, xb, hb)) \<and>
            (\<forall>hb opsb. \<forall>(op, r, x', h') \<in> set (ext_trace (xb, hb) opsb).
               passthrough x' = MBEDTLS_WRITER_EXT_BLOCK \<and>
               ofs_fetch x' = ofs_fetch xb \<and> ofs_commit x' = ofs_commit xb \<and>
               (get_or_commit op \<longrightarrow> r = FAILURE MBEDTLS_ERR_MPS_OPERATION_UNEXPECTED)))"
proof (intro conjI allI impI)
  show "length (filter partial_commit_ok (ext_trace (x, h) ops)) \<le> 1"
    by (rule ext_trace_hold_count [OF assms])
  show "passthrough (fst (snd (mbedtls_writer_commit_partial_ext x h omit)))
              = MBEDTLS_WRITER_EXT_BLOCK"
    if "0 < omit \<and> fst (mbedtls_writer_commit_partial_ext x h omit) = SUCCESS"
    using that assms commit_partial_ext_pass [of x h omit] by simp
  show "passthrough (fst (snd (mbedtls_writer_commit_partial_ext x h 0)))
           = MBEDTLS_WRITER_EXT_HOLD"
    using assms commit_partial_ext_pass [of x h 0] by simp
  then show "passthrough (fst (snd (mbedtls_writer_commit_ext x h))) = MBEDTLS_WRITER_EXT_HOLD"
    by (simp add: mbedtls_writer_commit_ext_def)
next
  fix xb :: "'a mbedtls_writer_ext" and hb desired buffer buflen om
  assume b: "passthrough xb = MBEDTLS_WRITER_EXT_BLOCK"
  show "mbedtls_writer_get_ext xb hb desired buffer buflen =
                 (FAILURE MBEDTLS_ERR_MPS_OPERATION_UNEXPECTED, xb, hb, buffer, buflen)"
    by (rule get_ext_blocked [OF b])
  show "mbedtls_writer_commit_partial_ext xb hb om =
                 (FAILURE MBEDTLS_ERR_MPS_OPERATION_UNEXPECTED, xb, hb)"
    by (rule commit_partial_ext_blocked [OF b])
  show "mbedtls_writer_commit_ext xb hb =
                 (FAILURE MBEDTLS_ERR_MPS_OPERATION_UNEXPECTED, xb, hb)"
    by (simp add: mbedtls_writer_commit_ext_def commit_partial_ext_blocked [OF b])
next
  fix xb :: "'a mbedtls_writer_ext" and hb opsb
  assume b: "passthrough xb = MBEDTLS_WRITER_EXT_BLOCK"
  show "\<forall>(op, r, x', h') \<in> set (ext_trace (xb, hb) opsb).
               passthrough x' = MBEDTLS_WRITER_EXT_BLOCK \<and>
               ofs_fetch x' = ofs_fetch xb \<and> ofs_commit x' = ofs_commit xb \<and>
               (get_or_commit op \<longrightarrow> r = FAILURE MBEDTLS_ERR_MPS_OPERATION_UNEXPECTED)"
    by (rule ext_trace_blocked [OF b])
qed

theorem hold_single_partial_commit_witness:
  "(let w = \<lparr> out = Some (replicate 16 0), queue = None, out_len = 16, queue_len = 0,
               committed = 0, end_ofs = 0, queue_next = 0, queue_remaining = 0,
               state = MBEDTLS_WRITER_CONSUMING \<rparr> :: 64 mbedtls_writer;
        h = (\<lambda>_ :: nat. mbedtls_writer_free)(1 := w);
        x = (mbedtls_writer_init_ext MBEDTLS_MPS_SIZE_UNKNOWN)
              \<lparr> passthrough := MBEDTLS_WRITER_EXT_HOLD, ext_wr := 1 \<rparr>;
        ops = [Get_ext 5 False, Commit_partial_ext 2, Commit_partial_ext 1,
               Get_ext 1 False, Commit_ext]
    in passthrough x = MBEDTLS_WRITER_EXT_HOLD \<and>
       map (\<lambda>(op, r, x', h'). (r, passthrough x', ofs_fetch x', ofs_commit x'))
         (ext_trace (x, h) ops) =
         [(SUCCESS, MBEDTLS_WRITER_EXT_HOLD, 5, 0),
          (SUCCESS, MBEDTLS_WRITER_EXT_BLOCK, 5, 3),
          (FAILURE MBEDTLS_ERR_MPS_OPERATION_UNEXPECTED, MBEDTLS_WRITER_EXT_BLOCK, 5, 3),
          (FAILURE MBEDTLS_ERR_MPS_OPERATION_UNEXPECTED, MBEDTLS_WRITER_EXT_BLOCK, 5, 3),
          (FAILURE MBEDTLS_ERR_MPS_OPERATION_UNEXPECTED, MBEDTLS_WRITER_EXT_BLOCK, 5, 3)] \<and>
       length (filter partial_commit_ok (ext_trace (x, h) ops)) \<le> 1)"
proof -
  define w :: "64 mbedtls_writer" where
    "w = \<lparr> out = Some (replicate 16 0), queue = None, out_len = 16, queue_len = 0,
               committed = 0, end_ofs = 0, queue_next = 0, queue_remaining = 0,
               state = MBEDTLS_WRITER_CONSUMING \<rparr>"
  define h :: "64 writer_heap" where "h = (\<lambda>_ :: nat. mbedtls_writer_free)(1 := w)"
  define x :: "64 mbedtls_writer_ext" where
    "x = (mbedtls_writer_init_ext MBEDTLS_MPS_SIZE_UNKNOWN)
              \<lparr> passthrough := MBEDTLS_WRITER_EXT_HOLD, ext_wr := 1 \<rparr>"
  define ops :: "64 word ext_op list" where
    "ops = [Get_ext 5 False, Commit_partial_ext 2, Commit_partial_ext 1,
               Get_ext 1 False, Commit_ext]"
  have hold: "passthrough x = MBEDTLS_WRITER_EXT_HOLD"
    by (simp add: x_def)
  have tr: "map (\<lambda>(op, r, x', h'). (r, passthrough x', ofs_fetch x', ofs_commit x'))
         (ext_trace (x, h) ops) =
         [(SUCCESS, MBEDTLS_WRITER_EXT_HOLD, 5, 0),
          (SUCCESS, MBEDTLS_WRITER_EXT_BLOCK, 5, 3),
          (FAILURE MBEDTLS_ERR_MPS_OPERATION_UNEXPECTED, MBEDTLS_WRITER_EXT_BLOCK, 5, 3),
          (FAILURE MBEDTLS_ERR_MPS_OPERATION_UNEXPECTED, MBEDTLS_WRITER_EXT_BLOCK, 5, 3),
          (FAILURE MBEDTLS_ERR_MPS_OPERATION_UNEXPECTED, MBEDTLS_WRITER_EXT_BLOCK, 5, 3)]"
    by (simp add: x_def h_def w_def ops_def mbedtls_writer_init_ext_def
        MBEDTLS_MPS_SIZE_UNKNOWN_def NULL_def mbedtls_writer_get_ext_def
        mbedtls_writer_get_def mbedtls_writer_commit_ext_def
        mbedtls_writer_commit_partial_ext_def assign_out_def Let_def)
  from hold_single_partial_commit [OF hold, of h ops] hold tr show ?thesis
    unfolding w_def [symmetric] h_def [symmetric] x_def [symmetric] ops_def [symmetric] Let_def
    by simp
qed

section \<open>Properties of Layer 3\<close>

subsection \<open>Incoming messages\<close>

lemma unat_byte_lt: "unat (b :: byte) < 256"
  using unsigned_less [of b, where 'a = nat] by simp

lemma ucast_byte_unat: "unat (ucast (b :: byte) :: 32 word) = unat b"
proof -
  have "unat b < 2 ^ 32"
    using unat_byte_lt [of b] by simp
  then show ?thesis
    by (simp add: unsigned_ucast_eq take_bit_nat_eq_self)
qed

lemma read_uint24_unat:
  "unat (MPS_READ_UINT24_BE src i) =
     unat (src ! i) * 65536 + unat (src ! (i + 1)) * 256 + unat (src ! (i + 2))"
proof -
  define a where "a = (ucast (src ! i) :: 32 word)"
  define b where "b = (ucast (src ! (i + 1)) :: 32 word)"
  define c where "c = (ucast (src ! (i + 2)) :: 32 word)"
  have ua: "unat a = unat (src ! i)" and ub: "unat b = unat (src ! (i + 1))"
    and uc: "unat c = unat (src ! (i + 2))"
    by (simp_all add: a_def b_def c_def ucast_byte_unat)
  have la: "unat a < 256" and lb: "unat b < 256" and lc: "unat c < 256"
    using unat_byte_lt ua ub uc by simp_all
  have ma: "unat (a * 65536) = unat a * 65536"
    using la by (simp add: unat_word_ariths)
  have mb: "unat (b * 256) = unat b * 256"
    using lb by (simp add: unat_word_ariths)
  have s1: "unat (a * 65536 + b * 256) = unat a * 65536 + unat b * 256"
    using la lb ma mb by (simp add: unat_word_ariths(1))
  have s2: "unat (a * 65536 + b * 256 + c) = unat a * 65536 + unat b * 256 + unat c"
    using la lb lc s1 by (simp add: unat_word_ariths(1) [of "a * 65536 + b * 256" c])
  have "MPS_READ_UINT24_BE src i = a * 65536 + b * 256 + c"
    by (simp add: MPS_READ_UINT24_BE_def push_bit_eq_mult a_def b_def c_def)
  then show ?thesis
    using s2 ua ub uc by simp
qed

lemma read_uint24_bound: "unat (MPS_READ_UINT24_BE src i) < 2 ^ 24"
  using unat_byte_lt [of "src ! i"] unat_byte_lt [of "src ! (i + 1)"]
    unat_byte_lt [of "src ! (i + 2)"]
  by (simp add: read_uint24_unat)

lemma uint24_sum_exact:
  fixes x y z :: "32 word"
  assumes "unat x < 2 ^ 24" "unat y < 2 ^ 24"
  shows "x + y > z \<longleftrightarrow> unat x + unat y > unat z"
proof -
  have "unat x + unat y < 2 ^ 32"
    using assms by simp
  then have "unat (x + y) = unat x + unat y"
    by (simp add: unat_add_lem [where 'a = 32, simplified])
  then show ?thesis
    by (simp add: word_less_nat_alt)
qed

lemma l3_same_alert [simp]:
  "l3\<lparr> io_in := (io_in l3)\<lparr> in_alert := in_alert (io_in l3) \<rparr> \<rparr> = l3"
  by simp

text \<open>
  C9, as amended. When \<^verbatim>\<open>mps_l3_read\<close> gets a record of type alert from Layer 2
  and the reader signals \<^verbatim>\<open>MBEDTLS_ERR_READER_OUT_OF_DATA\<close> for the two bytes of
  the alert: in DTLS mode the read fails with \<^verbatim>\<open>MBEDTLS_ERR_MPS_INVALID_CONTENT\<close>
  (and the record is not given back); in TLS mode \<^verbatim>\<open>mps_l2_read_done\<close> is called,
  and the read returns \<^verbatim>\<open>MBEDTLS_ERR_MPS_RETRY\<close> if that call succeeds and the
  error of that call otherwise. Layer 3 itself is unchanged in both modes.
\<close>
theorem alert_out_of_data:
  fixes deps :: "('l2, 'rd, 'rx, 'a::len) mps_l3_deps"
  assumes st: "in_state (io_in l3) = MBEDTLS_MPS_MSG_NONE"
    and start: "mps_l2_read_start deps l2 = (SUCCESS, inp, l2a)"
    and ty: "l2_in_type inp = MBEDTLS_MPS_MSG_ALERT"
    and get: "mbedtls_reader_get deps (l2_in_rd inp) MPS_TLS_ALERT_SIZE l2a =
                (FAILURE MBEDTLS_ERR_READER_OUT_OF_DATA, tmp, l2b)"
  shows "(conf_mode l3 = MBEDTLS_MPS_MODE_DATAGRAM \<longrightarrow>
            mps_l3_read deps l3 l2 = (Inl MBEDTLS_ERR_MPS_INVALID_CONTENT, l3, l2b)) \<and>
         (conf_mode l3 = MBEDTLS_MPS_MODE_STREAM \<longrightarrow>
            mps_l3_read deps l3 l2 =
              (case mps_l2_read_done deps l2b of
                 (res, l2c) \<Rightarrow>
                   (case res of
                      SUCCESS \<Rightarrow> (Inl MBEDTLS_ERR_MPS_RETRY, l3, l2c)
                    | FAILURE e \<Rightarrow> (Inl e, l3, l2c))))"
proof -
  have pa: "l3_parse_alert deps (l2_in_rd inp) (in_alert (io_in l3)) l2a =
              (FAILURE MBEDTLS_ERR_READER_OUT_OF_DATA, in_alert (io_in l3), l2b)"
    using get by (simp add: l3_parse_alert_def)
  have rd: "mps_l3_read deps l3 l2 =
              mps_l3_read_out_of_data deps l3 l2b (mps_l3_read_finish l3 inp l2b)"
    using st start ty pa by (simp add: mps_l3_read_def)
  show ?thesis
    unfolding rd
    by (auto simp: mps_l3_read_out_of_data_def MBEDTLS_MPS_IS_DTLS_def MBEDTLS_MPS_IS_TLS_def
        split: prod.splits ret.splits)
qed

theorem alert_out_of_data_witness:
  "mps_l3_read
     (sample_deps MBEDTLS_MPS_MSG_ALERT (FAILURE MBEDTLS_ERR_READER_OUT_OF_DATA) [] SUCCESS)
     (sample_l3 MBEDTLS_MPS_MODE_DATAGRAM) 0 =
     (Inl MBEDTLS_ERR_MPS_INVALID_CONTENT, sample_l3 MBEDTLS_MPS_MODE_DATAGRAM, 0) \<and>
   mps_l3_read
     (sample_deps MBEDTLS_MPS_MSG_ALERT (FAILURE MBEDTLS_ERR_READER_OUT_OF_DATA) [] SUCCESS)
     (sample_l3 MBEDTLS_MPS_MODE_STREAM) 0 =
     (Inl MBEDTLS_ERR_MPS_RETRY, sample_l3 MBEDTLS_MPS_MODE_STREAM, 1)"
proof -
  let ?d = "sample_deps MBEDTLS_MPS_MSG_ALERT (FAILURE MBEDTLS_ERR_READER_OUT_OF_DATA) [] SUCCESS"
  let ?inp = "\<lparr> l2_in_type = MBEDTLS_MPS_MSG_ALERT, l2_in_epoch = 0, l2_in_rd = () \<rparr>"
  have st: "in_state (io_in (sample_l3 m)) = MBEDTLS_MPS_MSG_NONE" for m
    by (simp add: sample_l3_def mps_l3_init_def)
  have start: "mps_l2_read_start ?d 0 = (SUCCESS, ?inp, 0)"
    by (simp add: sample_deps_def)
  have ty: "l2_in_type ?inp = MBEDTLS_MPS_MSG_ALERT"
    by simp
  have get: "mbedtls_reader_get ?d (l2_in_rd ?inp) MPS_TLS_ALERT_SIZE 0 =
               (FAILURE MBEDTLS_ERR_READER_OUT_OF_DATA, [], 0)"
    by (simp add: sample_deps_def)
  have m: "conf_mode (sample_l3 m) = m" for m
    by (simp add: sample_l3_def mps_l3_init_def)
  have dn: "mps_l2_read_done ?d 0 = (SUCCESS, 1)"
    by (simp add: sample_deps_def)
  from alert_out_of_data [OF st start ty get, of MBEDTLS_MPS_MODE_DATAGRAM]
    alert_out_of_data [OF st start ty get, of MBEDTLS_MPS_MODE_STREAM]
  show ?thesis
    by (simp add: m dn)
qed

text \<open>
  As stated (in TLS mode the read returns RETRY), C9 fails when
  \<^verbatim>\<open>mps_l2_read_done\<close> fails: the read returns that error.
\<close>
theorem alert_out_of_data_counterexample:
  "conf_mode (sample_l3 MBEDTLS_MPS_MODE_STREAM) = MBEDTLS_MPS_MODE_STREAM \<and>
   mps_l3_read
     (sample_deps MBEDTLS_MPS_MSG_ALERT (FAILURE MBEDTLS_ERR_READER_OUT_OF_DATA) []
        (FAILURE MBEDTLS_ERR_MPS_INTERNAL_ERROR))
     (sample_l3 MBEDTLS_MPS_MODE_STREAM) 0 =
     (Inl MBEDTLS_ERR_MPS_INTERNAL_ERROR, sample_l3 MBEDTLS_MPS_MODE_STREAM, 1) \<and>
   fst (mps_l3_read
     (sample_deps MBEDTLS_MPS_MSG_ALERT (FAILURE MBEDTLS_ERR_READER_OUT_OF_DATA) []
        (FAILURE MBEDTLS_ERR_MPS_INTERNAL_ERROR))
     (sample_l3 MBEDTLS_MPS_MODE_STREAM) 0) \<noteq> Inl MBEDTLS_ERR_MPS_RETRY"
  by (simp add: sample_l3_def mps_l3_init_def sample_deps_def mps_l3_read_def
      l3_parse_alert_def mps_l3_read_out_of_data_def MBEDTLS_MPS_IS_DTLS_def
      MBEDTLS_MPS_IS_TLS_def)

lemma parse_hs_header_dtls_result:
  fixes deps :: "('l2, 'rd, 'rx, 'a::len) mps_l3_deps" and hs :: "'rx mps_l3_hs_in_internal"
  assumes get: "mbedtls_reader_get deps rd 13 l2 = (SUCCESS, tmp, l2a)"
    and commit: "mbedtls_reader_commit deps rd l2a = (SUCCESS, l2b)"
  defines "hs1 \<equiv> hs\<lparr> hs_in_type := tmp ! 0,
                       hs_in_len := MPS_READ_UINT24_BE tmp 1,
                       hs_in_seq_nr := MPS_READ_UINT16_BE tmp 4,
                       hs_in_frag_offset := MPS_READ_UINT24_BE tmp 7,
                       hs_in_frag_len := MPS_READ_UINT24_BE tmp 10 \<rparr>"
  shows "l3_parse_hs_header_dtls deps rd hs l2 =
           (if unat (MPS_READ_UINT24_BE tmp 7) + unat (MPS_READ_UINT24_BE tmp 10)
                 > unat (MPS_READ_UINT24_BE tmp 1)
            then (FAILURE MBEDTLS_ERR_MPS_INVALID_CONTENT, hs1, l2b)
            else (SUCCESS, hs1, l2b))"
  using get commit
    uint24_sum_exact [OF read_uint24_bound [of tmp 7] read_uint24_bound [of tmp 10],
      of "MPS_READ_UINT24_BE tmp 1"]
  by (simp add: l3_parse_hs_header_dtls_def hs1_def Let_def)

text \<open>
  C8. When \<^verbatim>\<open>mps_l3_read\<close> in DTLS mode gets a handshake record while no handshake
  message is open and the 13 bytes of the header are fetched and committed
  successfully, then with the three 24-bit fields read from the header (each
  below \<open>2^24\<close>, so that their 32-bit sum is exact): if
  \<open>frag_offset + frag_len > len\<close>, the header parser and the read fail with
  \<^verbatim>\<open>MBEDTLS_ERR_MPS_INVALID_CONTENT\<close>; if \<open>frag_offset + frag_len \<le> len\<close>, the parser
  succeeds and the read goes on to set up the extended reader with \<open>frag_len\<close>.
\<close>
theorem dtls_hs_header_fragment_check:
  fixes deps :: "('l2, 'rd, 'rx, 'a::len) mps_l3_deps"
  assumes st: "in_state (io_in l3) = MBEDTLS_MPS_MSG_NONE"
    and mode: "conf_mode l3 = MBEDTLS_MPS_MODE_DATAGRAM"
    and hsst: "hs_in_state (in_hs (io_in l3)) = MPS_L3_HS_NONE"
    and start: "mps_l2_read_start deps l2 = (SUCCESS, inp, l2a)"
    and ty: "l2_in_type inp = MBEDTLS_MPS_MSG_HS"
    and get: "mbedtls_reader_get deps (l2_in_rd inp) 13 l2a = (SUCCESS, tmp, l2b)"
    and commit: "mbedtls_reader_commit deps (l2_in_rd inp) l2b = (SUCCESS, l2c)"
  shows "(let len = MPS_READ_UINT24_BE tmp 1;
              frag_offset = MPS_READ_UINT24_BE tmp 7;
              frag_len = MPS_READ_UINT24_BE tmp 10;
              hs1 = (in_hs (io_in l3))\<lparr> hs_in_type := tmp ! 0,
                       hs_in_len := len,
                       hs_in_seq_nr := MPS_READ_UINT16_BE tmp 4,
                       hs_in_frag_offset := frag_offset,
                       hs_in_frag_len := frag_len \<rparr>
          in unat frag_offset < 2 ^ 24 \<and> unat frag_len < 2 ^ 24 \<and> unat len < 2 ^ 24 \<and>
             (unat frag_offset + unat frag_len > unat len \<longrightarrow>
                l3_parse_hs_header_dtls deps (l2_in_rd inp) (in_hs (io_in l3)) l2a =
                  (FAILURE MBEDTLS_ERR_MPS_INVALID_CONTENT, hs1, l2c) \<and>
                mps_l3_read deps l3 l2 =
                  (Inl MBEDTLS_ERR_MPS_INVALID_CONTENT,
                   l3\<lparr> io_in := (io_in l3)\<lparr> in_hs := hs1 \<rparr> \<rparr>, l2c)) \<and>
             (unat frag_offset + unat frag_len \<le> unat len \<longrightarrow>
                l3_parse_hs_header_dtls deps (l2_in_rd inp) (in_hs (io_in l3)) l2a =
                  (SUCCESS, hs1, l2c) \<and>
                mps_l3_read deps l3 l2 =
                  mps_l3_read_hs_attach deps
                    (l3\<lparr> io_in := (io_in l3)\<lparr> in_hs :=
                        hs1\<lparr> hs_in_rd_ext := mbedtls_reader_init_ext deps frag_len \<rparr> \<rparr> \<rparr>)
                    inp l2c))"
proof -
  define hs1 where "hs1 = (in_hs (io_in l3))\<lparr> hs_in_type := tmp ! 0,
                       hs_in_len := MPS_READ_UINT24_BE tmp 1,
                       hs_in_seq_nr := MPS_READ_UINT16_BE tmp 4,
                       hs_in_frag_offset := MPS_READ_UINT24_BE tmp 7,
                       hs_in_frag_len := MPS_READ_UINT24_BE tmp 10 \<rparr>"
  note P = parse_hs_header_dtls_result [OF get commit, where hs = "in_hs (io_in l3)",
      folded hs1_def]
  have fl: "hs_in_frag_len hs1 = MPS_READ_UINT24_BE tmp 10"
    by (simp add: hs1_def)
  have rd: "mps_l3_read deps l3 l2 = mps_l3_read_hs deps l3 inp l2a"
    using st start ty by (simp add: mps_l3_read_def)
  have hd: "l3_parse_hs_header deps (conf_mode l3) (l2_in_rd inp) (in_hs (io_in l3)) l2a =
              l3_parse_hs_header_dtls deps (l2_in_rd inp) (in_hs (io_in l3)) l2a"
    using mode by (simp add: l3_parse_hs_header_def MBEDTLS_MPS_IS_TLS_def MBEDTLS_MPS_IS_DTLS_def)
  have tls: "\<not> MBEDTLS_MPS_IS_TLS (conf_mode l3)" and dtls: "MBEDTLS_MPS_IS_DTLS (conf_mode l3)"
    using mode by (simp_all add: MBEDTLS_MPS_IS_TLS_def MBEDTLS_MPS_IS_DTLS_def)
  have bad: "l3_parse_hs_header_dtls deps (l2_in_rd inp) (in_hs (io_in l3)) l2a =
                  (FAILURE MBEDTLS_ERR_MPS_INVALID_CONTENT, hs1, l2c) \<and>
             mps_l3_read deps l3 l2 =
                  (Inl MBEDTLS_ERR_MPS_INVALID_CONTENT,
                   l3\<lparr> io_in := (io_in l3)\<lparr> in_hs := hs1 \<rparr> \<rparr>, l2c)"
    if "unat (MPS_READ_UINT24_BE tmp 7) + unat (MPS_READ_UINT24_BE tmp 10)
          > unat (MPS_READ_UINT24_BE tmp 1)"
  proof -
    from that P have p: "l3_parse_hs_header_dtls deps (l2_in_rd inp) (in_hs (io_in l3)) l2a =
                  (FAILURE MBEDTLS_ERR_MPS_INVALID_CONTENT, hs1, l2c)"
      by simp
    show ?thesis
      unfolding rd mps_l3_read_hs_def hsst hd p
      by (simp add: Let_def)
  qed
  have good: "l3_parse_hs_header_dtls deps (l2_in_rd inp) (in_hs (io_in l3)) l2a =
                  (SUCCESS, hs1, l2c) \<and>
              mps_l3_read deps l3 l2 =
                  mps_l3_read_hs_attach deps
                    (l3\<lparr> io_in := (io_in l3)\<lparr> in_hs :=
                        hs1\<lparr> hs_in_rd_ext :=
                          mbedtls_reader_init_ext deps (MPS_READ_UINT24_BE tmp 10) \<rparr> \<rparr> \<rparr>)
                    inp l2c"
    if "unat (MPS_READ_UINT24_BE tmp 7) + unat (MPS_READ_UINT24_BE tmp 10)
          \<le> unat (MPS_READ_UINT24_BE tmp 1)"
  proof -
    from that P have p: "l3_parse_hs_header_dtls deps (l2_in_rd inp) (in_hs (io_in l3)) l2a =
                  (SUCCESS, hs1, l2c)"
      by simp
    show ?thesis
      unfolding rd mps_l3_read_hs_def hsst hd p
      using tls dtls by (simp add: Let_def fl)
  qed
  show ?thesis
    unfolding Let_def hs1_def [symmetric]
    using read_uint24_bound [of tmp 1] read_uint24_bound [of tmp 7] read_uint24_bound [of tmp 10]
      bad good
    by simp
qed

theorem dtls_hs_header_fragment_check_witness:
  "mps_l3_read
     (sample_deps MBEDTLS_MPS_MSG_HS SUCCESS [1, 0, 0, 16, 0, 0, 0, 0, 0, 8, 0, 0, 9] SUCCESS)
     (sample_l3 MBEDTLS_MPS_MODE_DATAGRAM) 0 =
     (Inl MBEDTLS_ERR_MPS_INVALID_CONTENT,
      (sample_l3 MBEDTLS_MPS_MODE_DATAGRAM)
        \<lparr> io_in := (io_in (sample_l3 MBEDTLS_MPS_MODE_DATAGRAM))
            \<lparr> in_hs := (in_hs (io_in (sample_l3 MBEDTLS_MPS_MODE_DATAGRAM)))
                \<lparr> hs_in_type := 1, hs_in_len := 16, hs_in_seq_nr := 0,
                  hs_in_frag_offset := 8, hs_in_frag_len := 9 \<rparr> \<rparr> \<rparr>,
      0) \<and>
   fst (mps_l3_read
     (sample_deps MBEDTLS_MPS_MSG_HS SUCCESS [1, 0, 0, 16, 0, 0, 0, 0, 0, 8, 0, 0, 8] SUCCESS)
     (sample_l3 MBEDTLS_MPS_MODE_DATAGRAM) 0) = Inr MBEDTLS_MPS_MSG_HS"
proof -
  let ?b = "[1, 0, 0, 16, 0, 0, 0, 0, 0, 8, 0, 0, 9] :: byte list"
  let ?d = "sample_deps MBEDTLS_MPS_MSG_HS SUCCESS ?b SUCCESS"
  let ?inp = "\<lparr> l2_in_type = MBEDTLS_MPS_MSG_HS, l2_in_epoch = 0, l2_in_rd = () \<rparr>"
  let ?l3 = "sample_l3 MBEDTLS_MPS_MODE_DATAGRAM"
  have st: "in_state (io_in ?l3) = MBEDTLS_MPS_MSG_NONE"
    and mode: "conf_mode ?l3 = MBEDTLS_MPS_MODE_DATAGRAM"
    and hsst: "hs_in_state (in_hs (io_in ?l3)) = MPS_L3_HS_NONE"
    by (simp_all add: sample_l3_def mps_l3_init_def)
  have start: "mps_l2_read_start ?d 0 = (SUCCESS, ?inp, 0)"
    and get: "mbedtls_reader_get ?d (l2_in_rd ?inp) 13 0 = (SUCCESS, ?b, 0)"
    and commit: "mbedtls_reader_commit ?d (l2_in_rd ?inp) 0 = (SUCCESS, 0)"
    by (simp_all add: sample_deps_def)
  have ty: "l2_in_type ?inp = MBEDTLS_MPS_MSG_HS"
    by simp
  have v: "MPS_READ_UINT24_BE ?b (Suc 0) = 16" "MPS_READ_UINT24_BE ?b 7 = 8"
    "MPS_READ_UINT24_BE ?b 10 = 9" "MPS_READ_UINT16_BE ?b 4 = 0"
    by (simp_all add: MPS_READ_UINT24_BE_def MPS_READ_UINT16_BE_def)
  from dtls_hs_header_fragment_check [OF st mode hsst start ty get commit]
  have a: "mps_l3_read ?d ?l3 0 =
     (Inl MBEDTLS_ERR_MPS_INVALID_CONTENT,
      ?l3\<lparr> io_in := (io_in ?l3)
            \<lparr> in_hs := (in_hs (io_in ?l3))
                \<lparr> hs_in_type := 1, hs_in_len := 16, hs_in_seq_nr := 0,
                  hs_in_frag_offset := 8, hs_in_frag_len := 9 \<rparr> \<rparr> \<rparr>,
      0)"
    by (simp add: v Let_def)
  have b: "fst (mps_l3_read
     (sample_deps MBEDTLS_MPS_MSG_HS SUCCESS [1, 0, 0, 16, 0, 0, 0, 0, 0, 8, 0, 0, 8] SUCCESS)
     ?l3 0) = Inr MBEDTLS_MPS_MSG_HS"
    by (simp add: sample_l3_def mps_l3_init_def sample_deps_def mps_l3_read_def
      mps_l3_read_hs_def l3_parse_hs_header_def l3_parse_hs_header_dtls_def
      mps_l3_read_hs_attach_def mps_l3_read_finish_def MBEDTLS_MPS_IS_DTLS_def
      MBEDTLS_MPS_IS_TLS_def MPS_READ_UINT24_BE_def MPS_READ_UINT16_BE_def Let_def)
  from a b show ?thesis
    by simp
qed

subsection \<open>Outgoing handshake messages of unknown length\<close>

lemma scast_ucast_unknown:
  "(scast (ucast (MBEDTLS_MPS_SIZE_UNKNOWN :: 'a::len word) :: 32 word) :: 'a word) =
     MBEDTLS_MPS_SIZE_UNKNOWN"
  unfolding MBEDTLS_MPS_SIZE_UNKNOWN_def
  by (rule bit_word_eqI) (auto simp: bit_simps)

lemma mode_cases: "MBEDTLS_MPS_IS_TLS m \<or> MBEDTLS_MPS_IS_DTLS m"
  by (cases m) (simp_all add: MBEDTLS_MPS_IS_TLS_def MBEDTLS_MPS_IS_DTLS_def)

lemma mode_excl: "MBEDTLS_MPS_IS_DTLS m \<longleftrightarrow> \<not> MBEDTLS_MPS_IS_TLS m"
  by (cases m) (simp_all add: MBEDTLS_MPS_IS_TLS_def MBEDTLS_MPS_IS_DTLS_def)

lemma check_write_hs_hdr_known:
  fixes l3 :: "('rd, 'rx, 'a::len) mps_l3"
  assumes "hs_out_hdr (out_hs (io_out l3)) = Some buf"
    and "hs_out_hdr_len (out_hs (io_out l3)) = (if MBEDTLS_MPS_IS_TLS (conf_mode l3) then 4 else 13)"
    and "hs_out_len (out_hs (io_out l3)) \<noteq> MBEDTLS_MPS_SIZE_UNKNOWN"
    and "MBEDTLS_MPS_IS_DTLS (conf_mode l3) \<longrightarrow>
           hs_out_frag_len (out_hs (io_out l3)) \<noteq> MBEDTLS_MPS_SIZE_UNKNOWN"
  shows "l3_check_write_hs_hdr l3 h =
           (SUCCESS,
            l3\<lparr> io_out := (io_out l3)\<lparr> out_hs := (out_hs (io_out l3))
                   \<lparr> hs_out_hdr := None, hs_out_hdr_len := 0 \<rparr> \<rparr> \<rparr>,
            h(out_raw_out (io_out l3) :=
                hs_header_bytes (conf_mode l3) (h (out_raw_out (io_out l3))) buf
                  (out_hs (io_out l3))))"
proof (cases "MBEDTLS_MPS_IS_TLS (conf_mode l3)")
  case True
  with assms show ?thesis
    by (simp add: l3_check_write_hs_hdr_def l3_check_write_hs_hdr_tls_def
        l3_write_hs_header_tls_def hs_header_bytes_def Let_def)
next
  case False
  then have d: "MBEDTLS_MPS_IS_DTLS (conf_mode l3)"
    by (simp add: mode_excl)
  with False assms show ?thesis
    by (simp add: l3_check_write_hs_hdr_def l3_check_write_hs_hdr_dtls_def
        l3_write_hs_header_dtls_def hs_header_bytes_def Let_def)
qed

lemma dispatch_hs_unknown:
  fixes l3 :: "('rd, 'rx, 'a::len) mps_l3"
  defines "hs \<equiv> out_hs (io_out l3)"
  defines "x \<equiv> hs_out_wr_ext hs"
  defines "p \<equiv> out_raw_out (io_out l3)"
  defines "hs1 \<equiv> hs\<lparr> hs_out_wr_ext := mbedtls_writer_free_ext, hs_out_len := ofs_commit x,
                       hs_out_frag_len := (if MBEDTLS_MPS_IS_DTLS (conf_mode l3)
                                           then ofs_commit x else hs_out_frag_len hs) \<rparr>"
  assumes act: "hs_out_state hs = MPS_L3_HS_ACTIVE"
    and len: "hs_out_len hs = MBEDTLS_MPS_SIZE_UNKNOWN"
    and flen: "MBEDTLS_MPS_IS_DTLS (conf_mode l3) \<longrightarrow>
                 hs_out_frag_len hs = MBEDTLS_MPS_SIZE_UNKNOWN"
    and hdr: "hs_out_hdr hs = Some buf"
    and hdr_len: "hs_out_hdr_len hs = (if MBEDTLS_MPS_IS_TLS (conf_mode l3) then 4 else 13)"
    and att: "ext_wr x \<noteq> NULL"
    and cm: "ofs_commit x \<noteq> MBEDTLS_MPS_SIZE_UNKNOWN"
    and dn: "mbedtls_writer_check_done x = SUCCESS"
  shows "mps_l3_dispatch_hs l3 h =
           (case mbedtls_writer_commit_partial
                   (hs_header_bytes (conf_mode l3) (h p) buf hs1)
                   (ofs_fetch x - ofs_commit x) of
              (res, w) \<Rightarrow>
                (res,
                 l3\<lparr> io_out := (io_out l3)\<lparr> out_hs := hs1
                        \<lparr> hs_out_hdr := None, hs_out_hdr_len := 0,
                          hs_out_state := (if res = SUCCESS then MPS_L3_HS_NONE
                                           else MPS_L3_HS_ACTIVE) \<rparr> \<rparr> \<rparr>,
                 h(p := w)))"
proof -
  have det: "mbedtls_writer_detach x (Some 0) (Some 0) =
               (SUCCESS, x\<lparr> ofs_fetch := ofs_commit x, ext_wr := NULL \<rparr>,
                Some (ofs_commit x), Some (ofs_fetch x - ofs_commit x))"
    using att by (simp add: mbedtls_writer_detach_def assign_out_def)
  define l3a where "l3a = l3\<lparr> io_out := (io_out l3)\<lparr> out_hs := hs1 \<rparr> \<rparr>"
  have fix_len: "(let hsa = hs\<lparr> hs_out_wr_ext := mbedtls_writer_free_ext \<rparr>;
                    hsb = (if MBEDTLS_MPS_IS_TLS (conf_mode l3) \<and>
                              hs_out_len hsa = MBEDTLS_MPS_SIZE_UNKNOWN
                           then hsa\<lparr> hs_out_len := ofs_commit x \<rparr> else hsa);
                    hsc = (if MBEDTLS_MPS_IS_DTLS (conf_mode l3) \<and>
                              hs_out_len hsb = MBEDTLS_MPS_SIZE_UNKNOWN
                           then hsb\<lparr> hs_out_len := ofs_commit x \<rparr> else hsb);
                    hsd = (if MBEDTLS_MPS_IS_DTLS (conf_mode l3) \<and>
                              hs_out_frag_len hsc = MBEDTLS_MPS_SIZE_UNKNOWN
                           then hsc\<lparr> hs_out_frag_len := ofs_commit x \<rparr> else hsc)
                 in hsd) = hs1"
    using len flen mode_excl [of "conf_mode l3"]
    by (cases "MBEDTLS_MPS_IS_TLS (conf_mode l3)") (simp_all add: hs1_def Let_def)
  have chk: "l3_check_write_hs_hdr l3a h =
           (SUCCESS,
            l3a\<lparr> io_out := (io_out l3a)\<lparr> out_hs := (out_hs (io_out l3a))
                   \<lparr> hs_out_hdr := None, hs_out_hdr_len := 0 \<rparr> \<rparr> \<rparr>,
            h(out_raw_out (io_out l3a) :=
                hs_header_bytes (conf_mode l3a) (h (out_raw_out (io_out l3a))) buf
                  (out_hs (io_out l3a))))"
    by (rule check_write_hs_hdr_known)
       (use hdr hdr_len cm in \<open>simp_all add: l3a_def hs1_def\<close>)
  have s1: "mps_l3_dispatch_hs l3 h =
      (case l3_check_write_hs_hdr l3a h of
         (res1, l3b, h1) \<Rightarrow>
           if res1 \<noteq> SUCCESS then (res1, l3b, h1)
           else
             (case mbedtls_writer_commit_partial (h1 (out_raw_out (io_out l3b)))
                     (ofs_fetch x - ofs_commit x) of
                (res2, w) \<Rightarrow>
                  (let h2 = h1(out_raw_out (io_out l3b) := w) in
                   if res2 \<noteq> SUCCESS then (res2, l3b, h2)
                   else (SUCCESS,
                         l3b\<lparr> io_out := (io_out l3b)\<lparr> out_hs := (out_hs (io_out l3b))
                                  \<lparr> hs_out_state := MPS_L3_HS_NONE \<rparr> \<rparr> \<rparr>,
                         h2))))"
  proof (cases "MBEDTLS_MPS_IS_TLS (conf_mode l3)")
    case True
    then have nd: "\<not> MBEDTLS_MPS_IS_DTLS (conf_mode l3)"
      by (simp add: mode_excl)
    show ?thesis
      unfolding mps_l3_dispatch_hs_def hs_def [symmetric]
      using act dn True nd len
      by (simp add: x_def [symmetric] det Let_def l3a_def hs1_def split: prod.splits)
  next
    case False
    then have d: "MBEDTLS_MPS_IS_DTLS (conf_mode l3)"
      by (simp add: mode_excl)
    show ?thesis
      unfolding mps_l3_dispatch_hs_def hs_def [symmetric]
      using act dn False d len flen
      by (simp add: x_def [symmetric] det Let_def l3a_def hs1_def split: prod.splits)
  qed
  obtain res w where cp: "mbedtls_writer_commit_partial
                   (hs_header_bytes (conf_mode l3) (h p) buf hs1)
                   (ofs_fetch x - ofs_commit x) = (res, w)"
    by (cases "mbedtls_writer_commit_partial
                   (hs_header_bytes (conf_mode l3) (h p) buf hs1)
                   (ofs_fetch x - ofs_commit x)")
  define l3b where "l3b = l3a\<lparr> io_out := (io_out l3a)\<lparr> out_hs := (out_hs (io_out l3a))
                   \<lparr> hs_out_hdr := None, hs_out_hdr_len := 0 \<rparr> \<rparr> \<rparr>"
  have l3a_f: "conf_mode l3a = conf_mode l3" "out_raw_out (io_out l3a) = p"
    "out_hs (io_out l3a) = hs1" "out_raw_out (io_out l3b) = p"
    by (simp_all add: l3a_def l3b_def p_def)
  have st1: "hs_out_state hs1 = MPS_L3_HS_ACTIVE"
    using act by (simp add: hs1_def)
  have same: "l3b = l3\<lparr> io_out := (io_out l3)\<lparr> out_hs := hs1
                        \<lparr> hs_out_hdr := None, hs_out_hdr_len := 0,
                          hs_out_state := MPS_L3_HS_ACTIVE \<rparr> \<rparr> \<rparr>"
    using st1 by (simp add: l3b_def l3a_def)
  have done_st: "l3b\<lparr> io_out := (io_out l3b)\<lparr> out_hs := (out_hs (io_out l3b))
                                  \<lparr> hs_out_state := MPS_L3_HS_NONE \<rparr> \<rparr> \<rparr> =
                 l3\<lparr> io_out := (io_out l3)\<lparr> out_hs := hs1
                        \<lparr> hs_out_hdr := None, hs_out_hdr_len := 0,
                          hs_out_state := MPS_L3_HS_NONE \<rparr> \<rparr> \<rparr>"
    by (simp add: l3b_def l3a_def)
  show ?thesis
    unfolding s1 chk
    unfolding l3b_def [symmetric]
    unfolding l3a_f
    by (simp add: cp l3a_f done_st Let_def) (simp add: same)
qed


lemma check_write_hs_hdr_unknown:
  fixes l3 :: "('rd, 'rx, 'a::len) mps_l3"
  assumes "hs_out_len (out_hs (io_out l3)) = MBEDTLS_MPS_SIZE_UNKNOWN"
  shows "l3_check_write_hs_hdr l3 h = (SUCCESS, l3, h)"
  using assms mode_cases [of "conf_mode l3"]
  by (auto simp: l3_check_write_hs_hdr_def l3_check_write_hs_hdr_tls_def
      l3_check_write_hs_hdr_dtls_def Let_def)

lemma check_clear_keeps:
  assumes "l3_check_clear deps l3 l2 h = (res, l3a, l2a, h1)"
  shows "conf_mode l3a = conf_mode l3 \<and> out_hs (io_out l3a) = out_hs (io_out l3) \<and>
         out_state (io_out l3a) = out_state (io_out l3)"
  using assms
  by (auto simp: l3_check_clear_def split: if_splits prod.splits)

lemma prepare_write_success:
  assumes "l3_prepare_write deps l3 port epoch l2 h = (SUCCESS, l3a, l2a, h1)"
  shows "conf_mode l3a = conf_mode l3 \<and> out_hs (io_out l3a) = out_hs (io_out l3) \<and>
         out_state (io_out l3a) = port"
proof -
  obtain r0 l30 l20 h0 where cc: "l3_check_clear deps l3 l2 h = (r0, l30, l20, h0)"
    by (metis prod_cases4)
  note K = check_clear_keeps [OF cc]
  obtain r1 wr l2b h2 where ws: "mps_l2_write_start deps port epoch l20 h0 = (r1, wr, l2b, h2)"
    by (metis prod_cases4)
  from assms have "l3a = l30\<lparr> io_out := (io_out l30)\<lparr> out_raw_out := wr, out_state := port \<rparr> \<rparr>"
    by (simp add: l3_prepare_write_def cc ws split: if_splits)
  with K show ?thesis
    by simp
qed

lemma write_handshake_attach_success:
  fixes l3 :: "('rd, 'rx, 'a::len) mps_l3"
  assumes "mps_l3_write_handshake_attach l3 out_p l2 h = (SUCCESS, l3a, l2a, h1)"
  shows "l2a = l2 \<and> h1 = h \<and>
         l3a = l3\<lparr> io_out := (io_out l3)\<lparr> out_hs := (out_hs (io_out l3))
                  \<lparr> hs_out_wr_ext := (hs_out_wr_ext (out_hs (io_out l3)))
                       \<lparr> passthrough :=
                           (if (scast (ucast (if MBEDTLS_MPS_IS_TLS (conf_mode l3)
                                              then hso_len out_p
                                              else hso_frag_len out_p) :: 32 word) :: 'a word)
                                 \<noteq> MBEDTLS_MPS_SIZE_UNKNOWN
                            then MBEDTLS_WRITER_EXT_PASS else MBEDTLS_WRITER_EXT_HOLD),
                         ext_wr := out_raw_out (io_out l3) \<rparr>,
                    hs_out_state := MPS_L3_HS_ACTIVE \<rparr> \<rparr> \<rparr>"
  using assms
  by (auto simp: mps_l3_write_handshake_attach_def mbedtls_writer_attach_def Let_def
      split: if_splits)


lemma get_success_ptr:
  assumes "mbedtls_writer_get wr desired buffer buflen = (SUCCESS, w, hdr, bl)"
  shows "hdr \<noteq> None \<and> (buflen = None \<longrightarrow> bl = None)"
  using assms
  by (auto simp: mbedtls_writer_get_def Let_def assign_out_def split: if_splits)

lemma write_handshake_reserve_success:
  fixes l3 :: "('rd, 'rx, 'a::len) mps_l3"
  defines "p \<equiv> out_raw_out (io_out l3)"
  defines "hs \<equiv> out_hs (io_out l3)"
  assumes r: "mps_l3_write_handshake_reserve deps l3 out_p l2 h = (SUCCESS, l3a, l2a, h1)"
    and unk: "hs_out_len hs = MBEDTLS_MPS_SIZE_UNKNOWN"
    and unk_p: "hso_len out_p = MBEDTLS_MPS_SIZE_UNKNOWN"
    and fl: "MBEDTLS_MPS_IS_DTLS (conf_mode l3) \<longrightarrow>
               hso_frag_len out_p = MBEDTLS_MPS_SIZE_UNKNOWN"
  shows "\<exists>w buf. mbedtls_writer_get (h p) (hs_out_hdr_len hs) (hs_out_hdr hs) None =
                   (SUCCESS, w, Some buf, None) \<and>
                 l2a = l2 \<and> h1 = h(p := w) \<and>
                 l3a = l3\<lparr> io_out := (io_out l3)\<lparr> out_hs := hs
                          \<lparr> hs_out_hdr := Some buf,
                            hs_out_wr_ext := (mbedtls_writer_init_ext MBEDTLS_MPS_SIZE_UNKNOWN)
                               \<lparr> passthrough := MBEDTLS_WRITER_EXT_HOLD, ext_wr := p \<rparr>,
                            hs_out_state := MPS_L3_HS_ACTIVE \<rparr> \<rparr> \<rparr>"
proof -
  obtain res w hdr bl where
    g: "mbedtls_writer_get (h p) (hs_out_hdr_len hs) (hs_out_hdr hs) None = (res, w, hdr, bl)"
    by (metis prod_cases4)
  define l3g where "l3g = l3\<lparr> io_out := (io_out l3)\<lparr> out_hs := hs\<lparr> hs_out_hdr := hdr \<rparr> \<rparr> \<rparr>"
  have res: "res = SUCCESS"
  proof (rule ccontr)
    assume "res \<noteq> SUCCESS"
    with r g show False
      unfolding mps_l3_write_handshake_reserve_def p_def [symmetric] hs_def [symmetric]
      by (auto simp: Let_def split: if_splits prod.splits)
  qed
  from g res get_success_ptr [of "h p" "hs_out_hdr_len hs" "hs_out_hdr hs" None w hdr bl]
  obtain buf where hdr: "hdr = Some buf" and bl: "bl = None"
    by auto
  have lg: "hs_out_len (out_hs (io_out l3g)) = MBEDTLS_MPS_SIZE_UNKNOWN"
    using unk by (simp add: l3g_def)
  note chk = check_write_hs_hdr_unknown [OF lg, of "h(p := w)"]
  define l3i where "l3i = l3g\<lparr> io_out := (io_out l3g)\<lparr> out_hs := (out_hs (io_out l3g))
                      \<lparr> hs_out_wr_ext := mbedtls_writer_init_ext MBEDTLS_MPS_SIZE_UNKNOWN \<rparr> \<rparr> \<rparr>"
  have md: "conf_mode l3g = conf_mode l3"
    by (simp add: l3g_def)
  have att: "mps_l3_write_handshake_attach l3i out_p l2 (h(p := w)) = (SUCCESS, l3a, l2a, h1)"
  proof (cases "MBEDTLS_MPS_IS_TLS (conf_mode l3)")
    case True
    then have nd: "\<not> MBEDTLS_MPS_IS_DTLS (conf_mode l3)"
      by (simp add: mode_excl)
    from r show ?thesis
      unfolding mps_l3_write_handshake_reserve_def p_def [symmetric] hs_def [symmetric]
      by (simp add: g res Let_def l3g_def [symmetric] chk md True nd unk_p l3i_def)
  next
    case False
    then have d: "MBEDTLS_MPS_IS_DTLS (conf_mode l3)"
      by (simp add: mode_excl)
    from r show ?thesis
      unfolding mps_l3_write_handshake_reserve_def p_def [symmetric] hs_def [symmetric]
      using fl
      by (simp add: g res Let_def l3g_def [symmetric] chk md False d l3i_def)
  qed
  have md_i: "conf_mode l3i = conf_mode l3"
    by (simp add: l3i_def l3g_def)
  have "(if MBEDTLS_MPS_IS_TLS (conf_mode l3i) then hso_len out_p else hso_frag_len out_p) =
          MBEDTLS_MPS_SIZE_UNKNOWN"
    using unk_p fl mode_excl [of "conf_mode l3"] by (simp add: md_i)
  then have hold: "(if (scast (ucast (if MBEDTLS_MPS_IS_TLS (conf_mode l3i)
                                       then hso_len out_p
                                       else hso_frag_len out_p) :: 32 word) :: 'a word)
                         \<noteq> MBEDTLS_MPS_SIZE_UNKNOWN
               then MBEDTLS_WRITER_EXT_PASS else MBEDTLS_WRITER_EXT_HOLD) =
              MBEDTLS_WRITER_EXT_HOLD"
    by (simp only: scast_ucast_unknown) simp
  from write_handshake_attach_success [OF att]
  have "l2a = l2" "h1 = h(p := w)"
    and l3a: "l3a = l3i\<lparr> io_out := (io_out l3i)\<lparr> out_hs := (out_hs (io_out l3i))
                  \<lparr> hs_out_wr_ext := (hs_out_wr_ext (out_hs (io_out l3i)))
                       \<lparr> passthrough := MBEDTLS_WRITER_EXT_HOLD,
                         ext_wr := out_raw_out (io_out l3i) \<rparr>,
                    hs_out_state := MPS_L3_HS_ACTIVE \<rparr> \<rparr> \<rparr>"
    unfolding hold by simp_all
  moreover have "l3a = l3\<lparr> io_out := (io_out l3)\<lparr> out_hs := hs
                          \<lparr> hs_out_hdr := Some buf,
                            hs_out_wr_ext := (mbedtls_writer_init_ext MBEDTLS_MPS_SIZE_UNKNOWN)
                               \<lparr> passthrough := MBEDTLS_WRITER_EXT_HOLD, ext_wr := p \<rparr>,
                            hs_out_state := MPS_L3_HS_ACTIVE \<rparr> \<rparr> \<rparr>"
    unfolding l3a by (simp add: l3i_def l3g_def hdr p_def)
  ultimately show ?thesis
    using g res hdr bl by simp
qed


lemma write_handshake_unknown:
  fixes l3 :: "('rd, 'rx, 'a::len) mps_l3"
  assumes wh: "mps_l3_write_handshake deps l3 out_p l2 h = (SUCCESS, l3a, l2a, h1)"
    and new: "hs_out_state (out_hs (io_out l3)) = MPS_L3_HS_NONE"
    and unk: "hso_len out_p = MBEDTLS_MPS_SIZE_UNKNOWN"
    and pw: "l3_prepare_write deps l3 MBEDTLS_MPS_MSG_HS (hso_epoch out_p) l2 h =
               (rp, l3p, l2p, h0)"
  defines "p \<equiv> out_raw_out (io_out l3p)"
  defines "hl \<equiv> (if MBEDTLS_MPS_IS_TLS (conf_mode l3) then 4 else 13)"
  shows "rp = SUCCESS \<and> l2a = l2p \<and>
         (MBEDTLS_MPS_IS_DTLS (conf_mode l3) \<longrightarrow>
            hso_frag_len out_p = MBEDTLS_MPS_SIZE_UNKNOWN \<and> hso_frag_offset out_p = 0) \<and>
         (\<exists>w buf hdr0.
            mbedtls_writer_get (h0 p) hl hdr0 None = (SUCCESS, w, Some buf, None) \<and>
            h1 = h0(p := w) \<and>
            l3a = l3p\<lparr> io_out := (io_out l3p)\<lparr> out_hs := (out_hs (io_out l3))
                     \<lparr> hs_out_epoch := hso_epoch out_p,
                       hs_out_len := MBEDTLS_MPS_SIZE_UNKNOWN,
                       hs_out_type := hso_type out_p,
                       hs_out_seq_nr := (if MBEDTLS_MPS_IS_DTLS (conf_mode l3)
                                         then hso_seq_nr out_p
                                         else hs_out_seq_nr (out_hs (io_out l3))),
                       hs_out_frag_len := (if MBEDTLS_MPS_IS_DTLS (conf_mode l3)
                                           then MBEDTLS_MPS_SIZE_UNKNOWN
                                           else hs_out_frag_len (out_hs (io_out l3))),
                       hs_out_frag_offset := (if MBEDTLS_MPS_IS_DTLS (conf_mode l3)
                                              then 0
                                              else hs_out_frag_offset (out_hs (io_out l3))),
                       hs_out_hdr_len := hl,
                       hs_out_hdr := Some buf,
                       hs_out_wr_ext := (mbedtls_writer_init_ext MBEDTLS_MPS_SIZE_UNKNOWN)
                          \<lparr> passthrough := MBEDTLS_WRITER_EXT_HOLD, ext_wr := p \<rparr>,
                       hs_out_state := MPS_L3_HS_ACTIVE \<rparr> \<rparr> \<rparr>)"
proof -
  have rp: "rp = SUCCESS"
  proof (rule ccontr)
    assume "rp \<noteq> SUCCESS"
    with wh new pw show False
      by (simp add: mps_l3_write_handshake_def Let_def)
  qed
  note P = prepare_write_success [OF pw [unfolded rp]]
  from P new have st: "hs_out_state (out_hs (io_out l3p)) = MPS_L3_HS_NONE"
    by simp
  from P have md: "conf_mode l3p = conf_mode l3" and hsp: "out_hs (io_out l3p) = out_hs (io_out l3)"
    by simp_all
  show ?thesis
  proof (cases "MBEDTLS_MPS_IS_TLS (conf_mode l3)")
    case True
    then have nd: "\<not> MBEDTLS_MPS_IS_DTLS (conf_mode l3)"
      by (simp add: mode_excl)
    define l3r where "l3r = l3p\<lparr> io_out := (io_out l3p)\<lparr> out_hs := (out_hs (io_out l3))
                     \<lparr> hs_out_epoch := hso_epoch out_p,
                       hs_out_len := MBEDTLS_MPS_SIZE_UNKNOWN,
                       hs_out_type := hso_type out_p,
                       hs_out_hdr_len := 4 \<rparr> \<rparr> \<rparr>"
    from wh have rs: "mps_l3_write_handshake_reserve deps l3r out_p l2p h0 =
                        (SUCCESS, l3a, l2a, h1)"
      unfolding mps_l3_write_handshake_def
      by (simp add: new pw rp st md hsp True nd unk Let_def l3r_def
          MPS_TLS_HS_HDR_SIZE_def)
    have a1: "hs_out_len (out_hs (io_out l3r)) = MBEDTLS_MPS_SIZE_UNKNOWN"
      by (simp add: l3r_def)
    have a2: "MBEDTLS_MPS_IS_DTLS (conf_mode l3r) \<longrightarrow>
               hso_frag_len out_p = MBEDTLS_MPS_SIZE_UNKNOWN"
      using nd by (simp add: l3r_def md)
    from write_handshake_reserve_success [OF rs a1 unk a2] True nd rp
    show ?thesis
      by (auto simp: l3r_def p_def hl_def)
  next
    case False
    then have d: "MBEDTLS_MPS_IS_DTLS (conf_mode l3)"
      by (simp add: mode_excl)
    have fr: "hso_frag_len out_p = MBEDTLS_MPS_SIZE_UNKNOWN \<and> hso_frag_offset out_p = 0"
    proof (rule ccontr)
      assume "\<not> ?thesis"
      with wh show False
        unfolding mps_l3_write_handshake_def
        by (auto simp: new pw rp st md hsp False d unk Let_def)
    qed
    define l3r where "l3r = l3p\<lparr> io_out := (io_out l3p)\<lparr> out_hs := (out_hs (io_out l3))
                     \<lparr> hs_out_epoch := hso_epoch out_p,
                       hs_out_len := MBEDTLS_MPS_SIZE_UNKNOWN,
                       hs_out_type := hso_type out_p,
                       hs_out_seq_nr := hso_seq_nr out_p,
                       hs_out_frag_len := MBEDTLS_MPS_SIZE_UNKNOWN,
                       hs_out_frag_offset := 0,
                       hs_out_hdr_len := 13 \<rparr> \<rparr> \<rparr>"
    from wh have rs: "mps_l3_write_handshake_reserve deps l3r out_p l2p h0 =
                        (SUCCESS, l3a, l2a, h1)"
      unfolding mps_l3_write_handshake_def
      by (simp add: new pw rp st md hsp False d unk fr Let_def l3r_def
          MPS_DTLS_HS_HDR_SIZE_def)
    have a1: "hs_out_len (out_hs (io_out l3r)) = MBEDTLS_MPS_SIZE_UNKNOWN"
      by (simp add: l3r_def)
    have a2: "MBEDTLS_MPS_IS_DTLS (conf_mode l3r) \<longrightarrow>
               hso_frag_len out_p = MBEDTLS_MPS_SIZE_UNKNOWN"
      using fr by simp
    from write_handshake_reserve_success [OF rs a1 unk a2] False d rp fr
    show ?thesis
      by (auto simp: l3r_def p_def hl_def)
  qed
qed


lemma get_success_end:
  fixes wr :: "'a::len mbedtls_writer"
  assumes "mbedtls_writer_get wr desired buffer buflen = (SUCCESS, wr', b', bl')"
  shows "end_ofs wr' = end_ofs wr + (case bl' of None \<Rightarrow> desired | Some v \<Rightarrow> v) \<and>
         state wr = MBEDTLS_WRITER_CONSUMING"
  using assms
  by (cases buflen)
     (auto simp: mbedtls_writer_get_def Let_def assign_out_def split: if_splits)

lemma get_failure_same:
  assumes "mbedtls_writer_get wr desired buffer buflen = (r, wr', b', bl')" "r \<noteq> SUCCESS"
  shows "wr' = wr"
  using assms
  by (auto simp: mbedtls_writer_get_def Let_def split: if_splits)

lemma get_advance:
  fixes wr :: "'a::len mbedtls_writer"
  assumes wf: "writer_inv wr"
    and g: "mbedtls_writer_get wr desired buffer buflen = (SUCCESS, wr', b', bl')"
  shows "unat (end_ofs wr') =
           unat (end_ofs wr) + unat (case bl' of None \<Rightarrow> desired | Some v \<Rightarrow> v)"
    and "writer_inv wr'" and "state wr' = MBEDTLS_WRITER_CONSUMING"
    and "committed wr' = committed wr"
proof -
  note S = get_success_end [OF g]
  then have st: "state wr = MBEDTLS_WRITER_CONSUMING"
    by simp
  have wr': "wr' = fst (snd (mbedtls_writer_get wr desired buffer buflen))"
    by (simp add: g)
  from get_effect [OF wf st, of desired buffer buflen]
  have "unat (end_ofs wr) \<le> unat (end_ofs wr')"
    by (simp add: wr')
  then have "end_ofs wr \<le> end_ofs wr + (case bl' of None \<Rightarrow> desired | Some v \<Rightarrow> v)"
    using S by (simp add: word_le_nat_alt)
  then show "unat (end_ofs wr') =
           unat (end_ofs wr) + unat (case bl' of None \<Rightarrow> desired | Some v \<Rightarrow> v)"
    using S by (simp add: no_olen_add_nat unat_add_lem [symmetric])
  show "writer_inv wr'"
    unfolding wr' by (rule get_inv [OF wf])
  show "state wr' = MBEDTLS_WRITER_CONSUMING"
    unfolding wr' using st by (simp add: get_unchanged_fields)
  show "committed wr' = committed wr"
    unfolding wr' by (simp add: get_unchanged_fields)
qed

lemma group_open_ext_wr: "ext_wr (snd (mbedtls_writer_group_open x n)) = ext_wr x"
  by (simp add: mbedtls_writer_group_open_def Let_def)

lemma group_close_ext_wr: "ext_wr (snd (mbedtls_writer_group_close x)) = ext_wr x"
  by (simp add: mbedtls_writer_group_close_def Let_def)

lemma hold_inv_offsets:
  assumes "hold_inv p x h"
    and "ext_wr x' = ext_wr x" "passthrough x' = passthrough x"
    and "ofs_fetch x' = ofs_fetch x" "ofs_commit x' = ofs_commit x"
  shows "hold_inv p x' h"
  using assms by (simp add: hold_inv_def)

lemma get_ext_hold_inv:
  fixes x :: "'a::len mbedtls_writer_ext"
  assumes J: "hold_inv p x h"
    and g: "mbedtls_writer_get_ext x h desired buffer buflen = (r, x', h', b', bl')"
  shows "hold_inv p x' h'"
proof (cases "passthrough x = MBEDTLS_WRITER_EXT_BLOCK \<or>
              desired > grp_end x ! unat (cur_grp x) - ofs_fetch x")
  case True
  with J g have "x' = x \<and> h' = h"
    by (auto simp: mbedtls_writer_get_ext_def hold_inv_def Let_def split: if_splits)
  with J show ?thesis
    by simp
next
  case False
  from J have xp: "ext_wr x = p" "p \<noteq> NULL"
    by (simp_all add: hold_inv_def)
  obtain r0 w bq blq where
    rg: "mbedtls_writer_get (h p) desired buffer buflen = (r0, w, bq, blq)"
    by (metis prod_cases4)
  show ?thesis
  proof (cases "r0 = SUCCESS")
    case fail: False
    from get_failure_same [OF rg fail] have "w = h p"
      by simp
    with g False xp rg fail have "x' = x \<and> h' = h"
      by (auto simp: mbedtls_writer_get_ext_def Let_def)
    with J show ?thesis
      by simp
  next
    case ok: True
    define d1 where "d1 = (case blq of None \<Rightarrow> desired | Some v \<Rightarrow> v)"
    from g False xp rg ok
    have x': "x' = x\<lparr> ofs_fetch := ofs_fetch x + d1 \<rparr>" and h': "h' = h(p := w)"
      by (auto simp: mbedtls_writer_get_ext_def Let_def d1_def)
    from J have wf: "writer_inv (h p)"
      and c: "unat (ofs_commit x) \<le> unat (ofs_fetch x)"
      and e: "unat (ofs_fetch x) + unat (committed (h p)) + 1 \<le> unat (end_ofs (h p))"
      and ps: "passthrough x \<noteq> MBEDTLS_WRITER_EXT_PASS"
      by (simp_all add: hold_inv_def)
    note A = get_advance [OF wf rg [unfolded ok], folded d1_def]
    have "unat (ofs_fetch x) + unat d1 \<le> unat (end_ofs w)"
      using A(1) e by simp
    then have f: "unat (ofs_fetch x + d1) = unat (ofs_fetch x) + unat d1"
      by (rule unat_add_le_word)
    show ?thesis
      unfolding hold_inv_def x' h'
      using xp ps A c e f by simp
  qed
qed

lemma commit_partial_ext_hold_inv:
  fixes x :: "'a::len mbedtls_writer_ext"
  assumes J: "hold_inv p x h"
    and g: "mbedtls_writer_commit_partial_ext x h omit = (r, x', h')"
  shows "hold_inv p x' h'"
proof (cases "passthrough x = MBEDTLS_WRITER_EXT_BLOCK \<or>
              omit > ofs_fetch x - ofs_commit x")
  case True
  with J g have "x' = x \<and> h' = h"
    by (auto simp: mbedtls_writer_commit_partial_ext_def hold_inv_def Let_def split: if_splits)
  with J show ?thesis
    by simp
next
  case False
  from J have xp: "ext_wr x = p" "p \<noteq> NULL"
    and ps: "passthrough x \<noteq> MBEDTLS_WRITER_EXT_PASS"
    and c: "unat (ofs_commit x) \<le> unat (ofs_fetch x)"
    by (simp_all add: hold_inv_def)
  from False ps have hold: "passthrough x = MBEDTLS_WRITER_EXT_HOLD"
    by (cases "passthrough x") simp_all
  from False have "unat omit \<le> unat (ofs_fetch x - ofs_commit x)"
    by (simp add: word_less_nat_alt)
  with c have om: "unat omit \<le> unat (ofs_fetch x) - unat (ofs_commit x)"
    by (simp add: unat_sub_le)
  then have cm: "unat (ofs_fetch x - omit) = unat (ofs_fetch x) - unat omit"
    by (intro unat_sub_le) simp
  from g False xp hold
  have "h' = h" and "ext_wr x' = p" and "passthrough x' \<noteq> MBEDTLS_WRITER_EXT_PASS"
    and "ofs_fetch x' = ofs_fetch x" and "ofs_commit x' = ofs_fetch x - omit"
    by (auto simp: mbedtls_writer_commit_partial_ext_def Let_def split: if_splits)
  with J cm om show ?thesis
    by (simp add: hold_inv_def)
qed

lemma ext_step_hold_inv:
  fixes x :: "'a::len mbedtls_writer_ext"
  assumes J: "hold_inv p x h"
    and step: "ext_step (x, h) op = (r, x', h')"
  shows "hold_inv p x' h'"
proof (cases op)
  case (Get_ext d wb)
  obtain r0 x0 h0 b0 bl0 where
    g: "mbedtls_writer_get_ext x h d None (if wb then Some 0 else None) = (r0, x0, h0, b0, bl0)"
    by (metis prod_cases5)
  with step Get_ext have "x' = x0" "h' = h0"
    by simp_all
  with get_ext_hold_inv [OF J g] show ?thesis
    by simp
next
  case (Commit_partial_ext omit)
  with step have "mbedtls_writer_commit_partial_ext x h omit = (r, x', h')"
    by simp
  from commit_partial_ext_hold_inv [OF J this] show ?thesis .
next
  case Commit_ext
  with step have "mbedtls_writer_commit_partial_ext x h 0 = (r, x', h')"
    by (simp add: mbedtls_writer_commit_ext_def)
  from commit_partial_ext_hold_inv [OF J this] show ?thesis .
next
  case (Group_open n)
  with step have "x' = snd (mbedtls_writer_group_open x n)" "h' = h"
    by (simp_all split: prod.splits)
  with hold_inv_offsets [OF J, of x'] show ?thesis
    by (simp add: group_open_keeps group_open_ext_wr)
next
  case Group_close
  with step have "x' = snd (mbedtls_writer_group_close x)" "h' = h"
    by (simp_all split: prod.splits)
  with hold_inv_offsets [OF J, of x'] show ?thesis
    by (simp add: group_close_keeps group_close_ext_wr)
qed

lemma ext_run_hold_inv:
  fixes x :: "'a::len mbedtls_writer_ext"
  assumes "hold_inv p x h" "ext_run (x, h) ops = (x', h')"
  shows "hold_inv p x' h'"
  using assms
proof (induction ops arbitrary: x h)
  case Nil
  then show ?case
    by (simp add: ext_run_def)
next
  case (Cons op ops)
  obtain r x1 h1 where step: "ext_step (x, h) op = (r, x1, h1)"
    by (metis prod_cases3)
  note J1 = ext_step_hold_inv [OF Cons.prems(1) step]
  from Cons.prems(2) have "ext_run (x1, h1) ops = (x', h')"
    by (simp add: ext_run_def step)
  from Cons.IH [OF J1 this] show ?case .
qed


lemma dispatch_unfinished:
  fixes l3 :: "('rd, 'rx, 'a::len) mps_l3"
  assumes "out_state (io_out l3) = MBEDTLS_MPS_MSG_HS"
    and "hs_out_state (out_hs (io_out l3)) = MPS_L3_HS_ACTIVE"
    and "mbedtls_writer_check_done (hs_out_wr_ext (out_hs (io_out l3))) \<noteq> SUCCESS"
  shows "mps_l3_dispatch deps l3 l2 h =
           (FAILURE MBEDTLS_ERR_MPS_UNFINISHED_HS_MSG, l3, l2, h)"
  using assms by (simp add: mps_l3_dispatch_def mps_l3_dispatch_hs_def Let_def)

lemma dispatch_hs_done:
  fixes l3 :: "('rd, 'rx, 'a::len) mps_l3"
  assumes st: "out_state (io_out l3) = MBEDTLS_MPS_MSG_HS"
    and hs: "mps_l3_dispatch_hs l3 h = (SUCCESS, l3a, h1)"
  shows "mps_l3_dispatch deps l3 l2 h =
           (case mps_l2_write_done deps l2 h1 of
              (res, l2a, h2) \<Rightarrow>
                (res,
                 l3a\<lparr> io_out := (io_out l3a)
                        \<lparr> out_raw_out := NULL,
                          out_state := (if res = SUCCESS then MBEDTLS_MPS_MSG_NONE
                                        else out_state (io_out l3a)) \<rparr> \<rparr>,
                 l2a, h2))"
  using st hs by (auto simp: mps_l3_dispatch_def Let_def split: prod.splits)

lemma consumer_write_fields:
  "out_len (consumer_write w q bs) = out_len w"
  "queue_len (consumer_write w q bs) = queue_len w"
  "committed (consumer_write w q bs) = committed w"
  "end_ofs (consumer_write w q bs) = end_ofs w"
  "queue_next (consumer_write w q bs) = queue_next w"
  "queue_remaining (consumer_write w q bs) = queue_remaining w"
  "state (consumer_write w q bs) = state w"
  by (cases q; simp add: consumer_write_def)+

lemma hs_header_bytes_fields:
  "committed (hs_header_bytes m w buf hs) = committed w"
  "end_ofs (hs_header_bytes m w buf hs) = end_ofs w"
  "state (hs_header_bytes m w buf hs) = state w"
  by (simp_all add: hs_header_bytes_def consumer_write_fields)

lemma commit_partial_success:
  fixes w :: "'a::len mbedtls_writer"
  assumes "state w = MBEDTLS_WRITER_CONSUMING"
    and "unat omit \<le> unat (end_ofs w) - unat (committed w)"
    and "unat (committed w) \<le> unat (end_ofs w)"
  shows "fst (mbedtls_writer_commit_partial w omit) = SUCCESS"
proof -
  from assms(3) have "unat (end_ofs w - committed w) = unat (end_ofs w) - unat (committed w)"
    by (rule unat_sub_le)
  with assms(2) have "\<not> omit > end_ofs w - committed w"
    by (simp add: word_less_nat_alt)
  with assms(1) show ?thesis
    by (simp add: mbedtls_writer_commit_partial_def Let_def)
qed


lemma hdr_len_pos:
  assumes "16 \<le> LENGTH('a::len)"
  shows "1 \<le> unat (4 :: 'a word)" "1 \<le> unat (13 :: 'a word)"
proof -
  have "(2::nat) ^ 16 \<le> 2 ^ LENGTH('a)"
    using assms by (intro power_increasing) simp_all
  then have b: "(65536::nat) \<le> 2 ^ LENGTH('a)"
    by simp
  have "unat (4 :: 'a word) = 4" "unat (13 :: 'a word) = 13"
    using b by (simp_all add: unat_numeral take_bit_nat_eq_self)
  then show "1 \<le> unat (4 :: 'a word)" "1 \<le> unat (13 :: 'a word)"
    by simp_all
qed

text \<open>
  C6. A handshake message is started by \<^verbatim>\<open>mps_l3_write_handshake\<close> with the total
  length \<^verbatim>\<open>MBEDTLS_MPS_SIZE_UNKNOWN\<close> (no message being paused; the size type has at
  least 16 bits; Layer 2 hands out a writer that satisfies the invariant of the
  writer), the user makes any sequence of calls on the extended writer, and
  \<^verbatim>\<open>mps_l3_dispatch\<close> is called. If \<^verbatim>\<open>mbedtls_writer_check_done\<close> fails on the extended
  writer, the dispatch fails with \<^verbatim>\<open>MBEDTLS_ERR_MPS_UNFINISHED_HS_MSG\<close> and changes
  nothing. Otherwise \<^verbatim>\<open>mbedtls_writer_detach\<close> succeeds and gives the numbers of
  committed and uncommitted bytes; the length of the message is set to the number
  of committed bytes (in DTLS the fragment length, too); the header with these
  lengths is stored through the pointer reserved by \<^verbatim>\<open>mps_l3_write_handshake\<close>;
  \<^verbatim>\<open>mbedtls_writer_commit_partial\<close> is called on the raw writer with the number of
  uncommitted bytes and succeeds; the extended writer is reset, the handshake
  state is \<^verbatim>\<open>MPS_L3_HS_NONE\<close>, the reference to the raw writer is removed, and the
  result is that of \<^verbatim>\<open>mps_l2_write_done\<close>, called on the store with the committed
  writer.
\<close>
theorem dispatch_unknown_length:
  fixes l3 :: "('rd, 'rx, 'a::len) mps_l3"
    and deps :: "('l2, 'rd, 'rx, 'a) mps_l3_deps"
  assumes bits: "16 \<le> LENGTH('a)"
    and new: "hs_out_state (out_hs (io_out l3)) = MPS_L3_HS_NONE"
    and unk: "hso_len out_p = MBEDTLS_MPS_SIZE_UNKNOWN"
    and pw: "l3_prepare_write deps l3 MBEDTLS_MPS_MSG_HS (hso_epoch out_p) l2 h =
               (rp, l3p, l2p, h0)"
    and raw: "out_raw_out (io_out l3p) \<noteq> NULL"
    and wf: "writer_inv (h0 (out_raw_out (io_out l3p)))"
    and wh: "mps_l3_write_handshake deps l3 out_p l2 h = (SUCCESS, l3a, l2a, h1)"
    and run: "ext_run (hs_out_wr_ext (out_hs (io_out l3a)), h1) ops = (x, h2)"
  defines "l3b \<equiv> l3a\<lparr> io_out := (io_out l3a)\<lparr> out_hs := (out_hs (io_out l3a))
                       \<lparr> hs_out_wr_ext := x \<rparr> \<rparr> \<rparr>"
  defines "p \<equiv> out_raw_out (io_out l3a)"
  shows "(mbedtls_writer_check_done x \<noteq> SUCCESS \<longrightarrow>
            mps_l3_dispatch deps l3b l2a h2 =
              (FAILURE MBEDTLS_ERR_MPS_UNFINISHED_HS_MSG, l3b, l2a, h2)) \<and>
         (mbedtls_writer_check_done x = SUCCESS \<longrightarrow>
            (\<exists>buf xd cmt unc w.
               hs_out_hdr (out_hs (io_out l3a)) = Some buf \<and>
               mbedtls_writer_detach x (Some 0) (Some 0) = (SUCCESS, xd, Some cmt, Some unc) \<and>
               (let hs1 = (out_hs (io_out l3a))
                            \<lparr> hs_out_wr_ext := mbedtls_writer_free_ext,
                              hs_out_len := cmt,
                              hs_out_frag_len :=
                                (if MBEDTLS_MPS_IS_DTLS (conf_mode l3a) then cmt
                                 else hs_out_frag_len (out_hs (io_out l3a))) \<rparr>
                in mbedtls_writer_commit_partial
                     (hs_header_bytes (conf_mode l3a) (h2 p) buf hs1) unc = (SUCCESS, w) \<and>
                   mps_l3_dispatch deps l3b l2a h2 =
                     (case mps_l2_write_done deps l2a (h2(p := w)) of
                        (res, l2b, h3) \<Rightarrow>
                          (res,
                           l3b\<lparr> io_out := (io_out l3b)
                                  \<lparr> out_hs := hs1\<lparr> hs_out_hdr := None, hs_out_hdr_len := 0,
                                                   hs_out_state := MPS_L3_HS_NONE \<rparr>,
                                    out_raw_out := NULL,
                                    out_state := (if res = SUCCESS then MBEDTLS_MPS_MSG_NONE
                                                  else MBEDTLS_MPS_MSG_HS) \<rparr> \<rparr>,
                           l2b, h3)))))"
proof -
  define hs1 where "hs1 = (out_hs (io_out l3a))
                    \<lparr> hs_out_wr_ext := mbedtls_writer_free_ext,
                      hs_out_len := ofs_commit x,
                      hs_out_frag_len := (if MBEDTLS_MPS_IS_DTLS (conf_mode l3a)
                                          then ofs_commit x
                                          else hs_out_frag_len (out_hs (io_out l3a))) \<rparr>"
  note W = write_handshake_unknown [OF wh new unk pw]
  from W have rp: "rp = SUCCESS" and fr: "MBEDTLS_MPS_IS_DTLS (conf_mode l3) \<longrightarrow>
            hso_frag_len out_p = MBEDTLS_MPS_SIZE_UNKNOWN \<and> hso_frag_offset out_p = 0"
    by simp_all
  define pp where "pp = out_raw_out (io_out l3p)"
  define hl :: "'a word" where "hl = (if MBEDTLS_MPS_IS_TLS (conf_mode l3) then 4 else 13)"
  from W obtain w0 buf hdr0 where
    g: "mbedtls_writer_get (h0 pp) hl hdr0 None = (SUCCESS, w0, Some buf, None)"
    and h1: "h1 = h0(pp := w0)"
    and l3a: "l3a = l3p\<lparr> io_out := (io_out l3p)\<lparr> out_hs := (out_hs (io_out l3))
                     \<lparr> hs_out_epoch := hso_epoch out_p,
                       hs_out_len := MBEDTLS_MPS_SIZE_UNKNOWN,
                       hs_out_type := hso_type out_p,
                       hs_out_seq_nr := (if MBEDTLS_MPS_IS_DTLS (conf_mode l3)
                                         then hso_seq_nr out_p
                                         else hs_out_seq_nr (out_hs (io_out l3))),
                       hs_out_frag_len := (if MBEDTLS_MPS_IS_DTLS (conf_mode l3)
                                           then MBEDTLS_MPS_SIZE_UNKNOWN
                                           else hs_out_frag_len (out_hs (io_out l3))),
                       hs_out_frag_offset := (if MBEDTLS_MPS_IS_DTLS (conf_mode l3)
                                              then 0
                                              else hs_out_frag_offset (out_hs (io_out l3))),
                       hs_out_hdr_len := hl,
                       hs_out_hdr := Some buf,
                       hs_out_wr_ext := (mbedtls_writer_init_ext MBEDTLS_MPS_SIZE_UNKNOWN)
                          \<lparr> passthrough := MBEDTLS_WRITER_EXT_HOLD, ext_wr := pp \<rparr>,
                       hs_out_state := MPS_L3_HS_ACTIVE \<rparr> \<rparr> \<rparr>"
    unfolding pp_def hl_def by blast
  note P = prepare_write_success [OF pw [unfolded rp]]
  have p: "p = pp"
    by (simp add: p_def l3a pp_def)
  have md: "conf_mode l3a = conf_mode l3"
    using P by (simp add: l3a)
  define x0 :: "'a mbedtls_writer_ext" where
    "x0 = (mbedtls_writer_init_ext MBEDTLS_MPS_SIZE_UNKNOWN)
            \<lparr> passthrough := MBEDTLS_WRITER_EXT_HOLD, ext_wr := pp \<rparr>"
  have x0: "hs_out_wr_ext (out_hs (io_out l3a)) = x0"
    by (simp add: l3a x0_def)
  note A = get_advance [OF wf [folded pp_def] g]
  have st0: "state (h0 pp) = MBEDTLS_WRITER_CONSUMING"
    using get_success_end [OF g] by simp
  note D = writer_inv_consumingD [OF wf [folded pp_def] st0]
  have hl1: "1 \<le> unat hl"
    using hdr_len_pos [OF bits] by (simp add: hl_def)
  have J0: "hold_inv pp x0 h1"
    unfolding hold_inv_def
    using raw A D(2) hl1
    by (simp add: x0_def h1 pp_def mbedtls_writer_init_ext_def)
  note J = ext_run_hold_inv [OF J0 run [unfolded x0]]
  from J have xw: "ext_wr x = pp" "pp \<noteq> NULL"
    and wr: "writer_inv (h2 pp)" and st2: "state (h2 pp) = MBEDTLS_WRITER_CONSUMING"
    and c: "unat (ofs_commit x) \<le> unat (ofs_fetch x)"
    and e: "unat (ofs_fetch x) + unat (committed (h2 pp)) + 1 \<le> unat (end_ofs (h2 pp))"
    by (simp_all add: hold_inv_def)
  have b_st: "out_state (io_out l3b) = MBEDTLS_MPS_MSG_HS"
    using P by (simp add: l3b_def l3a)
  have b_act: "hs_out_state (out_hs (io_out l3b)) = MPS_L3_HS_ACTIVE"
    by (simp add: l3b_def l3a)
  have b_x: "hs_out_wr_ext (out_hs (io_out l3b)) = x"
    by (simp add: l3b_def)
  show ?thesis
  proof (intro conjI impI)
    assume "mbedtls_writer_check_done x \<noteq> SUCCESS"
    then show "mps_l3_dispatch deps l3b l2a h2 =
              (FAILURE MBEDTLS_ERR_MPS_UNFINISHED_HS_MSG, l3b, l2a, h2)"
      by (intro dispatch_unfinished b_st b_act) (simp add: b_x)
  next
    assume dn: "mbedtls_writer_check_done x = SUCCESS"
    have hdr: "hs_out_hdr (out_hs (io_out l3a)) = Some buf"
      by (simp add: l3a)
    have "unat (ofs_commit x) < unat (- 1 :: 'a word)"
    proof -
      have "unat (end_ofs (h2 pp)) \<le> unat (- 1 :: 'a word)"
        by (simp add: word_le_nat_alt [symmetric])
      with c e show ?thesis
        by simp
    qed
    then have cm: "ofs_commit x \<noteq> MBEDTLS_MPS_SIZE_UNKNOWN"
      by (auto simp: MBEDTLS_MPS_SIZE_UNKNOWN_def)
    let ?w1 = "hs_header_bytes (conf_mode l3a) (h2 p) buf hs1"
    have "unat (ofs_fetch x - ofs_commit x) = unat (ofs_fetch x) - unat (ofs_commit x)"
      using c by (rule unat_sub_le)
    then have "fst (mbedtls_writer_commit_partial ?w1 (ofs_fetch x - ofs_commit x)) = SUCCESS"
      using st2 e
      by (intro commit_partial_success) (simp_all add: hs_header_bytes_fields p)
    then obtain w where
      cp: "mbedtls_writer_commit_partial ?w1 (ofs_fetch x - ofs_commit x) = (SUCCESS, w)"
      by (metis prod.collapse)
    have hs1c: "(out_hs (io_out l3b))
                    \<lparr> hs_out_wr_ext := mbedtls_writer_free_ext,
                      hs_out_len := ofs_commit x,
                      hs_out_frag_len := (if MBEDTLS_MPS_IS_DTLS (conf_mode l3a)
                          then ofs_commit x
                          else hs_out_frag_len (out_hs (io_out l3b))) \<rparr> = hs1"
      by (simp add: hs1_def l3b_def)
    have mdb: "conf_mode l3b = conf_mode l3a" and pb: "out_raw_out (io_out l3b) = p"
      by (simp_all add: l3b_def p_def)
    have "mps_l3_dispatch_hs l3b h2 =
           (case mbedtls_writer_commit_partial
                   (hs_header_bytes (conf_mode l3b) (h2 (out_raw_out (io_out l3b))) buf
                      ((out_hs (io_out l3b))
                    \<lparr> hs_out_wr_ext := mbedtls_writer_free_ext,
                      hs_out_len := ofs_commit (hs_out_wr_ext (out_hs (io_out l3b))),
                      hs_out_frag_len := (if MBEDTLS_MPS_IS_DTLS (conf_mode l3b)
                          then ofs_commit (hs_out_wr_ext (out_hs (io_out l3b)))
                          else hs_out_frag_len (out_hs (io_out l3b))) \<rparr>))
                   (ofs_fetch (hs_out_wr_ext (out_hs (io_out l3b))) -
                    ofs_commit (hs_out_wr_ext (out_hs (io_out l3b)))) of
              (res, w) \<Rightarrow>
                (res,
                 l3b\<lparr> io_out := (io_out l3b)\<lparr> out_hs := ((out_hs (io_out l3b))
                    \<lparr> hs_out_wr_ext := mbedtls_writer_free_ext,
                      hs_out_len := ofs_commit (hs_out_wr_ext (out_hs (io_out l3b))),
                      hs_out_frag_len := (if MBEDTLS_MPS_IS_DTLS (conf_mode l3b)
                          then ofs_commit (hs_out_wr_ext (out_hs (io_out l3b)))
                          else hs_out_frag_len (out_hs (io_out l3b))) \<rparr>)
                        \<lparr> hs_out_hdr := None, hs_out_hdr_len := 0,
                          hs_out_state := (if res = SUCCESS then MPS_L3_HS_NONE
                                           else MPS_L3_HS_ACTIVE) \<rparr> \<rparr> \<rparr>,
                 h2(out_raw_out (io_out l3b) := w)))"
    proof (rule dispatch_hs_unknown)
      show "hs_out_state (out_hs (io_out l3b)) = MPS_L3_HS_ACTIVE"
        by (rule b_act)
      show "hs_out_len (out_hs (io_out l3b)) = MBEDTLS_MPS_SIZE_UNKNOWN"
        by (simp add: l3b_def l3a)
      show "MBEDTLS_MPS_IS_DTLS (conf_mode l3b) \<longrightarrow>
              hs_out_frag_len (out_hs (io_out l3b)) = MBEDTLS_MPS_SIZE_UNKNOWN"
        using P by (simp add: l3b_def l3a)
      show "hs_out_hdr (out_hs (io_out l3b)) = Some buf"
        by (simp add: l3b_def l3a)
      show "hs_out_hdr_len (out_hs (io_out l3b)) =
              (if MBEDTLS_MPS_IS_TLS (conf_mode l3b) then 4 else 13)"
        using P by (simp add: l3b_def l3a hl_def)
      show "ext_wr (hs_out_wr_ext (out_hs (io_out l3b))) \<noteq> NULL"
        using xw by (simp add: b_x)
      show "ofs_commit (hs_out_wr_ext (out_hs (io_out l3b))) \<noteq> MBEDTLS_MPS_SIZE_UNKNOWN"
        using cm by (simp add: b_x)
      show "mbedtls_writer_check_done (hs_out_wr_ext (out_hs (io_out l3b))) = SUCCESS"
        using dn by (simp add: b_x)
    qed
    note R = this [unfolded b_x mdb pb, unfolded hs1c]
    have dh: "mps_l3_dispatch_hs l3b h2 =
             (SUCCESS,
              l3b\<lparr> io_out := (io_out l3b)\<lparr> out_hs := hs1
                        \<lparr> hs_out_hdr := None, hs_out_hdr_len := 0,
                          hs_out_state := MPS_L3_HS_NONE \<rparr> \<rparr> \<rparr>,
              h2(p := w))"
      unfolding R by (simp add: cp)
    have "mps_l3_dispatch deps l3b l2a h2 =
                 (case mps_l2_write_done deps l2a (h2(p := w)) of
                    (res, l2b, h3) \<Rightarrow>
                      (res,
                       l3b\<lparr> io_out := (io_out l3b)
                              \<lparr> out_hs := hs1\<lparr> hs_out_hdr := None, hs_out_hdr_len := 0,
                                               hs_out_state := MPS_L3_HS_NONE \<rparr>,
                                out_raw_out := NULL,
                                out_state := (if res = SUCCESS then MBEDTLS_MPS_MSG_NONE
                                              else MBEDTLS_MPS_MSG_HS) \<rparr> \<rparr>,
                       l2b, h3))"
      unfolding dispatch_hs_done [OF b_st dh]
      by (simp add: b_st split: prod.splits)
    then have disp: "mps_l3_dispatch deps l3b l2a h2 =
                 (case mps_l2_write_done deps l2a (h2(p := w)) of
                    (res, l2b, h3) \<Rightarrow>
                      (res,
                       l3b\<lparr> io_out := (io_out l3b)
                              \<lparr> out_hs := hs1\<lparr> hs_out_hdr := None, hs_out_hdr_len := 0,
                                               hs_out_state := MPS_L3_HS_NONE \<rparr>,
                                out_raw_out := NULL,
                                out_state := (if res = SUCCESS then MBEDTLS_MPS_MSG_NONE
                                              else MBEDTLS_MPS_MSG_HS) \<rparr> \<rparr>,
                       l2b, h3))" .
    have det: "mbedtls_writer_detach x (Some 0) (Some 0) =
                 (SUCCESS, x\<lparr> ofs_fetch := ofs_commit x, ext_wr := NULL \<rparr>,
                  Some (ofs_commit x), Some (ofs_fetch x - ofs_commit x))"
      using xw by (simp add: mbedtls_writer_detach_def assign_out_def)
    show "\<exists>buf xd cmt unc w.
               hs_out_hdr (out_hs (io_out l3a)) = Some buf \<and>
               mbedtls_writer_detach x (Some 0) (Some 0) = (SUCCESS, xd, Some cmt, Some unc) \<and>
               (let hs1 = (out_hs (io_out l3a))
                            \<lparr> hs_out_wr_ext := mbedtls_writer_free_ext,
                              hs_out_len := cmt,
                              hs_out_frag_len :=
                                (if MBEDTLS_MPS_IS_DTLS (conf_mode l3a) then cmt
                                 else hs_out_frag_len (out_hs (io_out l3a))) \<rparr>
                in mbedtls_writer_commit_partial
                     (hs_header_bytes (conf_mode l3a) (h2 p) buf hs1) unc = (SUCCESS, w) \<and>
                   mps_l3_dispatch deps l3b l2a h2 =
                     (case mps_l2_write_done deps l2a (h2(p := w)) of
                        (res, l2b, h3) \<Rightarrow>
                          (res,
                           l3b\<lparr> io_out := (io_out l3b)
                                  \<lparr> out_hs := hs1\<lparr> hs_out_hdr := None, hs_out_hdr_len := 0,
                                                   hs_out_state := MPS_L3_HS_NONE \<rparr>,
                                    out_raw_out := NULL,
                                    out_state := (if res = SUCCESS then MBEDTLS_MPS_MSG_NONE
                                                  else MBEDTLS_MPS_MSG_HS) \<rparr> \<rparr>,
                           l2b, h3)))"
      unfolding Let_def
      using hdr det cp [unfolded hs1_def] disp [unfolded hs1_def]
      by blast
  qed
qed

theorem dispatch_unknown_length_witness:
  "(let deps = sample_deps MBEDTLS_MPS_MSG_HS SUCCESS [] SUCCESS;
        l3 = sample_l3 MBEDTLS_MPS_MODE_DATAGRAM;
        out_p = \<lparr> hso_epoch = 0, hso_type = 1, hso_len = MBEDTLS_MPS_SIZE_UNKNOWN,
                  hso_seq_nr = 7, hso_frag_offset = 0,
                  hso_frag_len = MBEDTLS_MPS_SIZE_UNKNOWN \<rparr> :: 64 mps_l3_handshake_out;
        w = \<lparr> out = Some (replicate 24 0), queue = None, out_len = 24, queue_len = 0,
              committed = 0, end_ofs = 0, queue_next = 0, queue_remaining = 0,
              state = MBEDTLS_WRITER_CONSUMING \<rparr> :: 64 mbedtls_writer;
        h = (\<lambda>_ :: nat. mbedtls_writer_free)(1 := w);
        (rp, l3p, l2p, h0) =
           l3_prepare_write deps l3 MBEDTLS_MPS_MSG_HS (hso_epoch out_p) 0 h;
        (r1, l3a, l2a, h1) = mps_l3_write_handshake deps l3 out_p 0 h;
        (x, h2) = ext_run (hs_out_wr_ext (out_hs (io_out l3a)), h1)
                    [Get_ext 5 False, Commit_partial_ext 2];
        l3b = l3a\<lparr> io_out := (io_out l3a)\<lparr> out_hs := (out_hs (io_out l3a))
                       \<lparr> hs_out_wr_ext := x \<rparr> \<rparr> \<rparr>;
        (r2, l3c, l2c, h3) = mps_l3_dispatch deps l3b l2a h2
    in 16 \<le> LENGTH(64) \<and>
       hs_out_state (out_hs (io_out l3)) = MPS_L3_HS_NONE \<and>
       hso_len out_p = MBEDTLS_MPS_SIZE_UNKNOWN \<and>
       out_raw_out (io_out l3p) \<noteq> NULL \<and>
       writer_inv (h0 (out_raw_out (io_out l3p))) \<and>
       r1 = SUCCESS \<and>
       hs_out_hdr (out_hs (io_out l3a)) = Some (PTR_OUT 0) \<and>
       mbedtls_writer_check_done x = SUCCESS \<and>
       ofs_commit x = 3 \<and> ofs_fetch x = 5 \<and>
       r2 = SUCCESS \<and>
       hs_out_len (out_hs (io_out l3c)) = 3 \<and>
       hs_out_frag_len (out_hs (io_out l3c)) = 3 \<and>
       hs_out_state (out_hs (io_out l3c)) = MPS_L3_HS_NONE \<and>
       out_state (io_out l3c) = MBEDTLS_MPS_MSG_NONE \<and>
       out_raw_out (io_out l3c) = NULL \<and>
       l2c = 1 \<and>
       out (h3 1) = Some ([1, 0, 0, 3, 0, 7, 0, 0, 0, 0, 0, 0, 3] @ replicate 11 0) \<and>
       committed (h3 1) = 16 \<and> end_ofs (h3 1) = 16)"
proof -
  define deps :: "(nat, unit, unit, 64) mps_l3_deps" where
    "deps = sample_deps MBEDTLS_MPS_MSG_HS SUCCESS [] SUCCESS"
  define l3 :: "(unit, unit, 64) mps_l3" where "l3 = sample_l3 MBEDTLS_MPS_MODE_DATAGRAM"
  define out_p :: "64 mps_l3_handshake_out" where
    "out_p = \<lparr> hso_epoch = 0, hso_type = 1, hso_len = MBEDTLS_MPS_SIZE_UNKNOWN,
                  hso_seq_nr = 7, hso_frag_offset = 0,
                  hso_frag_len = MBEDTLS_MPS_SIZE_UNKNOWN \<rparr>"
  define w :: "64 mbedtls_writer" where
    "w = \<lparr> out = Some (replicate 24 0), queue = None, out_len = 24, queue_len = 0,
              committed = 0, end_ofs = 0, queue_next = 0, queue_remaining = 0,
              state = MBEDTLS_WRITER_CONSUMING \<rparr>"
  define h :: "64 writer_heap" where "h = (\<lambda>_ :: nat. mbedtls_writer_free)(1 := w)"
  define ops :: "64 word ext_op list" where "ops = [Get_ext 5 False, Commit_partial_ext 2]"
  define l3p where
    "l3p = l3\<lparr> io_out := (io_out l3)\<lparr> out_raw_out := 1, out_state := MBEDTLS_MPS_MSG_HS \<rparr> \<rparr>"
  define x0 :: "64 mbedtls_writer_ext" where
    "x0 = (mbedtls_writer_init_ext MBEDTLS_MPS_SIZE_UNKNOWN)
            \<lparr> passthrough := MBEDTLS_WRITER_EXT_HOLD, ext_wr := 1 \<rparr>"
  define l3a where
    "l3a = l3p\<lparr> io_out := (io_out l3p)\<lparr> out_hs :=
             \<lparr> hs_out_state = MPS_L3_HS_ACTIVE, hs_out_epoch = 0, hs_out_type = 1,
               hs_out_len = MBEDTLS_MPS_SIZE_UNKNOWN, hs_out_seq_nr = 7,
               hs_out_frag_offset = 0, hs_out_frag_len = MBEDTLS_MPS_SIZE_UNKNOWN,
               hs_out_hdr = Some (PTR_OUT 0), hs_out_hdr_len = 13,
               hs_out_wr_ext = x0 \<rparr> \<rparr> \<rparr>"
  define h1 where "h1 = h(1 := w\<lparr> end_ofs := 13 \<rparr>)"
  define x :: "64 mbedtls_writer_ext" where
    "x = x0\<lparr> passthrough := MBEDTLS_WRITER_EXT_BLOCK, ofs_fetch := 5, ofs_commit := 3 \<rparr>"
  define h2 where "h2 = h(1 := w\<lparr> end_ofs := 18 \<rparr>)"
  define l3b where "l3b = l3a\<lparr> io_out := (io_out l3a)\<lparr> out_hs := (out_hs (io_out l3a))
                       \<lparr> hs_out_wr_ext := x \<rparr> \<rparr> \<rparr>"
  have bits: "16 \<le> LENGTH(64)"
    by simp
  have new: "hs_out_state (out_hs (io_out l3)) = MPS_L3_HS_NONE"
    by (simp add: l3_def sample_l3_def mps_l3_init_def)
  have unk: "hso_len out_p = MBEDTLS_MPS_SIZE_UNKNOWN"
    by (simp add: out_p_def)
  have pw: "l3_prepare_write deps l3 MBEDTLS_MPS_MSG_HS (hso_epoch out_p) 0 h =
              (SUCCESS, l3p, 0, h)"
    by (simp add: l3_prepare_write_def l3_check_clear_def deps_def sample_deps_def l3_def
        sample_l3_def mps_l3_init_def l3p_def)
  have raw: "out_raw_out (io_out l3p) \<noteq> NULL"
    by (simp add: l3p_def NULL_def)
  have wf: "writer_inv (h (out_raw_out (io_out l3p)))"
    by (simp add: l3p_def h_def w_def writer_inv_def)
  have l3p_f: "conf_mode l3p = MBEDTLS_MPS_MODE_DATAGRAM"
    "out_hs (io_out l3p) = out_hs (io_out l3)" "out_raw_out (io_out l3p) = 1"
    by (simp_all add: l3p_def l3_def sample_l3_def mps_l3_init_def)
  have g: "mbedtls_writer_get (h (Suc 0)) 13 hdr0 None =
             (SUCCESS, w\<lparr> end_ofs := 13 \<rparr>, Some (PTR_OUT 0), None)" for hdr0
    by (simp add: h_def w_def mbedtls_writer_get_def assign_out_def Let_def)
  have wh: "mps_l3_write_handshake deps l3 out_p 0 h = (SUCCESS, l3a, 0, h1)"
    unfolding mps_l3_write_handshake_def
    apply (simp add: new pw l3p_f Let_def MBEDTLS_MPS_IS_DTLS_def MBEDTLS_MPS_IS_TLS_def
        MPS_DTLS_HS_HDR_SIZE_def)
    apply (simp add: out_p_def mps_l3_write_handshake_reserve_def l3p_f Let_def g)
    apply (simp add: l3_check_write_hs_hdr_def l3_check_write_hs_hdr_dtls_def l3p_f
        MBEDTLS_MPS_IS_DTLS_def MBEDTLS_MPS_IS_TLS_def Let_def
        mps_l3_write_handshake_attach_def mbedtls_writer_attach_def
        mbedtls_writer_init_ext_def scast_ucast_unknown)
    apply (simp add: l3a_def h1_def x0_def l3p_def l3_def sample_l3_def mps_l3_init_def
        mbedtls_writer_init_ext_def NULL_def)
    done
  have run: "ext_run (hs_out_wr_ext (out_hs (io_out l3a)), h1) ops = (x, h2)"
    by (simp add: l3a_def ext_run_def ops_def x0_def x_def h1_def h2_def h_def w_def
        mbedtls_writer_init_ext_def MBEDTLS_MPS_SIZE_UNKNOWN_def NULL_def
        mbedtls_writer_get_ext_def mbedtls_writer_get_def
        mbedtls_writer_commit_partial_ext_def assign_out_def Let_def)
  have dn: "mbedtls_writer_check_done x = SUCCESS"
    by (simp add: mbedtls_writer_check_done_def x_def x0_def mbedtls_writer_init_ext_def
        MBEDTLS_MPS_SIZE_UNKNOWN_def MBEDTLS_MPS_SIZE_MAX_def)
  have ofs: "ofs_commit x = 3" "ofs_fetch x = 5"
    by (simp_all add: x_def)
  have hdr: "hs_out_hdr (out_hs (io_out l3a)) = Some (PTR_OUT 0)"
    by (simp add: l3a_def)
  have pa: "out_raw_out (io_out l3a) = 1" "conf_mode l3a = MBEDTLS_MPS_MODE_DATAGRAM"
    by (simp_all add: l3a_def l3p_f)
  define hs1 where "hs1 = (out_hs (io_out l3a))
                    \<lparr> hs_out_wr_ext := mbedtls_writer_free_ext,
                      hs_out_len := ofs_commit x,
                      hs_out_frag_len := (if MBEDTLS_MPS_IS_DTLS (conf_mode l3a)
                                          then ofs_commit x
                                          else hs_out_frag_len (out_hs (io_out l3a))) \<rparr>"
  have hs1_f: "hs_out_type hs1 = 1" "hs_out_len hs1 = 3" "hs_out_seq_nr hs1 = 7"
    "hs_out_frag_offset hs1 = 0" "hs_out_frag_len hs1 = 3"
    by (simp_all add: hs1_def l3a_def ofs l3p_f MBEDTLS_MPS_IS_DTLS_def)
  define w3 :: "64 mbedtls_writer" where
    "w3 = w\<lparr> out := Some ([1, 0, 0, 3, 0, 7, 0, 0, 0, 0, 0, 0, 3] @ replicate 11 0),
             end_ofs := 16, committed := 16 \<rparr>"
  have hb: "hs_header_bytes (conf_mode l3a) (h2 (out_raw_out (io_out l3a))) (PTR_OUT 0) hs1 =
              w\<lparr> out := Some ([1, 0, 0, 3, 0, 7, 0, 0, 0, 0, 0, 0, 3] @ replicate 11 0),
                 end_ofs := 18 \<rparr>"
    by (simp add: pa hs_header_bytes_def hs1_f MBEDTLS_MPS_IS_TLS_def h2_def w_def
        consumer_write_def ptr_add_def memcpy_ptr_def memcpy_def MPS_WRITE_UINT24_BE_def
        MPS_WRITE_UINT16_BE_def)
  have cp: "mbedtls_writer_commit_partial
                 (hs_header_bytes (conf_mode l3a) (h2 (out_raw_out (io_out l3a))) (PTR_OUT 0) hs1)
                 (ofs_fetch x - ofs_commit x) = (SUCCESS, w3)"
    unfolding hb
    by (simp add: ofs w_def w3_def mbedtls_writer_commit_partial_def Let_def)
  have wd: "mps_l2_write_done deps 0 g = (SUCCESS, 1, g)" for g
    by (simp add: deps_def sample_deps_def)
  note T = dispatch_unknown_length [OF bits new unk pw raw wf wh run]
  from T dn obtain buf xd cmt unc w' where
    b: "hs_out_hdr (out_hs (io_out l3a)) = Some buf"
    and dt: "mbedtls_writer_detach x (Some 0) (Some 0) = (SUCCESS, xd, Some cmt, Some unc)"
    and c: "mbedtls_writer_commit_partial
                 (hs_header_bytes (conf_mode l3a) (h2 (out_raw_out (io_out l3a))) buf
                    ((out_hs (io_out l3a))
                       \<lparr> hs_out_wr_ext := mbedtls_writer_free_ext,
                         hs_out_len := cmt,
                         hs_out_frag_len := (if MBEDTLS_MPS_IS_DTLS (conf_mode l3a) then cmt
                            else hs_out_frag_len (out_hs (io_out l3a))) \<rparr>))
                 unc = (SUCCESS, w')"
    and d: "mps_l3_dispatch deps l3b 0 h2 =
              (case mps_l2_write_done deps 0 (h2(out_raw_out (io_out l3a) := w')) of
                    (res, l2b, h3) \<Rightarrow>
                      (res,
                       l3b\<lparr> io_out := (io_out l3b)
                              \<lparr> out_hs := ((out_hs (io_out l3a))
                                   \<lparr> hs_out_wr_ext := mbedtls_writer_free_ext,
                                     hs_out_len := cmt,
                                     hs_out_frag_len :=
                                       (if MBEDTLS_MPS_IS_DTLS (conf_mode l3a) then cmt
                                        else hs_out_frag_len (out_hs (io_out l3a))) \<rparr>)
                                   \<lparr> hs_out_hdr := None, hs_out_hdr_len := 0,
                                     hs_out_state := MPS_L3_HS_NONE \<rparr>,
                                out_raw_out := NULL,
                                out_state := (if res = SUCCESS then MBEDTLS_MPS_MSG_NONE
                                              else MBEDTLS_MPS_MSG_HS) \<rparr> \<rparr>,
                       l2b, h3))"
    unfolding Let_def l3b_def by blast
  from dt have cu: "cmt = ofs_commit x" "unc = ofs_fetch x - ofs_commit x"
    by (auto simp: mbedtls_writer_detach_def assign_out_def split: if_splits)
  note c = c [unfolded cu, folded hs1_def]
  note d = d [unfolded cu, folded hs1_def]
  from b hdr have "buf = PTR_OUT 0"
    by simp
  with c cp have w': "w' = w3"
    by simp
  have disp: "mps_l3_dispatch deps l3b 0 h2 =
                (SUCCESS,
                 l3b\<lparr> io_out := (io_out l3b)
                        \<lparr> out_hs := hs1\<lparr> hs_out_hdr := None, hs_out_hdr_len := 0,
                                         hs_out_state := MPS_L3_HS_NONE \<rparr>,
                          out_raw_out := NULL, out_state := MBEDTLS_MPS_MSG_NONE \<rparr> \<rparr>,
                 1, h2(1 := w3))"
    unfolding d w' wd pa by simp
  show ?thesis
    unfolding Let_def
    unfolding w_def [symmetric]
    unfolding h_def [symmetric] deps_def [symmetric] l3_def [symmetric]
      out_p_def [symmetric] ops_def [symmetric]
    unfolding pw wh prod.case run l3b_def [symmetric] disp
    using bits new unk raw wf dn ofs hdr
    by (simp add: hs1_f w3_def)
qed

end
